theory Spec2Isabelle
  imports Complex_Main "HOL-Library.Char_ord" "HOL-Library.List_Lexorder" "HOL-Library.AList"
begin

section \<open>Python values\<close>

text \<open>
  A Python \<open>str\<close> is modelled as a \<open>string\<close>: a list of code points below 256.
  Python compares strings lexicographically by code point, which is the order that
  \<open>Char_ord\<close> and \<open>List_Lexorder\<close> put on \<open>char list\<close>.  A Python \<open>float\<close> is
  the \<open>real\<close> it denotes (the rounding of float arithmetic is modelled where the
  complexity score computes with floats); Python's unbounded \<open>int\<close> is \<open>int\<close>.

  \<open>json\<close> is the type of the values that \<open>json.loads\<close> can return and that
  \<open>json.dumps\<close> accepts without raising: configurations, chunk lists and the
  parse cache's entry are of this type.  A dict is an association list in insertion
  order; a well-formed dict has distinct keys.
\<close>

datatype json =
    JNull
  | JBool bool
  | JInt int
  | JFloat real
  | JStr string
  | JList "json list"
  | JObj "(string \<times> json) list"

subsection \<open>Decimal and hexadecimal digits\<close>

function str_of_nat :: "nat \<Rightarrow> string" where
  "str_of_nat n =
     (if n < 10 then [''0123456789'' ! n]
      else str_of_nat (n div 10) @ [''0123456789'' ! (n mod 10)])"
  by pat_completeness auto
termination
  by (relation "measure (\<lambda>n. n)") auto

declare str_of_nat.simps [simp del]

definition str_of_int :: "int \<Rightarrow> string" where
  "str_of_int i = (if i < 0 then ''-'' @ str_of_nat (nat (- i)) else str_of_nat (nat i))"

definition hex_digit :: "nat \<Rightarrow> char" where
  "hex_digit n = ''0123456789abcdef'' ! (n mod 16)"

subsection \<open>\<open>json.dumps\<close>\<close>

text \<open>
  \<open>json.dumps(obj, sort_keys=sk)\<close> with the default \<open>ensure_ascii=True\<close> and the default
  separators \<open>", "\<close> and \<open>": "\<close>.  Every character outside the printable ASCII range is
  written as a \<open>\\u\<close> escape.  The text of a float is the runtime's \<open>float.__repr__\<close>,
  a parameter here.  With \<open>sort_keys\<close> the items of every dict, nested ones too, are
  written in the order of their keys.
\<close>

definition json_escape_char :: "char \<Rightarrow> string" where
  "json_escape_char c =
     (if c = CHR 0x22 then [CHR 0x5C, CHR 0x22]
      else if c = CHR 0x5C then [CHR 0x5C, CHR 0x5C]
      else if c = CHR 0x0A then [CHR 0x5C, CHR ''n'']
      else if c = CHR 0x0D then [CHR 0x5C, CHR ''r'']
      else if c = CHR 0x09 then [CHR 0x5C, CHR ''t'']
      else if c = CHR 0x08 then [CHR 0x5C, CHR ''b'']
      else if c = CHR 0x0C then [CHR 0x5C, CHR ''f'']
      else if 32 \<le> (of_char c :: nat) \<and> (of_char c :: nat) \<le> 126 then [c]
      else [CHR 0x5C, CHR ''u'', CHR ''0'', CHR ''0'',
            hex_digit (of_char c div 16), hex_digit (of_char c)])"

definition json_quote :: "string \<Rightarrow> string" where
  "json_quote s = [CHR 0x22] @ concat (map json_escape_char s) @ [CHR 0x22]"

fun join :: "string \<Rightarrow> string list \<Rightarrow> string" where
  "join sep [] = []"
| "join sep [x] = x"
| "join sep (x # y # ys) = x @ sep @ join sep (y # ys)"

function (sequential) dumps :: "(real \<Rightarrow> string) \<Rightarrow> bool \<Rightarrow> json \<Rightarrow> string" where
  "dumps fr sk JNull = ''null''"
| "dumps fr sk (JBool b) = (if b then ''true'' else ''false'')"
| "dumps fr sk (JInt i) = str_of_int i"
| "dumps fr sk (JFloat x) = fr x"
| "dumps fr sk (JStr s) = json_quote s"
| "dumps fr sk (JList vs) = ''['' @ join '', '' (map (dumps fr sk) vs) @ '']''"
| "dumps fr sk (JObj kvs) =
     ''{'' @ join '', ''
        (map (\<lambda>kv. json_quote (fst kv) @ '': '' @ dumps fr sk (snd kv))
           (if sk then sort_key fst kvs else kvs)) @ ''}''"
  by pat_completeness auto
termination
proof (relation "measure (\<lambda>(fr, sk, v). size v)")
  show "wf (measure (\<lambda>(fr, sk, v). size v))"
    by simp
next
  fix fr :: "real \<Rightarrow> string" and sk :: bool and vs :: "json list" and x :: json
  assume "x \<in> set vs"
  then have "size x < Suc (size_list size vs)"
    by (induction vs) auto
  then show "((fr, sk, x), (fr, sk, JList vs)) \<in> measure (\<lambda>(fr, sk, v). size v)"
    by simp
next
  fix fr :: "real \<Rightarrow> string" and sk :: bool and kvs :: "(string \<times> json) list"
    and x :: "string \<times> json"
  assume "x \<in> set (if sk then sort_key fst kvs else kvs)"
  then have "x \<in> set kvs"
    by (simp split: if_splits)
  then have "size (snd x) < Suc (size_list (size_prod (\<lambda>k. 0) size) kvs)"
    by (induction kvs) auto
  then show "((fr, sk, snd x), (fr, sk, JObj kvs)) \<in> measure (\<lambda>(fr, sk, v). size v)"
    by simp
qed


section \<open>The disk caches (\<open>cache.py\<close>)\<close>

subsection \<open>The world a cache runs in\<close>

text \<open>
  The caches touch the file system, the system clock and standard output.  A file is
  its contents and its modification time; \<open>files\<close> maps a path to the file stored
  there; \<open>clock\<close> is what \<open>time.time()\<close> returns; \<open>stdout\<close> collects the printed
  diagnostics (the fixed prefix of each message: the text of the exception that follows
  it is the library's); \<open>open_fails\<close> tells for which paths opening the file for
  writing raises (a read-only or full disk).  Reading a file that exists succeeds.
  Writing a file sets its modification time to the current clock value.
\<close>

record disk_file =
  content :: string
  mtime :: real

record world =
  files :: "string \<rightharpoonup> disk_file"
  clock :: real
  stdout :: "string list"
  open_fails :: "string \<Rightarrow> bool"

definition print :: "string \<Rightarrow> world \<Rightarrow> world" where
  "print msg w = w\<lparr>stdout := stdout w @ [msg]\<rparr>"

definition unlink :: "string \<Rightarrow> world \<Rightarrow> world" where
  "unlink p w = w\<lparr>files := (files w)(p := None)\<rparr>"

definition write_file :: "string \<Rightarrow> string \<Rightarrow> world \<Rightarrow> world" where
  "write_file p bytes w = w\<lparr>files := (files w)(p \<mapsto> \<lparr>content = bytes, mtime = clock w\<rparr>)\<rparr>"

text \<open>Time passing between two calls: the clock moves by \<open>d\<close> seconds.\<close>

definition advance :: "real \<Rightarrow> world \<Rightarrow> world" where
  "advance d w = w\<lparr>clock := clock w + d\<rparr>"

text \<open>
  The library functions the caches call: \<open>hashlib.sha256(s.encode()).hexdigest()\<close>,
  \<open>pickle.dumps\<close> (which raises on an object that cannot be pickled: \<open>None\<close>),
  \<open>pickle.loads\<close> and \<open>json.loads\<close> (which raise on contents they cannot read:
  \<open>None\<close>), and \<open>float.__repr__\<close>.
\<close>

record 'e pylib =
  sha256_hexdigest :: "string \<Rightarrow> string"
  pickle_dumps :: "'e \<Rightarrow> string option"
  pickle_loads :: "string \<Rightarrow> 'e option"
  json_loads :: "string \<Rightarrow> json option"
  float_repr :: "real \<Rightarrow> string"

text \<open>Each cache object holds its directory and its time to live in seconds.\<close>

record cache =
  cache_dir :: string
  ttl :: int

subsection \<open>\<open>EmbeddingCache\<close>\<close>

definition EmbeddingCache_get_cache_key :: "('e, 'x) pylib_scheme \<Rightarrow> string \<Rightarrow> string \<Rightarrow> string" where
  "EmbeddingCache_get_cache_key lib text model = sha256_hexdigest lib (text @ '':'' @ model)"

definition EmbeddingCache_get_cache_path :: "cache \<Rightarrow> string \<Rightarrow> string" where
  "EmbeddingCache_get_cache_path c key = cache_dir c @ ''/'' @ key @ ''.pkl''"

definition EmbeddingCache_get ::
  "('e, 'x) pylib_scheme \<Rightarrow> cache \<Rightarrow> string \<Rightarrow> string \<Rightarrow> world \<Rightarrow> 'e option \<times> world" where
  "EmbeddingCache_get lib c text model w =
     (let key = EmbeddingCache_get_cache_key lib text model;
          cache_file = EmbeddingCache_get_cache_path c key
      in case files w cache_file of
           None \<Rightarrow> (None, w)
         | Some f \<Rightarrow>
             (let file_age = clock w - mtime f
              in if file_age > real_of_int (ttl c) then (None, unlink cache_file w)
                 else (case pickle_loads lib (content f) of
                         Some v \<Rightarrow> (Some v, w)
                       | None \<Rightarrow> (None, print ''Error loading cache: '' w))))"

definition EmbeddingCache_set ::
  "('e, 'x) pylib_scheme \<Rightarrow> cache \<Rightarrow> string \<Rightarrow> string \<Rightarrow> 'e \<Rightarrow> world \<Rightarrow> world" where
  "EmbeddingCache_set lib c text model embedding w =
     (let key = EmbeddingCache_get_cache_key lib text model;
          cache_file = EmbeddingCache_get_cache_path c key
      in if open_fails w cache_file then print ''Error saving cache: '' w
         else (case pickle_dumps lib embedding of
                 Some bytes \<Rightarrow> write_file cache_file bytes w
               | None \<Rightarrow> print ''Error saving cache: '' (write_file cache_file [] w)))"

subsection \<open>\<open>ChunkResultCache\<close>\<close>

definition ChunkResultCache_get_cache_key ::
  "('e, 'x) pylib_scheme \<Rightarrow> string \<Rightarrow> string \<Rightarrow> (string \<times> json) list \<Rightarrow> string" where
  "ChunkResultCache_get_cache_key lib text_hash strategy config =
     (let config_str = dumps (float_repr lib) True (JObj config);
          content = text_hash @ '':'' @ strategy @ '':'' @ config_str
      in sha256_hexdigest lib content)"

definition ChunkResultCache_get_cache_path :: "cache \<Rightarrow> string \<Rightarrow> string" where
  "ChunkResultCache_get_cache_path c key = cache_dir c @ ''/'' @ key @ ''.json''"

definition ChunkResultCache_hash_text :: "('e, 'x) pylib_scheme \<Rightarrow> string \<Rightarrow> string" where
  "ChunkResultCache_hash_text lib text = sha256_hexdigest lib text"

text \<open>
  \<open>json.load\<close> returns Python's \<open>None\<close> for the contents \<open>null\<close>; the caller cannot
  tell it from a miss, and neither can the model.
\<close>

definition ChunkResultCache_get ::
  "('e, 'x) pylib_scheme \<Rightarrow> cache \<Rightarrow> string \<Rightarrow> string \<Rightarrow> (string \<times> json) list \<Rightarrow> world
     \<Rightarrow> json option \<times> world" where
  "ChunkResultCache_get lib c text strategy config w =
     (let text_hash = ChunkResultCache_hash_text lib text;
          key = ChunkResultCache_get_cache_key lib text_hash strategy config;
          cache_file = ChunkResultCache_get_cache_path c key
      in case files w cache_file of
           None \<Rightarrow> (None, w)
         | Some f \<Rightarrow>
             (let file_age = clock w - mtime f
              in if file_age > real_of_int (ttl c) then (None, unlink cache_file w)
                 else (case json_loads lib (content f) of
                         Some JNull \<Rightarrow> (None, w)
                       | Some v \<Rightarrow> (Some v, w)
                       | None \<Rightarrow> (None, print ''Error loading chunk cache: '' w))))"

definition ChunkResultCache_set ::
  "('e, 'x) pylib_scheme \<Rightarrow> cache \<Rightarrow> string \<Rightarrow> string \<Rightarrow> (string \<times> json) list \<Rightarrow> json list
     \<Rightarrow> world \<Rightarrow> world" where
  "ChunkResultCache_set lib c text strategy config chunks w =
     (let text_hash = ChunkResultCache_hash_text lib text;
          key = ChunkResultCache_get_cache_key lib text_hash strategy config;
          cache_file = ChunkResultCache_get_cache_path c key
      in if open_fails w cache_file then print ''Error saving chunk cache: '' w
         else write_file cache_file (dumps (float_repr lib) False (JList chunks)) w)"

subsection \<open>\<open>ParseResultCache\<close>\<close>

definition ParseResultCache_get_cache_key ::
  "('e, 'x) pylib_scheme \<Rightarrow> string \<Rightarrow> (string \<times> json) list \<Rightarrow> string \<Rightarrow> string" where
  "ParseResultCache_get_cache_key lib file_hash config parser_method =
     (let config_str = dumps (float_repr lib) True (JObj config);
          content = file_hash @ '':'' @ parser_method @ '':'' @ config_str
      in sha256_hexdigest lib content)"

definition ParseResultCache_get_cache_path :: "cache \<Rightarrow> string \<Rightarrow> string" where
  "ParseResultCache_get_cache_path c key = cache_dir c @ ''/'' @ key @ ''.json''"

text \<open>
  \<open>data.get('markdown')\<close> raises \<open>AttributeError\<close> when the file holds JSON that is not
  an object; the \<open>except\<close> clause catches it like a failure of \<open>json.load\<close>.  On an
  object without the key, or with \<open>null\<close> under it, the result is Python's \<open>None\<close>.
\<close>

definition ParseResultCache_get ::
  "('e, 'x) pylib_scheme \<Rightarrow> cache \<Rightarrow> string \<Rightarrow> (string \<times> json) list \<Rightarrow> string \<Rightarrow> world
     \<Rightarrow> json option \<times> world" where
  "ParseResultCache_get lib c file_hash config parser_method w =
     (let key = ParseResultCache_get_cache_key lib file_hash config parser_method;
          cache_file = ParseResultCache_get_cache_path c key
      in case files w cache_file of
           None \<Rightarrow> (None, w)
         | Some f \<Rightarrow>
             (let file_age = clock w - mtime f
              in if file_age > real_of_int (ttl c) then (None, unlink cache_file w)
                 else (case json_loads lib (content f) of
                         Some (JObj data) \<Rightarrow>
                           (case map_of data ''markdown'' of
                              None \<Rightarrow> (None, w)
                            | Some JNull \<Rightarrow> (None, w)
                            | Some v \<Rightarrow> (Some v, w))
                       | _ \<Rightarrow> (None, print ''Error loading parse cache: '' w))))"

text \<open>The dict that \<open>set\<close> stores: the markdown and, for inspection, the lookup inputs and the time.\<close>

definition cache_data :: "string \<Rightarrow> (string \<times> json) list \<Rightarrow> string \<Rightarrow> string \<Rightarrow> real \<Rightarrow> json" where
  "cache_data file_hash config markdown parser_method now =
     JObj [(''file_hash'', JStr file_hash),
           (''config'', JObj config),
           (''markdown'', JStr markdown),
           (''parser_method'', JStr parser_method),
           (''timestamp'', JFloat now)]"

definition ParseResultCache_set ::
  "('e, 'x) pylib_scheme \<Rightarrow> cache \<Rightarrow> string \<Rightarrow> (string \<times> json) list \<Rightarrow> string \<Rightarrow> string
     \<Rightarrow> world \<Rightarrow> world" where
  "ParseResultCache_set lib c file_hash config markdown parser_method w =
     (let key = ParseResultCache_get_cache_key lib file_hash config parser_method;
          cache_file = ParseResultCache_get_cache_path c key
      in if open_fails w cache_file then print ''Error saving parse cache: '' w
         else write_file cache_file
                (dumps (float_repr lib) False
                   (cache_data file_hash config markdown parser_method (clock w))) w)"

subsection \<open>The entry file of a lookup\<close>

abbreviation embedding_file :: "('e, 'x) pylib_scheme \<Rightarrow> cache \<Rightarrow> string \<Rightarrow> string \<Rightarrow> string" where
  "embedding_file lib c text model \<equiv>
     EmbeddingCache_get_cache_path c (EmbeddingCache_get_cache_key lib text model)"

abbreviation chunk_file ::
  "('e, 'x) pylib_scheme \<Rightarrow> cache \<Rightarrow> string \<Rightarrow> string \<Rightarrow> (string \<times> json) list \<Rightarrow> string" where
  "chunk_file lib c text strategy config \<equiv>
     ChunkResultCache_get_cache_path c
       (ChunkResultCache_get_cache_key lib (ChunkResultCache_hash_text lib text) strategy config)"

abbreviation parse_file ::
  "('e, 'x) pylib_scheme \<Rightarrow> cache \<Rightarrow> string \<Rightarrow> (string \<times> json) list \<Rightarrow> string \<Rightarrow> string" where
  "parse_file lib c file_hash config parser_method \<equiv>
     ParseResultCache_get_cache_path c
       (ParseResultCache_get_cache_key lib file_hash config parser_method)"

subsection \<open>A small library and world to run the caches on\<close>

text \<open>
  The properties below hold for every library; to run the caches on concrete inputs one
  is fixed here.  Its hash is the identity, its pickle format is the payload (a string)
  behind the letter \<open>P\<close>, and its JSON reader knows the two texts the examples store.
\<close>

definition toy_chunks :: "json list" where
  "toy_chunks = [JObj [(''text'', JStr ''alpha''), (''metadata'', JObj [])]]"

definition toy_config :: "(string \<times> json) list" where
  "toy_config = [(''language'', JStr ''en''), (''disable_ocr'', JBool False)]"

definition toy_lib :: "string pylib" where
  "toy_lib = \<lparr>
     sha256_hexdigest = (\<lambda>s. s),
     pickle_dumps = (\<lambda>e. Some (CHR ''P'' # e)),
     pickle_loads = (\<lambda>s. case s of [] \<Rightarrow> None | c # e \<Rightarrow> if c = CHR ''P'' then Some e else None),
     json_loads = (\<lambda>s.
        if s = dumps (\<lambda>x. ''1000.0'') False (JList toy_chunks) then Some (JList toy_chunks)
        else if s = dumps (\<lambda>x. ''1000.0'') False (cache_data ''abc'' toy_config ''# Title'' ''llamaparse'' 1000)
        then Some (cache_data ''abc'' toy_config ''# Title'' ''llamaparse'' 1000)
        else None),
     float_repr = (\<lambda>x. ''1000.0'') \<rparr>"

definition toy_world :: world where
  "toy_world = \<lparr> files = Map.empty, clock = 1000, stdout = [], open_fails = (\<lambda>p. False) \<rparr>"

definition toy_cache :: "int \<Rightarrow> cache" where
  "toy_cache t = \<lparr> cache_dir = ''./cache'', ttl = t \<rparr>"



subsection \<open>Dicts that differ in the order of their keys\<close>

text \<open>
  Two values are the same up to the order in which their dicts were built: scalars are
  equal, lists agree position by position, and two dicts have the same keys with, under
  each key, values that are again the same up to key order.  Keys of a dict are
  distinct.  (Python's \<open>==\<close> moreover identifies \<open>True\<close>, \<open>1\<close> and \<open>1.0\<close>; that
  is a difference of values, not of key order, and is not part of this relation.)
\<close>

inductive dict_eq :: "json \<Rightarrow> json \<Rightarrow> bool" where
  dict_eq_null: "dict_eq JNull JNull"
| dict_eq_bool: "dict_eq (JBool b) (JBool b)"
| dict_eq_int: "dict_eq (JInt i) (JInt i)"
| dict_eq_float: "dict_eq (JFloat x) (JFloat x)"
| dict_eq_str: "dict_eq (JStr s) (JStr s)"
| dict_eq_list: "list_all2 dict_eq xs ys \<Longrightarrow> dict_eq (JList xs) (JList ys)"
| dict_eq_obj:
    "distinct (map fst xs) \<Longrightarrow> distinct (map fst ys) \<Longrightarrow> fst ` set xs = fst ` set ys \<Longrightarrow>
     (\<And>k v v'. (k, v) \<in> set xs \<Longrightarrow> (k, v') \<in> set ys \<Longrightarrow> dict_eq v v') \<Longrightarrow>
     dict_eq (JObj xs) (JObj ys)"

section \<open>Strings the way Python handles them\<close>

text \<open>
  \<open>str.isspace\<close> on the code points below 256: tab to carriage return, the four
  separators \<open>0x1C\<close> to \<open>0x1F\<close>, space, next line and no-break space.  \<open>str.strip()\<close>,
  \<open>str.split()\<close> and the regular expression class \<open>\\s\<close> all use it.
\<close>

definition isspace :: "char \<Rightarrow> bool" where
  "isspace c = ((of_char c :: nat) \<in> {9, 10, 11, 12, 13, 28, 29, 30, 31, 32, 133, 160})"

definition strip :: "string \<Rightarrow> string" where
  "strip s = rev (dropWhile isspace (rev (dropWhile isspace s)))"

text \<open>\<open>s.split(sep)\<close> for a one-character separator: never empty, \<open>''.split(sep) == ['']\<close>.\<close>

fun split_on :: "char \<Rightarrow> string \<Rightarrow> string list" where
  "split_on sep [] = [[]]"
| "split_on sep (c # cs) =
     (if c = sep then [] # split_on sep cs
      else (case split_on sep cs of
              [] \<Rightarrow> [[c]]
            | x # xs \<Rightarrow> (c # x) # xs))"

definition startswith :: "string \<Rightarrow> string \<Rightarrow> bool" where
  "startswith s p = (take (length p) s = p)"

text \<open>
  \<open>int(s)\<close> on a string: surrounding whitespace is dropped, one sign is allowed, the
  rest must be decimal digits; anything else raises \<open>ValueError\<close> (\<open>None\<close>).
\<close>

definition isdigit :: "char \<Rightarrow> bool" where
  "isdigit c = (48 \<le> (of_char c :: nat) \<and> (of_char c :: nat) \<le> 57)"

definition digits_value :: "string \<Rightarrow> int option" where
  "digits_value ds =
     (if ds \<noteq> [] \<and> list_all isdigit ds
      then Some (foldl (\<lambda>a d. 10 * a + (int (of_char d) - 48)) 0 ds)
      else None)"

definition py_int :: "string \<Rightarrow> int option" where
  "py_int s =
     (case strip s of
        [] \<Rightarrow> None
      | c # cs \<Rightarrow>
          if c = CHR ''-'' then map_option uminus (digits_value cs)
          else if c = CHR ''+'' then digits_value cs
          else digits_value (c # cs))"

section \<open>Metadata enrichment (\<open>metadata.py\<close>)\<close>

text \<open>
  What a Python function raises is a value here: \<open>Inl\<close> of the exception, \<open>Inr\<close> of the
  result.
\<close>

datatype exn = TypeError | IndexError | ValueError | ValidationError | OSError | EngineError

text \<open>
  A chunk is a dict read with \<open>chunk.get('text', '')\<close> and \<open>chunk.get('metadata', {})\<close>:
  either key may be absent.  The metadata is a dict from field names to JSON values, in
  insertion order: \<open>metadata[k] = v\<close> is \<open>AList.update k v\<close>, which replaces the value of
  a key that is there and appends a new key at the end.  Each chunk is taken to own its
  metadata dict (no two chunks share one object).
\<close>

type_synonym metadata = "(string \<times> json) list"

record chunk =
  chunk_text :: "string option"
  chunk_metadata :: "metadata option"

definition get_text :: "chunk \<Rightarrow> string" where
  "get_text c = (case chunk_text c of None \<Rightarrow> [] | Some t \<Rightarrow> t)"

definition get_metadata :: "chunk \<Rightarrow> metadata" where
  "get_metadata c = (case chunk_metadata c of None \<Rightarrow> [] | Some m \<Rightarrow> m)"

definition contains_key :: "metadata \<Rightarrow> string \<Rightarrow> bool" where
  "contains_key metadata k = (map_of metadata k \<noteq> None)"

text \<open>\<open>metadata.update(other)\<close>\<close>

definition dict_update :: "metadata \<Rightarrow> metadata \<Rightarrow> metadata" where
  "dict_update metadata other = fold (\<lambda>kv m. AList.update (fst kv) (snd kv) m) other metadata"

text \<open>Python's truth value of a JSON value, as \<open>if metadata[heading_key]\<close> tests it.\<close>

fun truthy :: "json \<Rightarrow> bool" where
  "truthy JNull = False"
| "truthy (JBool b) = b"
| "truthy (JInt i) = (i \<noteq> 0)"
| "truthy (JFloat x) = (x \<noteq> 0)"
| "truthy (JStr s) = (s \<noteq> [])"
| "truthy (JList xs) = (xs \<noteq> [])"
| "truthy (JObj kvs) = (kvs \<noteq> [])"

subsection \<open>\<open>calculate_token_count\<close>\<close>

text \<open>
  The tokenizer is the library \<open>tiktoken\<close>: given the name of an encoding and a text it
  returns the tokens, or raises (\<open>None\<close>).  Any exception leads to the estimate of one
  token for four characters.
\<close>

definition calculate_token_count :: "(string \<Rightarrow> string \<Rightarrow> nat list option) \<Rightarrow> string \<Rightarrow> string \<Rightarrow> int" where
  "calculate_token_count tiktoken text model =
     (let encoding_map = [(''gpt-4'', ''cl100k_base''),
                          (''gpt-3.5-turbo'', ''cl100k_base''),
                          (''text-davinci-003'', ''p50k_base''),
                          (''text-davinci-002'', ''p50k_base'')];
          encoding_name = (case map_of encoding_map model of None \<Rightarrow> ''cl100k_base'' | Some n \<Rightarrow> n)
      in case tiktoken encoding_name text of
           Some tokens \<Rightarrow> int (length tokens)
         | None \<Rightarrow> int (length text) div 4)"

subsection \<open>\<open>extract_heading_metadata\<close>\<close>

text \<open>
  \<open>re.match(r'^(#{1,6})\s+(.+)$', line.strip())\<close>.  The line is stripped and, coming from
  a split at newlines, contains no newline.  On such a line the expression matches
  exactly when the line starts with one to six \<open>#\<close> (a seventh \<open>#\<close> cannot be matched by
  \<open>\\s\<close>), followed by at least one whitespace character, followed by at least one more
  character; the first group is the run of \<open>#\<close> and the second group is what follows the
  whitespace.  The result is the level and the second group.
\<close>

definition match_heading :: "string \<Rightarrow> (nat \<times> string) option" where
  "match_heading line =
     (let hashes = takeWhile (\<lambda>c. c = CHR ''#'') line;
          rest = dropWhile (\<lambda>c. c = CHR ''#'') line;
          spaces = takeWhile isspace rest;
          group2 = dropWhile isspace rest
      in if 1 \<le> length hashes \<and> length hashes \<le> 6 \<and> spaces \<noteq> [] \<and> group2 \<noteq> []
         then Some (length hashes, group2)
         else None)"

definition heading_key :: "int \<Rightarrow> string" where
  "heading_key level = ''heading_'' @ str_of_int level"

fun first_heading :: "string list \<Rightarrow> (nat \<times> string) option" where
  "first_heading [] = None"
| "first_heading (line # lines) =
     (case match_heading (strip line) of
        Some m \<Rightarrow> Some m
      | None \<Rightarrow> first_heading lines)"

definition extract_heading_metadata :: "string \<Rightarrow> metadata" where
  "extract_heading_metadata text =
     (let lines = split_on (CHR 0x0A) (strip text)
      in case first_heading (take 5 lines) of
           None \<Rightarrow> []
         | Some (level, group2) \<Rightarrow>
             [(heading_key (int level), JStr (strip group2)),
              (''heading_level'', JInt (int level))])"

subsection \<open>\<open>build_section_path\<close>\<close>

text \<open>\<open>sep.join(parts)\<close> raises \<open>TypeError\<close> when a part is not a string.\<close>

fun str_parts :: "json list \<Rightarrow> exn + string list" where
  "str_parts [] = Inr []"
| "str_parts (JStr s # vs) = (case str_parts vs of Inl e \<Rightarrow> Inl e | Inr ss \<Rightarrow> Inr (s # ss))"
| "str_parts (v # vs) = Inl TypeError"

definition py_join :: "string \<Rightarrow> json list \<Rightarrow> exn + string" where
  "py_join sep parts = (case str_parts parts of Inl e \<Rightarrow> Inl e | Inr ss \<Rightarrow> Inr (join sep ss))"

definition build_section_path :: "metadata \<Rightarrow> exn + string" where
  "build_section_path metadata =
     (let path_parts =
            concat (map (\<lambda>level. case map_of metadata (heading_key level) of
                                    None \<Rightarrow> []
                                  | Some v \<Rightarrow> if truthy v then [v] else [])
                      [1, 2, 3, 4, 5, 6])
      in if path_parts \<noteq> [] then py_join '' > '' path_parts else Inr [])"

subsection \<open>\<open>enrich_metadata\<close>\<close>

definition should_include_field :: "string list option \<Rightarrow> string \<Rightarrow> bool" where
  "should_include_field schema_field_names field_name =
     (case schema_field_names of
        None \<Rightarrow> True
      | Some names \<Rightarrow> field_name \<in> set names)"

text \<open>
  The lines \<open>section_path = build_section_path(metadata)\<close>,
  \<open>if section_path: metadata['section_path'] = section_path\<close>, which all three
  strategies end with.
\<close>

definition set_section_path :: "metadata \<Rightarrow> exn + metadata" where
  "set_section_path metadata =
     (case build_section_path metadata of
        Inl e \<Rightarrow> Inl e
      | Inr section_path \<Rightarrow>
          Inr (if section_path \<noteq> [] then AList.update ''section_path'' (JStr section_path) metadata
               else metadata))"

text \<open>
  The running heading context \<open>current_headings\<close>: a dict from level to heading.  One
  item of the extracted heading metadata updates it: a key \<open>heading_<n>\<close> other than
  \<open>heading_level\<close> sets level \<open>n\<close> and pops the levels \<open>n + 1\<close> to \<open>6\<close>; a suffix that
  \<open>int\<close> rejects is skipped.
\<close>

type_synonym headings = "(int \<times> json) list"

definition update_heading_context :: "headings \<Rightarrow> string \<times> json \<Rightarrow> exn + headings" where
  "update_heading_context current_headings item =
     (let key = fst item; value = snd item
      in if startswith key ''heading_'' \<and> key \<noteq> ''heading_level'' then
           (case split_on (CHR ''_'') key of
              a # b # rest \<Rightarrow>
                (case py_int b of
                   Some level \<Rightarrow>
                     Inr (fold AList.delete [level + 1..6] (AList.update level value current_headings))
                 | None \<Rightarrow> Inr current_headings)
            | _ \<Rightarrow> Inl IndexError)
         else Inr current_headings)"

fun update_heading_contexts :: "headings \<Rightarrow> metadata \<Rightarrow> exn + headings" where
  "update_heading_contexts current_headings [] = Inr current_headings"
| "update_heading_contexts current_headings (item # items) =
     (case update_heading_context current_headings item of
        Inl e \<Rightarrow> Inl e
      | Inr current_headings' \<Rightarrow> update_heading_contexts current_headings' items)"

text \<open>
  \<open>for level in sorted(current_headings.keys())\<close>: each tracked level is written into
  the metadata under \<open>heading_<level>\<close>, if the schema has that field.
\<close>

definition write_back_headings :: "string list option \<Rightarrow> headings \<Rightarrow> metadata \<Rightarrow> metadata" where
  "write_back_headings schema_field_names current_headings metadata =
     fold (\<lambda>level m.
             case map_of current_headings level of
               None \<Rightarrow> m
             | Some v \<Rightarrow>
                 if should_include_field schema_field_names (heading_key level)
                 then AList.update (heading_key level) v m else m)
       (sort (map fst current_headings)) metadata"

definition enriched :: "string \<Rightarrow> metadata \<Rightarrow> chunk" where
  "enriched text metadata = \<lparr>chunk_text = Some text, chunk_metadata = Some metadata\<rparr>"

text \<open>The body of the loop: one chunk at index \<open>idx\<close>, with the heading context so far.\<close>

definition enrich_chunk ::
  "(string \<Rightarrow> string \<Rightarrow> nat list option) \<Rightarrow> string \<Rightarrow> string list option \<Rightarrow> nat \<Rightarrow> headings \<Rightarrow> nat
     \<Rightarrow> chunk \<Rightarrow> exn + chunk \<times> headings" where
  "enrich_chunk tiktoken strategy schema_field_names n_chunks current_headings idx chunk =
     (let text = get_text chunk;
          metadata = get_metadata chunk;
          metadata =
            (if \<not> contains_key metadata ''token_count''
                \<and> should_include_field schema_field_names ''token_count''
             then AList.update ''token_count'' (JInt (calculate_token_count tiktoken text ''gpt-4'')) metadata
             else metadata);
          metadata =
            (if should_include_field schema_field_names ''position_in_document''
             then AList.update ''position_in_document'' (JInt (int idx)) metadata else metadata);
          metadata =
            (if should_include_field schema_field_names ''total_chunks''
             then AList.update ''total_chunks'' (JInt (int n_chunks)) metadata else metadata)
      in if strategy = ''by_heading'' then
           (if \<not> contains_key metadata ''section_path''
               \<and> should_include_field schema_field_names ''section_path''
            then (case set_section_path metadata of
                    Inl e \<Rightarrow> Inl e
                  | Inr metadata \<Rightarrow> Inr (enriched text metadata, current_headings))
            else Inr (enriched text metadata, current_headings))
         else if strategy = ''hierarchical'' then
           (if \<not> contains_key metadata ''heading_level'' then
              (let heading_meta = extract_heading_metadata text;
                   filtered_meta = filter (\<lambda>kv. should_include_field schema_field_names (fst kv)) heading_meta;
                   metadata = dict_update metadata filtered_meta
               in if heading_meta \<noteq> [] \<and> should_include_field schema_field_names ''section_path''
                  then (case set_section_path metadata of
                          Inl e \<Rightarrow> Inl e
                        | Inr metadata \<Rightarrow> Inr (enriched text metadata, current_headings))
                  else Inr (enriched text metadata, current_headings))
            else Inr (enriched text metadata, current_headings))
         else
           (let heading_meta = extract_heading_metadata text
            in case (if heading_meta \<noteq> [] then
                       (case update_heading_contexts current_headings heading_meta of
                          Inl e \<Rightarrow> Inl e
                        | Inr current_headings \<Rightarrow>
                            Inr (current_headings,
                                 dict_update metadata
                                   (filter (\<lambda>kv. should_include_field schema_field_names (fst kv))
                                      heading_meta)))
                     else Inr (current_headings, metadata)) of
                 Inl e \<Rightarrow> Inl e
               | Inr (current_headings, metadata) \<Rightarrow>
                   if current_headings \<noteq> [] then
                     (let metadata = write_back_headings schema_field_names current_headings metadata
                      in if should_include_field schema_field_names ''section_path''
                         then (case set_section_path metadata of
                                 Inl e \<Rightarrow> Inl e
                               | Inr metadata \<Rightarrow> Inr (enriched text metadata, current_headings))
                         else Inr (enriched text metadata, current_headings))
                   else Inr (enriched text metadata, current_headings)))"

fun enrich_loop ::
  "(string \<Rightarrow> string \<Rightarrow> nat list option) \<Rightarrow> string \<Rightarrow> string list option \<Rightarrow> nat \<Rightarrow> headings \<Rightarrow> nat
     \<Rightarrow> chunk list \<Rightarrow> exn + chunk list" where
  "enrich_loop tiktoken strategy schema_field_names n_chunks current_headings idx [] = Inr []"
| "enrich_loop tiktoken strategy schema_field_names n_chunks current_headings idx (chunk # chunks) =
     (case enrich_chunk tiktoken strategy schema_field_names n_chunks current_headings idx chunk of
        Inl e \<Rightarrow> Inl e
      | Inr (c, current_headings') \<Rightarrow>
          (case enrich_loop tiktoken strategy schema_field_names n_chunks current_headings' (Suc idx) chunks of
             Inl e \<Rightarrow> Inl e
           | Inr cs \<Rightarrow> Inr (c # cs)))"

definition enrich_metadata ::
  "(string \<Rightarrow> string \<Rightarrow> nat list option) \<Rightarrow> chunk list \<Rightarrow> string \<Rightarrow> string \<Rightarrow> string list option
     \<Rightarrow> exn + chunk list" where
  "enrich_metadata tiktoken chunks strategy original_text schema_field_names =
     enrich_loop tiktoken strategy schema_field_names (length chunks) [] 0 chunks"

subsection \<open>The three chunks of the heading example\<close>

text \<open>
  The texts \<open>"# A\n..."\<close>, \<open>"body, no heading"\<close> and \<open>"## B\n..."\<close>, each with an empty
  metadata dict, and a tokenizer whose encodings cannot be loaded, so that every count
  is the four-characters estimate.
\<close>

definition heading_example :: "chunk list" where
  "heading_example =
     [\<lparr>chunk_text = Some (''# A'' @ [CHR 0x0A] @ ''...''), chunk_metadata = Some []\<rparr>,
      \<lparr>chunk_text = Some ''body, no heading'', chunk_metadata = Some []\<rparr>,
      \<lparr>chunk_text = Some (''## B'' @ [CHR 0x0A] @ ''...''), chunk_metadata = Some []\<rparr>]"

definition no_tiktoken :: "string \<Rightarrow> string \<Rightarrow> nat list option" where
  "no_tiktoken encoding_name text = None"

subsection \<open>Notions used to state the heading breadcrumb\<close>

text \<open>
  A heading context as the loop builds it: levels between 1 and 6, each with a
  non-empty heading text.  A metadata dict without heading fields of its own.  The
  breadcrumb of a context: its heading texts in the order of their levels, joined with
  \<open>" > "\<close>.
\<close>

definition heading_context_ok :: "headings \<Rightarrow> bool" where
  "heading_context_ok current_headings =
     list_all (\<lambda>lv. 1 \<le> fst lv \<and> fst lv \<le> 6 \<and> (case snd lv of JStr t \<Rightarrow> t \<noteq> [] | _ \<Rightarrow> False))
       current_headings"

definition no_heading_fields :: "metadata \<Rightarrow> bool" where
  "no_heading_fields metadata = list_all (\<lambda>level. map_of metadata (heading_key level) = None) [1, 2, 3, 4, 5, 6]"

definition context_path :: "headings \<Rightarrow> string" where
  "context_path current_headings =
     join '' > ''
       (concat (map (\<lambda>level. case map_of current_headings level of Some (JStr t) \<Rightarrow> [t] | _ \<Rightarrow> [])
          [1, 2, 3, 4, 5, 6]))"

section \<open>The LlamaParse adapter (\<open>llama_parser.py\<close>)\<close>

subsection \<open>\<open>ParseConfig\<close>\<close>

text \<open>
  The fields of the pydantic model with their defaults, in the order of declaration;
  \<open>DEFAULT_PARSE_CONFIG = ParseConfig().model_dump()\<close> is this dict.
\<close>

definition DEFAULT_PARSE_CONFIG :: "(string \<times> json) list" where
  "DEFAULT_PARSE_CONFIG =
     [(''language'', JStr ''en''),
      (''disable_ocr'', JBool False),
      (''skip_diagonal_text'', JBool False),
      (''target_pages'', JNull),
      (''page_separator'', JStr ([CHR 0x0A] @ ''---'' @ [CHR 0x0A])),
      (''output_tables_as_HTML'', JBool False),
      (''preserve_layout_alignment_across_pages'', JBool False),
      (''hide_headers'', JBool False),
      (''hide_footers'', JBool False)]"

text \<open>
  \<open>ParseConfig(**config).model_dump()\<close>, or \<open>None\<close> when the constructor raises.  The
  model forbids extra keys (\<open>extra = "forbid"\<close>), so a key that is not a field is
  rejected.  A field that is given is checked against its annotated type by pydantic:
  that check, which returns the value to store or rejects it, is the parameter
  \<open>validate_field\<close>.  A field that is not given takes its default.
\<close>

definition ParseConfig ::
  "(string \<Rightarrow> json \<Rightarrow> json option) \<Rightarrow> (string \<times> json) list \<Rightarrow> (string \<times> json) list option" where
  "ParseConfig validate_field config =
     (if list_ex (\<lambda>kv. fst kv \<notin> set (map fst DEFAULT_PARSE_CONFIG)) config then None
      else those (map (\<lambda>field.
                         case map_of config (fst field) of
                           None \<Rightarrow> Some field
                         | Some v \<Rightarrow> map_option (Pair (fst field)) (validate_field (fst field) v))
                    DEFAULT_PARSE_CONFIG))"

subsection \<open>\<open>parse_pdf\<close>\<close>

text \<open>
  The collaborators of \<open>parse_pdf\<close>: PyPDF2's page count of a file's contents (or it
  raises: \<open>None\<close>), pydantic's check of a field, and the remote engine, which is given
  the API key, the validated configuration and the file's contents and returns the
  texts of the documents or raises.
\<close>

record pdf_tools =
  pdf_page_count :: "string \<Rightarrow> nat option"
  validate_field :: "string \<Rightarrow> json \<Rightarrow> json option"
  load_data :: "string \<Rightarrow> (string \<times> json) list \<Rightarrow> string \<Rightarrow> exn + string list"

text \<open>A \<open>NamedTuple\<close> does not check its fields: \<open>markdown\<close> is whatever the cache returned.\<close>

record ParseResult =
  markdown :: json
  page_count :: nat

definition get_pdf_page_count :: "pdf_tools \<Rightarrow> string \<Rightarrow> world \<Rightarrow> nat \<times> world" where
  "get_pdf_page_count tools file_path w =
     (case files w file_path of
        None \<Rightarrow> (0, print ''Warning: Could not extract page count: '' w)
      | Some f \<Rightarrow>
          (case pdf_page_count tools (content f) of
             None \<Rightarrow> (0, print ''Warning: Could not extract page count: '' w)
           | Some n \<Rightarrow> (n, w)))"

definition hash_file :: "('e, 'x) pylib_scheme \<Rightarrow> string \<Rightarrow> world \<Rightarrow> exn + string" where
  "hash_file lib file_path w =
     (case files w file_path of
        None \<Rightarrow> Inl OSError
      | Some f \<Rightarrow> Inr (sha256_hexdigest lib (content f)))"

text \<open>
  \<open>parse_pdf\<close> from the line \<open>parse_config = ParseConfig(**config)\<close> on, that is, once
  \<open>config\<close> is the dict the call works with: the cache lookup, and on a miss the remote
  parse and the write to the cache.
\<close>

definition parse_pdf_with ::
  "('e, 'x) pylib_scheme \<Rightarrow> pdf_tools \<Rightarrow> cache \<Rightarrow> string \<Rightarrow> string \<Rightarrow> nat \<Rightarrow> (string \<times> json) list
     \<Rightarrow> world \<Rightarrow> (exn + ParseResult) \<times> world" where
  "parse_pdf_with lib tools parse_cache api_key file_path n_pages config w =
     (case ParseConfig (validate_field tools) config of
        None \<Rightarrow> (Inl ValidationError, w)
      | Some parse_config \<Rightarrow>
          (case hash_file lib file_path w of
             Inl e \<Rightarrow> (Inl e, w)
           | Inr file_hash \<Rightarrow>
               (case ParseResultCache_get lib parse_cache file_hash config ''llamaparse'' w of
                  (Some cached_result, w) \<Rightarrow>
                    (Inr \<lparr>markdown = cached_result, page_count = n_pages\<rparr>,
                     print (''Cache hit for '' @ file_path @ '' (LlamaParse)'') w)
                | (None, w) \<Rightarrow>
                    (case files w file_path of
                       None \<Rightarrow> (Inl OSError, w)
                     | Some f \<Rightarrow>
                         (case load_data tools api_key parse_config (content f) of
                            Inl e \<Rightarrow> (Inl e, w)
                          | Inr documents \<Rightarrow>
                              (let text = join ([CHR 0x0A, CHR 0x0A]) documents;
                                   w = ParseResultCache_set lib parse_cache file_hash config text
                                         ''llamaparse'' w
                               in (Inr \<lparr>markdown = JStr text, page_count = n_pages\<rparr>,
                                   print ''Successfully parsed with LlamaParse'' w)))))))"

text \<open>
  \<open>parse_pdf(file_path, config)\<close>.  \<open>api_key\<close> is the environment variable
  \<open>LLAMA_CLOUD_API_KEY\<close>, \<open>parse_cache\<close> the process-wide parse cache.
\<close>

definition parse_pdf ::
  "('e, 'x) pylib_scheme \<Rightarrow> pdf_tools \<Rightarrow> cache \<Rightarrow> string option \<Rightarrow> string
     \<Rightarrow> (string \<times> json) list option \<Rightarrow> world \<Rightarrow> (exn + ParseResult) \<times> world" where
  "parse_pdf lib tools parse_cache api_key file_path config w =
     (case get_pdf_page_count tools file_path w of
        (n_pages, w) \<Rightarrow>
          (case api_key of
             None \<Rightarrow> (Inl ValueError, w)
           | Some key \<Rightarrow>
               if key = [] then (Inl ValueError, w)
               else
                 (case config of
                    None \<Rightarrow>
                      parse_pdf_with lib tools parse_cache key file_path n_pages DEFAULT_PARSE_CONFIG w
                  | Some given \<Rightarrow>
                      (case ParseConfig (validate_field tools) given of
                         Some dumped \<Rightarrow>
                           parse_pdf_with lib tools parse_cache key file_path n_pages dumped w
                       | None \<Rightarrow>
                           parse_pdf_with lib tools parse_cache key file_path n_pages DEFAULT_PARSE_CONFIG
                             (print ''Invalid config, using defaults: '' w)))))"

text \<open>
  Tools to run \<open>parse_pdf\<close> on: a page counter that counts form feeds, a field check,
  and an engine that returns the contents as one document.  The field check is stricter
  than pydantic's: it accepts only a value that already has the annotated type, while
  pydantic also coerces some others (\<open>1\<close> or \<open>"yes"\<close> for a \<open>bool\<close> field).  The examples
  give it only values that both accept (the defaults) or both reject (an unknown key,
  the integer \<open>3\<close> for a \<open>bool\<close> field).
\<close>

definition toy_tools :: pdf_tools where
  "toy_tools = \<lparr>
     pdf_page_count = (\<lambda>bytes. Some (length (filter (\<lambda>c. c = CHR 0x0C) bytes) + 1)),
     validate_field = (\<lambda>name v.
        if name \<in> set [''language'', ''page_separator''] then (case v of JStr s \<Rightarrow> Some v | _ \<Rightarrow> None)
        else if name = ''target_pages'' then (case v of JStr s \<Rightarrow> Some v | JNull \<Rightarrow> Some v | _ \<Rightarrow> None)
        else (case v of JBool b \<Rightarrow> Some v | _ \<Rightarrow> None)),
     load_data = (\<lambda>key parse_config bytes. Inr [bytes]) \<rparr>"

text \<open>Two worlds that differ at most in what has been printed.\<close>

definition same_disk :: "world \<Rightarrow> world \<Rightarrow> bool" where
  "same_disk w w' = (files w = files w' \<and> clock w = clock w' \<and> open_fails w = open_fails w')"

definition toy_pdf_world :: world where
  "toy_pdf_world = toy_world\<lparr>files := [''/tmp/upload.pdf'' \<mapsto> \<lparr>content = ''%PDF page one'', mtime = 999\<rparr>]\<rparr>"

text \<open>
  A library whose JSON reader knows the entry that parsing this file under the default
  configuration stores, and the world after that parse: the entry is on disk and two
  lines have been printed.
\<close>

definition toy_pdf_lib :: "string pylib" where
  "toy_pdf_lib = toy_lib\<lparr>json_loads := (\<lambda>s.
     if s = dumps (\<lambda>x. ''1000.0'') False
              (cache_data ''%PDF page one'' DEFAULT_PARSE_CONFIG ''%PDF page one'' ''llamaparse'' 1000)
     then Some (cache_data ''%PDF page one'' DEFAULT_PARSE_CONFIG ''%PDF page one'' ''llamaparse'' 1000)
     else None)\<rparr>"

definition toy_parsed_world :: world where
  "toy_parsed_world = toy_pdf_world
     \<lparr>files := (files toy_pdf_world)
        (parse_file toy_pdf_lib (toy_cache 60) ''%PDF page one'' DEFAULT_PARSE_CONFIG ''llamaparse'' \<mapsto>
           \<lparr>content = dumps (\<lambda>x. ''1000.0'') False
              (cache_data ''%PDF page one'' DEFAULT_PARSE_CONFIG ''%PDF page one'' ''llamaparse'' 1000),
            mtime = 1000\<rparr>),
      stdout := [''Invalid config, using defaults: '', ''Successfully parsed with LlamaParse'']\<rparr>"

section \<open>Text statistics (\<open>metadata.py\<close>)\<close>

subsection \<open>More string operations\<close>

text \<open>
  \<open>text.split()\<close>: the maximal runs of characters that are not whitespace.
\<close>

function py_split :: "string \<Rightarrow> string list" where
  "py_split s =
     (case dropWhile isspace s of
        [] \<Rightarrow> []
      | c # cs \<Rightarrow>
          takeWhile (\<lambda>x. \<not> isspace x) (c # cs) # py_split (dropWhile (\<lambda>x. \<not> isspace x) (c # cs)))"
  by pat_completeness auto
termination
proof (relation "measure length")
  show "wf (measure length)"
    by simp
next
  fix s :: string and c :: char and cs :: string
  assume d: "dropWhile isspace s = c # cs"
  then have "\<not> isspace c"
    using hd_dropWhile [of isspace s] by simp
  then have "length (dropWhile (\<lambda>x. \<not> isspace x) (c # cs)) \<le> length cs"
    by (simp add: length_dropWhile_le)
  also have "length cs < length (dropWhile isspace s)"
    using d by simp
  also have "\<dots> \<le> length s"
    by (rule length_dropWhile_le)
  finally show "(dropWhile (\<lambda>x. \<not> isspace x) (c # cs), s) \<in> measure length"
    by simp
qed

declare py_split.simps [simp del]

text \<open>
  \<open>re.split(r'[.!?]+', text)\<close>, for a class \<open>P\<close> of separator characters: the text is cut
  at every maximal run of separators; the pieces before the first and after the last
  run are there even when they are empty.
\<close>

function re_split :: "(char \<Rightarrow> bool) \<Rightarrow> string \<Rightarrow> string list" where
  "re_split P [] = [[]]"
| "re_split P (c # cs) =
     (if P c then [] # re_split P (dropWhile P cs)
      else (case re_split P cs of
              [] \<Rightarrow> [[c]]
            | x # xs \<Rightarrow> (c # x) # xs))"
  by pat_completeness auto
termination
proof (relation "measure (\<lambda>(P, s). length s)")
  show "wf (measure (\<lambda>(P, s). length s))"
    by simp
next
  fix P :: "char \<Rightarrow> bool" and c :: char and cs :: string
  have "length (dropWhile P cs) \<le> length cs"
    by (rule length_dropWhile_le)
  then show "((P, dropWhile P cs), (P, c # cs)) \<in> measure (\<lambda>(P, s). length s)"
    by simp
  show "((P, cs), (P, c # cs)) \<in> measure (\<lambda>(P, s). length s)"
    by simp
qed

text \<open>
  \<open>str.lower()\<close> on the code points below 256: the letters \<open>A\<close> to \<open>Z\<close> and the
  accented capitals \<open>0xC0\<close> to \<open>0xDE\<close>, the multiplication sign \<open>0xD7\<close> excepted,
  move up by 32.
\<close>

definition lower_char :: "char \<Rightarrow> char" where
  "lower_char c =
     (let n = (of_char c :: nat)
      in if (65 \<le> n \<and> n \<le> 90) \<or> (192 \<le> n \<and> n \<le> 222 \<and> n \<noteq> 215) then char_of (n + 32) else c)"

definition lower :: "string \<Rightarrow> string" where
  "lower s = map lower_char s"

text \<open>
  The class \<open>\\w\<close> of the regular expressions on the code points below 256: what
  \<open>str.isalnum\<close> accepts, and the underscore.
\<close>

definition isword :: "char \<Rightarrow> bool" where
  "isword c =
     (let n = (of_char c :: nat)
      in (48 \<le> n \<and> n \<le> 57) \<or> (65 \<le> n \<and> n \<le> 90) \<or> (97 \<le> n \<and> n \<le> 122) \<or> n = 95
         \<or> n \<in> {170, 178, 179, 181, 185, 186, 188, 189, 190}
         \<or> (192 \<le> n \<and> n \<le> 214) \<or> (216 \<le> n \<and> n \<le> 246) \<or> (248 \<le> n \<and> n \<le> 255))"

subsection \<open>\<open>extract_code_blocks\<close>\<close>

text \<open>
  The first occurrence of the fence \<open>```\<close> in a text: what precedes it and what follows
  it.
\<close>

fun find_fence :: "string \<Rightarrow> (string \<times> string) option" where
  "find_fence [] = None"
| "find_fence (c # cs) =
     (if take 3 (c # cs) = ''```'' then Some ([], drop 3 (c # cs))
      else map_option (\<lambda>ab. (c # fst ab, snd ab)) (find_fence cs))"

text \<open>
  \<open>re.findall(r'```(\w+)?\n(.*?)```', text, re.DOTALL)\<close> and the loop over the matches.
  At a position the expression matches when the text there is a fence, then a run of
  word characters (all of them: a shorter run would have to be followed by a newline
  and is followed by a word character), then a newline, then anything up to the next
  fence.  The scan goes on after the closing fence of a match, and one character
  further where there is none.  A block without a language gets \<open>text\<close>; the code is
  stripped.
\<close>

function extract_code_blocks :: "string \<Rightarrow> (string \<times> string) list" where
  "extract_code_blocks [] = []"
| "extract_code_blocks (c # cs) =
     (if take 3 (c # cs) = ''```'' then
        (let after = drop 3 (c # cs);
             language = takeWhile isword after;
             rest = dropWhile isword after
         in case rest of
              [] \<Rightarrow> extract_code_blocks cs
            | n # body \<Rightarrow>
                if n = CHR 0x0A then
                  (case find_fence body of
                     None \<Rightarrow> extract_code_blocks cs
                   | Some (code, remainder) \<Rightarrow>
                       ((if language \<noteq> [] then language else ''text''), strip code)
                         # extract_code_blocks remainder)
                else extract_code_blocks cs)
      else extract_code_blocks cs)"
  by pat_completeness auto
termination
proof (relation "measure length")
  show "wf (measure length)"
    by simp
next
  fix c :: char and cs after language rest :: string and n :: char and body :: string
    and x :: "string \<times> string" and code remainder :: string
  assume fence: "take 3 (c # cs) = ''```''" and after: "after = drop 3 (c # cs)"
    and rest: "rest = dropWhile isword after" "rest = n # body"
    and found: "find_fence body = Some x" "(code, remainder) = x"
  have shorter: "find_fence s = Some (a, b) \<Longrightarrow> length b < length s" for s a b
  proof (induction s arbitrary: a)
    case Nil
    then show ?case by simp
  next
    case (Cons d ds)
    show ?case
    proof (cases "take 3 (d # ds) = ''```''")
      case True
      with Cons.prems show ?thesis by auto
    next
      case False
      with Cons.prems obtain a' where "find_fence ds = Some (a', b)"
        by auto
      then show ?thesis
        using Cons.IH by fastforce
    qed
  qed
  have "length remainder < length body"
    using found shorter [of body code remainder] by simp
  also have "length body < length rest"
    using rest(2) by simp
  also have "length rest \<le> length after"
    unfolding rest(1) by (rule length_dropWhile_le)
  also have "length after \<le> length (c # cs)"
    unfolding after by simp
  finally show "(remainder, c # cs) \<in> measure length"
    by simp
qed simp_all

subsection \<open>Python floats\<close>

text \<open>
  A Python float is an IEEE 754 binary64 number and is modelled by the real number it
  denotes.  Every operation on floats returns the exact result rounded to the nearest
  number with a significand of 53 bits, a tie going to the even significand.  \<open>fl64 x\<close>
  is that number: \<open>ulp_exponent x\<close> is the exponent \<open>e\<close> that puts \<open>x / 2 ^ e\<close> between
  \<open>2 ^ 52\<close> (included) and \<open>2 ^ 53\<close>, the numbers with 53 bits around \<open>x\<close> are the
  multiples of \<open>2 ^ e\<close>, and \<open>round_half_even\<close> picks the multiple.  The exponent is not
  bounded here.  binary64 holds every such number of magnitude between \<open>2 ^ -1022\<close> and
  \<open>2 ^ 1024\<close>; the numbers that the score computes on a text of fewer than \<open>2 ^ 63\<close>
  characters are 0 or lie between \<open>2 ^ -80\<close> and \<open>2 ^ 64\<close>.
\<close>

definition round_half_even :: "real \<Rightarrow> int" where
  "round_half_even y =
     (let f = \<lfloor>y\<rfloor>;
          d = y - of_int f
      in if d < 1 / 2 then f
         else if 1 / 2 < d then f + 1
         else if even f then f else f + 1)"

function ulp_exponent :: "real \<Rightarrow> int" where
  "ulp_exponent x =
     (if x \<le> 0 then 0
      else if x < 2 ^ 52 then ulp_exponent (2 * x) - 1
      else if 2 ^ 53 \<le> x then ulp_exponent (x / 2) + 1
      else 0)"
  by pat_completeness auto

termination
proof (relation "measure (\<lambda>x. if x < 2 ^ 52 then nat \<lceil>52 - log 2 x\<rceil> else nat \<lfloor>log 2 x - 52\<rfloor>)")
  show "wf (measure (\<lambda>x::real. if x < 2 ^ 52 then nat \<lceil>52 - log 2 x\<rceil> else nat \<lfloor>log 2 x - 52\<rfloor>))"
    by simp
next
  fix x :: real
  assume x: "\<not> x \<le> 0" "x < 2 ^ 52"
  have l: "log 2 x < 52"
    using x by (simp add: log_less_iff)
  have d: "log 2 (2 * x) = 1 + log 2 x"
    using x by (simp add: log_mult)
  show "(2 * x, x) \<in> measure (\<lambda>x. if x < 2 ^ 52 then nat \<lceil>52 - log 2 x\<rceil> else nat \<lfloor>log 2 x - 52\<rfloor>)"
  proof (cases "2 * x < 2 ^ 52")
    case True
    have "\<lceil>52 - log 2 (2 * x)\<rceil> = \<lceil>52 - log 2 x\<rceil> - 1"
      unfolding d by (simp add: algebra_simps) linarith
    moreover have "0 < \<lceil>52 - log 2 x\<rceil>"
      using l by simp
    ultimately show ?thesis
      using x True by simp
  next
    case False
    have "log 2 (2 * x) < 53"
      unfolding d using l by simp
    moreover have "52 \<le> log 2 (2 * x)"
      using False x by (simp add: le_log_iff)
    ultimately have "\<lfloor>log 2 (2 * x) - 52\<rfloor> = 0"
      by linarith
    moreover have "0 < \<lceil>52 - log 2 x\<rceil>"
      using l by simp
    ultimately show ?thesis
      using x False by simp
  qed
next
  fix x :: real
  assume x: "\<not> x \<le> 0" "\<not> x < 2 ^ 52" "2 ^ 53 \<le> x"
  have l: "53 \<le> log 2 x"
    using x by (simp add: le_log_iff)
  have d: "log 2 (x / 2) = log 2 x - 1"
    using x by (simp add: log_divide)
  have "\<not> x / 2 < 2 ^ 52"
    using x by simp
  moreover have "\<lfloor>log 2 (x / 2) - 52\<rfloor> = \<lfloor>log 2 x - 52\<rfloor> - 1"
    unfolding d by linarith
  moreover have "0 < \<lfloor>log 2 x - 52\<rfloor>"
    using l by linarith
  ultimately show "(x / 2, x) \<in> measure (\<lambda>x. if x < 2 ^ 52 then nat \<lceil>52 - log 2 x\<rceil> else nat \<lfloor>log 2 x - 52\<rfloor>)"
    using x by simp
qed

declare ulp_exponent.simps [simp del]

definition fl64 :: "real \<Rightarrow> real" where
  "fl64 x =
     (let e = ulp_exponent \<bar>x\<bar>
      in of_int (round_half_even (x / power_int 2 e)) * power_int 2 e)"

text \<open>
  The operations that the score uses.  An \<open>int\<close> (or \<open>bool\<close>) that meets a float is
  converted to a float first; \<open>a / b\<close> on two \<open>int\<close>s is the correctly rounded quotient;
  a literal such as \<open>0.3\<close> is \<open>fl64 (3 / 10)\<close>.  \<open>round(x, 2)\<close> takes the decimal
  expansion of the float \<open>x\<close> correctly rounded to two places (a tie, where \<open>x\<close> is the
  exact midpoint, to the even digit) and returns the float nearest to that decimal.
\<close>

definition float_of_int :: "int \<Rightarrow> real" where
  "float_of_int n = fl64 (of_int n)"

definition int_truediv :: "nat \<Rightarrow> nat \<Rightarrow> real" where
  "int_truediv a b = fl64 (real a / real b)"

definition float_truediv :: "real \<Rightarrow> real \<Rightarrow> real" where
  "float_truediv x y = fl64 (x / y)"

definition float_mul :: "real \<Rightarrow> real \<Rightarrow> real" where
  "float_mul x y = fl64 (x * y)"

definition float_add :: "real \<Rightarrow> real \<Rightarrow> real" where
  "float_add x y = fl64 (x + y)"

definition py_round2 :: "real \<Rightarrow> real" where
  "py_round2 x = fl64 (of_int (round_half_even (x * 100)) / 100)"

subsection \<open>\<open>calculate_complexity_score\<close>\<close>

text \<open>
  \<open>re.search(r'[$].*?[$]', text)\<close> finds two dollar signs with no newline between them:
  a line with at least two.  \<open>re.search(r'\[.*?\]\(.*?\)', text)\<close> finds, within one
  line, an opening bracket, later the two characters \<open>](\<close>, and later a closing
  parenthesis; if there is such a triple, there is one with the first bracket of the
  line and the first \<open>](\<close> after it.
\<close>

definition has_math :: "string \<Rightarrow> bool" where
  "has_math text =
     list_ex (\<lambda>line. 2 \<le> length (filter (\<lambda>c. c = CHR ''$'') line)) (split_on (CHR 0x0A) text)"

fun after_bracket_paren :: "string \<Rightarrow> string option" where
  "after_bracket_paren [] = None"
| "after_bracket_paren [c] = None"
| "after_bracket_paren (c # d # cs) =
     (if c = CHR '']'' \<and> d = CHR ''('' then Some cs else after_bracket_paren (d # cs))"

definition line_has_link :: "string \<Rightarrow> bool" where
  "line_has_link line =
     (case dropWhile (\<lambda>c. c \<noteq> CHR ''['') line of
        [] \<Rightarrow> False
      | b # r \<Rightarrow>
          (case after_bracket_paren r of
             None \<Rightarrow> False
           | Some r' \<Rightarrow> CHR '')'' \<in> set r'))"

definition has_links :: "string \<Rightarrow> bool" where
  "has_links text = list_ex line_has_link (split_on (CHR 0x0A) text)"

definition sentence_count :: "string \<Rightarrow> nat" where
  "sentence_count text =
     (let sentences = re_split (\<lambda>c. c \<in> set ''.!?'') text
      in length (filter (\<lambda>s. strip s \<noteq> []) sentences))"

text \<open>
  The three parts of the score.  The function computes them after it has checked that
  the text has a sentence and a word, so neither division raises.
\<close>

definition length_score :: "string \<Rightarrow> real" where
  "length_score text =
     (let avg_sentence_length = int_truediv (length (py_split text)) (sentence_count text)
      in min (float_truediv avg_sentence_length (float_of_int 30)) 1)"

definition diversity_score :: "string \<Rightarrow> real" where
  "diversity_score text =
     (let words = py_split text;
          unique_words = length (remdups (map lower words))
      in int_truediv unique_words (length words))"

definition technical_score :: "string \<Rightarrow> real" where
  "technical_score text =
     (let code_blocks = length (extract_code_blocks text)
      in min (float_add
                (float_add (float_mul (float_of_int (int code_blocks)) (fl64 (2 / 10)))
                   (float_mul (float_of_int (if has_math text then 1 else 0)) (fl64 (3 / 10))))
                (float_mul (float_of_int (if has_links text then 1 else 0)) (fl64 (1 / 10))))
             (fl64 (5 / 10)))"

definition calculate_complexity_score :: "string \<Rightarrow> real" where
  "calculate_complexity_score text =
     (if text = [] then 0
      else if sentence_count text = 0 then 0
      else if length (py_split text) = 0 then 0
      else
        (let complexity =
               float_add
                 (float_add (float_mul (length_score text) (fl64 (3 / 10)))
                    (float_mul (diversity_score text) (fl64 (4 / 10))))
                 (float_mul (technical_score text) (fl64 (3 / 10)))
         in py_round2 complexity))"

section \<open>Properties of the disk caches\<close>

subsection \<open>What the file-system operations do\<close>

lemma write_file_sel:
  "files (write_file p bytes w) = (files w)(p \<mapsto> \<lparr>content = bytes, mtime = clock w\<rparr>)"
  "clock (write_file p bytes w) = clock w"
  "stdout (write_file p bytes w) = stdout w"
  "open_fails (write_file p bytes w) = open_fails w"
  by (simp_all add: write_file_def)

lemma advance_sel:
  "files (advance d w) = files w"
  "clock (advance d w) = clock w + d"
  "stdout (advance d w) = stdout w"
  "open_fails (advance d w) = open_fails w"
  by (simp_all add: advance_def)

lemma print_sel:
  "files (print msg w) = files w"
  "clock (print msg w) = clock w"
  "stdout (print msg w) = stdout w @ [msg]"
  "open_fails (print msg w) = open_fails w"
  by (simp_all add: print_def)

lemma unlink_sel:
  "files (unlink p w) = (files w)(p := None)"
  "clock (unlink p w) = clock w"
  "stdout (unlink p w) = stdout w"
  "open_fails (unlink p w) = open_fails w"
  by (simp_all add: unlink_def)

subsection \<open>One lookup, by the state of the entry file\<close>

lemma EmbeddingCache_get_absent:
  "files w (embedding_file lib c text model) = None
   \<Longrightarrow> EmbeddingCache_get lib c text model w = (None, w)"
  by (simp add: EmbeddingCache_get_def)

lemma EmbeddingCache_get_expired:
  "files w (embedding_file lib c text model) = Some f
   \<Longrightarrow> real_of_int (ttl c) < clock w - mtime f
   \<Longrightarrow> EmbeddingCache_get lib c text model w =
       (None, unlink (embedding_file lib c text model) w)"
  by (simp add: EmbeddingCache_get_def)

lemma EmbeddingCache_get_live:
  "files w (embedding_file lib c text model) = Some f
   \<Longrightarrow> clock w - mtime f \<le> real_of_int (ttl c)
   \<Longrightarrow> EmbeddingCache_get lib c text model w =
       (case pickle_loads lib (content f) of
          Some v \<Rightarrow> (Some v, w)
        | None \<Rightarrow> (None, print ''Error loading cache: '' w))"
  by (simp add: EmbeddingCache_get_def)

lemma EmbeddingCache_set_written:
  "\<not> open_fails w (embedding_file lib c text model)
   \<Longrightarrow> pickle_dumps lib e = Some bytes
   \<Longrightarrow> EmbeddingCache_set lib c text model e w =
       write_file (embedding_file lib c text model) bytes w"
  by (simp add: EmbeddingCache_set_def)

lemma ChunkResultCache_get_expired:
  "files w (chunk_file lib c text strategy config) = Some f
   \<Longrightarrow> real_of_int (ttl c) < clock w - mtime f
   \<Longrightarrow> ChunkResultCache_get lib c text strategy config w =
       (None, unlink (chunk_file lib c text strategy config) w)"
  by (simp add: ChunkResultCache_get_def)

lemma ChunkResultCache_get_live:
  "files w (chunk_file lib c text strategy config) = Some f
   \<Longrightarrow> clock w - mtime f \<le> real_of_int (ttl c)
   \<Longrightarrow> ChunkResultCache_get lib c text strategy config w =
       (case json_loads lib (content f) of
          Some JNull \<Rightarrow> (None, w)
        | Some v \<Rightarrow> (Some v, w)
        | None \<Rightarrow> (None, print ''Error loading chunk cache: '' w))"
  by (simp add: ChunkResultCache_get_def)

lemma ChunkResultCache_set_written:
  "\<not> open_fails w (chunk_file lib c text strategy config)
   \<Longrightarrow> ChunkResultCache_set lib c text strategy config chunks w =
       write_file (chunk_file lib c text strategy config)
         (dumps (float_repr lib) False (JList chunks)) w"
  by (simp add: ChunkResultCache_set_def)

lemma ParseResultCache_get_expired:
  "files w (parse_file lib c file_hash config parser_method) = Some f
   \<Longrightarrow> real_of_int (ttl c) < clock w - mtime f
   \<Longrightarrow> ParseResultCache_get lib c file_hash config parser_method w =
       (None, unlink (parse_file lib c file_hash config parser_method) w)"
  by (simp add: ParseResultCache_get_def)

lemma ParseResultCache_get_live:
  "files w (parse_file lib c file_hash config parser_method) = Some f
   \<Longrightarrow> clock w - mtime f \<le> real_of_int (ttl c)
   \<Longrightarrow> ParseResultCache_get lib c file_hash config parser_method w =
       (case json_loads lib (content f) of
          Some (JObj data) \<Rightarrow>
            (case map_of data ''markdown'' of
               None \<Rightarrow> (None, w)
             | Some JNull \<Rightarrow> (None, w)
             | Some v \<Rightarrow> (Some v, w))
        | _ \<Rightarrow> (None, print ''Error loading parse cache: '' w))"
  by (simp add: ParseResultCache_get_def)

lemma ParseResultCache_set_written:
  "\<not> open_fails w (parse_file lib c file_hash config parser_method)
   \<Longrightarrow> ParseResultCache_set lib c file_hash config md parser_method w =
       write_file (parse_file lib c file_hash config parser_method)
         (dumps (float_repr lib) False
            (cache_data file_hash config md parser_method (clock w))) w"
  by (simp add: ParseResultCache_set_def)

lemma cache_data_markdown:
  "cache_data file_hash config md parser_method now = JObj data
   \<Longrightarrow> map_of data ''markdown'' = Some (JStr md)"
  by (auto simp add: cache_data_def)


subsection \<open>Claims\<close>

text \<open>
  C10.  The embedding cache's key is the hash of \<open>text + ":" + model\<close> with the colon
  unescaped, so the distinct pairs \<open>("a:b", "c")\<close> and \<open>("a", "b:c")\<close> have the same key,
  whatever the hash function is.  Hence an embedding stored for one of them is what a
  lookup of the other returns, and a later \<open>set\<close> for the second replaces what the first
  stored.
\<close>

theorem embedding_key_collision:
  "(''a:b'', ''c'') \<noteq> (''a'', ''b:c'') \<and>
   EmbeddingCache_get_cache_key lib ''a:b'' ''c'' = EmbeddingCache_get_cache_key lib ''a'' ''b:c'' \<and>
   (\<not> open_fails w (embedding_file lib c ''a:b'' ''c'') \<longrightarrow>
    pickle_dumps lib e = Some bytes \<longrightarrow> pickle_loads lib bytes = Some e \<longrightarrow>
    pickle_dumps lib e' = Some bytes' \<longrightarrow> pickle_loads lib bytes' = Some e' \<longrightarrow>
    0 \<le> ttl c \<longrightarrow>
      fst (EmbeddingCache_get lib c ''a'' ''b:c''
             (EmbeddingCache_set lib c ''a:b'' ''c'' e w)) = Some e \<and>
      fst (EmbeddingCache_get lib c ''a:b'' ''c''
             (EmbeddingCache_set lib c ''a'' ''b:c'' e'
                (EmbeddingCache_set lib c ''a:b'' ''c'' e w))) = Some e')"
proof -
  have key: "EmbeddingCache_get_cache_key lib ''a:b'' ''c'' = EmbeddingCache_get_cache_key lib ''a'' ''b:c''"
    by (simp add: EmbeddingCache_get_cache_key_def)
  have "fst (EmbeddingCache_get lib c ''a'' ''b:c'' (EmbeddingCache_set lib c ''a:b'' ''c'' e w)) = Some e"
    if "\<not> open_fails w (embedding_file lib c ''a:b'' ''c'')" "pickle_dumps lib e = Some bytes"
      "pickle_loads lib bytes = Some e" "0 \<le> ttl c"
    using that
    by (simp add: EmbeddingCache_set_written key [symmetric] write_file_sel
        EmbeddingCache_get_live [where f = "\<lparr>content = bytes, mtime = clock w\<rparr>"])
  moreover have "fst (EmbeddingCache_get lib c ''a:b'' ''c''
             (EmbeddingCache_set lib c ''a'' ''b:c'' e'
                (EmbeddingCache_set lib c ''a:b'' ''c'' e w))) = Some e'"
    if "\<not> open_fails w (embedding_file lib c ''a:b'' ''c'')" "pickle_dumps lib e = Some bytes"
      "pickle_dumps lib e' = Some bytes'" "pickle_loads lib bytes' = Some e'" "0 \<le> ttl c"
    using that
    by (simp add: EmbeddingCache_set_written key [symmetric] write_file_sel
        EmbeddingCache_get_live [where f = "\<lparr>content = bytes', mtime = clock w\<rparr>"])
  ultimately show ?thesis
    using key by simp
qed

theorem embedding_key_collision_witness:
  "fst (EmbeddingCache_get toy_lib (toy_cache 604800) ''a'' ''b:c''
          (EmbeddingCache_set toy_lib (toy_cache 604800) ''a:b'' ''c'' ''first'' toy_world)) = Some ''first'' \<and>
   fst (EmbeddingCache_get toy_lib (toy_cache 604800) ''a:b'' ''c''
          (EmbeddingCache_set toy_lib (toy_cache 604800) ''a'' ''b:c'' ''second''
             (EmbeddingCache_set toy_lib (toy_cache 604800) ''a:b'' ''c'' ''first'' toy_world))) = Some ''second''"
  using embedding_key_collision [where lib = toy_lib and c = "toy_cache 604800" and w = toy_world
      and e = "''first''" and bytes = "''Pfirst''" and e' = "''second''" and bytes' = "''Psecond''"]
  by (simp add: toy_lib_def toy_cache_def toy_world_def)


text \<open>
  C1.  Round trip.  In each of the three caches, when the entry file can be opened for
  writing and the library's reader returns what its writer was given, a \<open>set\<close> followed by
  a \<open>get\<close> with the same lookup inputs, after at most the time to live has passed, returns
  the stored payload; from the parse cache it returns the stored markdown string.
\<close>

theorem cache_round_trip:
  assumes "d \<le> real_of_int (ttl c)"
  shows
   "(\<not> open_fails w (embedding_file lib c text model) \<longrightarrow>
     pickle_dumps lib e = Some bytes \<longrightarrow> pickle_loads lib bytes = Some e \<longrightarrow>
       fst (EmbeddingCache_get lib c text model
              (advance d (EmbeddingCache_set lib c text model e w))) = Some e) \<and>
    (\<not> open_fails w (chunk_file lib c text strategy config) \<longrightarrow>
     json_loads lib (dumps (float_repr lib) False (JList chunks)) = Some (JList chunks) \<longrightarrow>
       fst (ChunkResultCache_get lib c text strategy config
              (advance d (ChunkResultCache_set lib c text strategy config chunks w)))
         = Some (JList chunks)) \<and>
    (\<not> open_fails w (parse_file lib c file_hash config parser_method) \<longrightarrow>
     json_loads lib (dumps (float_repr lib) False
        (cache_data file_hash config md parser_method (clock w)))
       = Some (cache_data file_hash config md parser_method (clock w)) \<longrightarrow>
       fst (ParseResultCache_get lib c file_hash config parser_method
              (advance d (ParseResultCache_set lib c file_hash config md parser_method w)))
         = Some (JStr md))"
proof (intro conjI impI)
  assume "\<not> open_fails w (embedding_file lib c text model)"
    and "pickle_dumps lib e = Some bytes" and "pickle_loads lib bytes = Some e"
  with assms show "fst (EmbeddingCache_get lib c text model
      (advance d (EmbeddingCache_set lib c text model e w))) = Some e"
    by (simp add: EmbeddingCache_set_written write_file_sel advance_sel
        EmbeddingCache_get_live [where f = "\<lparr>content = bytes, mtime = clock w\<rparr>"])
next
  assume "\<not> open_fails w (chunk_file lib c text strategy config)"
    and "json_loads lib (dumps (float_repr lib) False (JList chunks)) = Some (JList chunks)"
  with assms show "fst (ChunkResultCache_get lib c text strategy config
      (advance d (ChunkResultCache_set lib c text strategy config chunks w))) = Some (JList chunks)"
    by (simp add: ChunkResultCache_set_written write_file_sel advance_sel
        ChunkResultCache_get_live
          [where f = "\<lparr>content = dumps (float_repr lib) False (JList chunks), mtime = clock w\<rparr>"])
next
  assume "\<not> open_fails w (parse_file lib c file_hash config parser_method)"
    and "json_loads lib (dumps (float_repr lib) False
        (cache_data file_hash config md parser_method (clock w)))
       = Some (cache_data file_hash config md parser_method (clock w))"
  with assms show "fst (ParseResultCache_get lib c file_hash config parser_method
      (advance d (ParseResultCache_set lib c file_hash config md parser_method w)))
         = Some (JStr md)"
    by (simp add: ParseResultCache_set_written write_file_sel advance_sel
        ParseResultCache_get_live
          [where f = "\<lparr>content = dumps (float_repr lib) False
              (cache_data file_hash config md parser_method (clock w)), mtime = clock w\<rparr>"])
      (simp add: cache_data_def)
qed

theorem cache_round_trip_witness:
  "fst (EmbeddingCache_get toy_lib (toy_cache 60) ''some text'' ''model-1''
          (advance 60 (EmbeddingCache_set toy_lib (toy_cache 60) ''some text'' ''model-1'' ''vec'' toy_world)))
     = Some ''vec'' \<and>
   fst (ChunkResultCache_get toy_lib (toy_cache 60) ''some text'' ''semantic'' toy_config
          (advance 60 (ChunkResultCache_set toy_lib (toy_cache 60) ''some text'' ''semantic'' toy_config
             toy_chunks toy_world)))
     = Some (JList toy_chunks) \<and>
   fst (ParseResultCache_get toy_lib (toy_cache 60) ''abc'' toy_config ''llamaparse''
          (advance 60 (ParseResultCache_set toy_lib (toy_cache 60) ''abc'' toy_config ''# Title''
             ''llamaparse'' toy_world)))
     = Some (JStr ''# Title'')"
proof -
  have "\<not> open_fails toy_world p" for p
    by (simp add: toy_world_def)
  moreover have "pickle_dumps toy_lib ''vec'' = Some ''Pvec''" "pickle_loads toy_lib ''Pvec'' = Some ''vec''"
    by (simp_all add: toy_lib_def)
  moreover have "json_loads toy_lib (dumps (float_repr toy_lib) False (JList toy_chunks))
      = Some (JList toy_chunks)"
    by (simp add: toy_lib_def)
  moreover have "json_loads toy_lib (dumps (float_repr toy_lib) False
        (cache_data ''abc'' toy_config ''# Title'' ''llamaparse'' (clock toy_world)))
      = Some (cache_data ''abc'' toy_config ''# Title'' ''llamaparse'' (clock toy_world))"
    by (simp add: toy_lib_def toy_world_def cache_data_def)
  moreover have "(60::real) \<le> real_of_int (ttl (toy_cache 60))"
    by (simp add: toy_cache_def)
  ultimately show ?thesis
    using cache_round_trip [where d = 60 and c = "toy_cache 60" and w = toy_world and lib = toy_lib
      and e = "''vec''" and bytes = "''Pvec''" and ?text = "''some text''" and model = "''model-1''"
      and strategy = "''semantic''" and config = toy_config and chunks = toy_chunks
      and file_hash = "''abc''" and parser_method = "''llamaparse''" and md = "''# Title''"]
    by simp
qed


text \<open>
  C2.  Expiry.  An entry is written at clock value \<open>clock w\<close> and looked up \<open>d\<close> seconds
  later.  If \<open>d\<close> is greater than the time to live, \<open>get\<close> returns nothing and the entry
  file is gone afterwards; if \<open>d\<close> is at most the time to live, \<open>get\<close> returns the stored
  value and the file is still there as written.  This holds in each of the three caches.
\<close>

theorem ttl_expiry:
  "(\<not> open_fails w (embedding_file lib c text model) \<longrightarrow>
    pickle_dumps lib e = Some bytes \<longrightarrow> pickle_loads lib bytes = Some e \<longrightarrow>
      (real_of_int (ttl c) < d \<longrightarrow>
         fst (EmbeddingCache_get lib c text model
                (advance d (EmbeddingCache_set lib c text model e w))) = None \<and>
         files (snd (EmbeddingCache_get lib c text model
                (advance d (EmbeddingCache_set lib c text model e w))))
           (embedding_file lib c text model) = None) \<and>
      (d \<le> real_of_int (ttl c) \<longrightarrow>
         fst (EmbeddingCache_get lib c text model
                (advance d (EmbeddingCache_set lib c text model e w))) = Some e \<and>
         files (snd (EmbeddingCache_get lib c text model
                (advance d (EmbeddingCache_set lib c text model e w))))
           (embedding_file lib c text model) = Some \<lparr>content = bytes, mtime = clock w\<rparr>)) \<and>
   (\<not> open_fails w (chunk_file lib c text strategy config) \<longrightarrow>
    json_loads lib (dumps (float_repr lib) False (JList chunks)) = Some (JList chunks) \<longrightarrow>
      (real_of_int (ttl c) < d \<longrightarrow>
         fst (ChunkResultCache_get lib c text strategy config
                (advance d (ChunkResultCache_set lib c text strategy config chunks w))) = None \<and>
         files (snd (ChunkResultCache_get lib c text strategy config
                (advance d (ChunkResultCache_set lib c text strategy config chunks w))))
           (chunk_file lib c text strategy config) = None) \<and>
      (d \<le> real_of_int (ttl c) \<longrightarrow>
         fst (ChunkResultCache_get lib c text strategy config
                (advance d (ChunkResultCache_set lib c text strategy config chunks w)))
           = Some (JList chunks) \<and>
         files (snd (ChunkResultCache_get lib c text strategy config
                (advance d (ChunkResultCache_set lib c text strategy config chunks w))))
           (chunk_file lib c text strategy config)
           = Some \<lparr>content = dumps (float_repr lib) False (JList chunks), mtime = clock w\<rparr>)) \<and>
   (\<not> open_fails w (parse_file lib c file_hash config parser_method) \<longrightarrow>
    json_loads lib (dumps (float_repr lib) False
        (cache_data file_hash config md parser_method (clock w)))
      = Some (cache_data file_hash config md parser_method (clock w)) \<longrightarrow>
      (real_of_int (ttl c) < d \<longrightarrow>
         fst (ParseResultCache_get lib c file_hash config parser_method
                (advance d (ParseResultCache_set lib c file_hash config md parser_method w)))
           = None \<and>
         files (snd (ParseResultCache_get lib c file_hash config parser_method
                (advance d (ParseResultCache_set lib c file_hash config md parser_method w))))
           (parse_file lib c file_hash config parser_method) = None) \<and>
      (d \<le> real_of_int (ttl c) \<longrightarrow>
         fst (ParseResultCache_get lib c file_hash config parser_method
                (advance d (ParseResultCache_set lib c file_hash config md parser_method w)))
           = Some (JStr md) \<and>
         files (snd (ParseResultCache_get lib c file_hash config parser_method
                (advance d (ParseResultCache_set lib c file_hash config md parser_method w))))
           (parse_file lib c file_hash config parser_method)
           = Some \<lparr>content = dumps (float_repr lib) False
                       (cache_data file_hash config md parser_method (clock w)),
                    mtime = clock w\<rparr>))"
proof (intro conjI impI)
  let ?f = "\<lparr>content = bytes, mtime = clock w\<rparr>"
  let ?w = "advance d (EmbeddingCache_set lib c text model e w)"
  assume a: "\<not> open_fails w (embedding_file lib c text model)" "pickle_dumps lib e = Some bytes"
    and l: "pickle_loads lib bytes = Some e"
  have f: "files ?w (embedding_file lib c text model) = Some ?f" and t: "clock ?w - mtime ?f = d"
    using a by (simp_all add: EmbeddingCache_set_written write_file_sel advance_sel)
  {
    assume "real_of_int (ttl c) < d"
    then have "EmbeddingCache_get lib c text model ?w = (None, unlink (embedding_file lib c text model) ?w)"
      using EmbeddingCache_get_expired [OF f] t by simp
    then show "fst (EmbeddingCache_get lib c text model ?w) = None"
      and "files (snd (EmbeddingCache_get lib c text model ?w)) (embedding_file lib c text model) = None"
      by (simp_all add: unlink_sel)
  }
  {
    assume "d \<le> real_of_int (ttl c)"
    then have "EmbeddingCache_get lib c text model ?w = (Some e, ?w)"
      using EmbeddingCache_get_live [OF f] t l by simp
    then show "fst (EmbeddingCache_get lib c text model ?w) = Some e"
      and "files (snd (EmbeddingCache_get lib c text model ?w)) (embedding_file lib c text model) = Some ?f"
      using f by simp_all
  }
next
  let ?f = "\<lparr>content = dumps (float_repr lib) False (JList chunks), mtime = clock w\<rparr>"
  let ?w = "advance d (ChunkResultCache_set lib c text strategy config chunks w)"
  assume a: "\<not> open_fails w (chunk_file lib c text strategy config)"
    and l: "json_loads lib (dumps (float_repr lib) False (JList chunks)) = Some (JList chunks)"
  have f: "files ?w (chunk_file lib c text strategy config) = Some ?f" and t: "clock ?w - mtime ?f = d"
    using a by (simp_all add: ChunkResultCache_set_written write_file_sel advance_sel)
  {
    assume "real_of_int (ttl c) < d"
    then have "ChunkResultCache_get lib c text strategy config ?w
        = (None, unlink (chunk_file lib c text strategy config) ?w)"
      using ChunkResultCache_get_expired [OF f] t by simp
    then show "fst (ChunkResultCache_get lib c text strategy config ?w) = None"
      and "files (snd (ChunkResultCache_get lib c text strategy config ?w))
             (chunk_file lib c text strategy config) = None"
      by (simp_all add: unlink_sel)
  }
  {
    assume "d \<le> real_of_int (ttl c)"
    then have "ChunkResultCache_get lib c text strategy config ?w = (Some (JList chunks), ?w)"
      using ChunkResultCache_get_live [OF f] t l by simp
    then show "fst (ChunkResultCache_get lib c text strategy config ?w) = Some (JList chunks)"
      and "files (snd (ChunkResultCache_get lib c text strategy config ?w))
             (chunk_file lib c text strategy config) = Some ?f"
      using f by simp_all
  }
next
  let ?v = "cache_data file_hash config md parser_method (clock w)"
  let ?f = "\<lparr>content = dumps (float_repr lib) False ?v, mtime = clock w\<rparr>"
  let ?w = "advance d (ParseResultCache_set lib c file_hash config md parser_method w)"
  assume a: "\<not> open_fails w (parse_file lib c file_hash config parser_method)"
    and l: "json_loads lib (dumps (float_repr lib) False ?v) = Some ?v"
  have f: "files ?w (parse_file lib c file_hash config parser_method) = Some ?f"
    and t: "clock ?w - mtime ?f = d"
    using a by (simp_all add: ParseResultCache_set_written write_file_sel advance_sel)
  {
    assume "real_of_int (ttl c) < d"
    then have "ParseResultCache_get lib c file_hash config parser_method ?w
        = (None, unlink (parse_file lib c file_hash config parser_method) ?w)"
      using ParseResultCache_get_expired [OF f] t by simp
    then show "fst (ParseResultCache_get lib c file_hash config parser_method ?w) = None"
      and "files (snd (ParseResultCache_get lib c file_hash config parser_method ?w))
             (parse_file lib c file_hash config parser_method) = None"
      by (simp_all add: unlink_sel)
  }
  {
    assume "d \<le> real_of_int (ttl c)"
    then have "ParseResultCache_get lib c file_hash config parser_method ?w = (Some (JStr md), ?w)"
      using ParseResultCache_get_live [OF f] t l by (simp add: cache_data_def)
    then show "fst (ParseResultCache_get lib c file_hash config parser_method ?w) = Some (JStr md)"
      and "files (snd (ParseResultCache_get lib c file_hash config parser_method ?w))
             (parse_file lib c file_hash config parser_method) = Some ?f"
      using f by simp_all
  }
qed


theorem ttl_expiry_witness:
  "fst (EmbeddingCache_get toy_lib (toy_cache 60) ''some text'' ''model-1''
          (advance 61 (EmbeddingCache_set toy_lib (toy_cache 60) ''some text'' ''model-1'' ''vec'' toy_world)))
     = None \<and>
   files (snd (EmbeddingCache_get toy_lib (toy_cache 60) ''some text'' ''model-1''
          (advance 61 (EmbeddingCache_set toy_lib (toy_cache 60) ''some text'' ''model-1'' ''vec'' toy_world))))
     (embedding_file toy_lib (toy_cache 60) ''some text'' ''model-1'') = None \<and>
   fst (EmbeddingCache_get toy_lib (toy_cache 60) ''some text'' ''model-1''
          (advance 60 (EmbeddingCache_set toy_lib (toy_cache 60) ''some text'' ''model-1'' ''vec'' toy_world)))
     = Some ''vec'' \<and>
   files (snd (EmbeddingCache_get toy_lib (toy_cache 60) ''some text'' ''model-1''
          (advance 60 (EmbeddingCache_set toy_lib (toy_cache 60) ''some text'' ''model-1'' ''vec'' toy_world))))
     (embedding_file toy_lib (toy_cache 60) ''some text'' ''model-1'')
     = Some \<lparr>content = ''Pvec'', mtime = 1000\<rparr> \<and>
   fst (ChunkResultCache_get toy_lib (toy_cache 60) ''some text'' ''semantic'' toy_config
          (advance 61 (ChunkResultCache_set toy_lib (toy_cache 60) ''some text'' ''semantic'' toy_config
             toy_chunks toy_world)))
     = None \<and>
   fst (ChunkResultCache_get toy_lib (toy_cache 60) ''some text'' ''semantic'' toy_config
          (advance 60 (ChunkResultCache_set toy_lib (toy_cache 60) ''some text'' ''semantic'' toy_config
             toy_chunks toy_world)))
     = Some (JList toy_chunks) \<and>
   fst (ParseResultCache_get toy_lib (toy_cache 60) ''abc'' toy_config ''llamaparse''
          (advance 61 (ParseResultCache_set toy_lib (toy_cache 60) ''abc'' toy_config ''# Title''
             ''llamaparse'' toy_world)))
     = None \<and>
   fst (ParseResultCache_get toy_lib (toy_cache 60) ''abc'' toy_config ''llamaparse''
          (advance 60 (ParseResultCache_set toy_lib (toy_cache 60) ''abc'' toy_config ''# Title''
             ''llamaparse'' toy_world)))
     = Some (JStr ''# Title'')"
proof -
  have "\<not> open_fails toy_world p" for p
    by (simp add: toy_world_def)
  moreover have "pickle_dumps toy_lib ''vec'' = Some ''Pvec''" "pickle_loads toy_lib ''Pvec'' = Some ''vec''"
    by (simp_all add: toy_lib_def)
  moreover have "json_loads toy_lib (dumps (float_repr toy_lib) False (JList toy_chunks))
      = Some (JList toy_chunks)"
    by (simp add: toy_lib_def)
  moreover have "json_loads toy_lib (dumps (float_repr toy_lib) False
        (cache_data ''abc'' toy_config ''# Title'' ''llamaparse'' (clock toy_world)))
      = Some (cache_data ''abc'' toy_config ''# Title'' ''llamaparse'' (clock toy_world))"
    by (simp add: toy_lib_def toy_world_def cache_data_def)
  moreover have "real_of_int (ttl (toy_cache 60)) < 61" "(60::real) \<le> real_of_int (ttl (toy_cache 60))"
    by (simp_all add: toy_cache_def)
  moreover have "clock toy_world = 1000"
    by (simp add: toy_world_def)
  ultimately show ?thesis
    using ttl_expiry [where d = 61 and c = "toy_cache 60" and w = toy_world and lib = toy_lib
      and e = "''vec''" and bytes = "''Pvec''" and ?text = "''some text''" and model = "''model-1''"
      and strategy = "''semantic''" and config = toy_config and chunks = toy_chunks
      and file_hash = "''abc''" and parser_method = "''llamaparse''" and md = "''# Title''"]
      ttl_expiry [where d = 60 and c = "toy_cache 60" and w = toy_world and lib = toy_lib
      and e = "''vec''" and bytes = "''Pvec''" and ?text = "''some text''" and model = "''model-1''"
      and strategy = "''semantic''" and config = toy_config and chunks = toy_chunks
      and file_hash = "''abc''" and parser_method = "''llamaparse''" and md = "''# Title''"]
    by simp
qed


text \<open>
  C5.  Corrupt entries.  In each of the three caches, when the entry file exists, is not
  older than the time to live, and the library's reader fails on its contents, \<open>get\<close>
  returns nothing (it raises nothing: the result is a value), prints one diagnostic, and
  leaves every file, the corrupt one included, as it was.
\<close>

theorem corrupt_entry_is_miss:
  "(files w (embedding_file lib c text model) = Some f \<longrightarrow>
    clock w - mtime f \<le> real_of_int (ttl c) \<longrightarrow> pickle_loads lib (content f) = None \<longrightarrow>
      fst (EmbeddingCache_get lib c text model w) = None \<and>
      stdout (snd (EmbeddingCache_get lib c text model w)) = stdout w @ [''Error loading cache: ''] \<and>
      files (snd (EmbeddingCache_get lib c text model w)) = files w) \<and>
   (files w (chunk_file lib c text strategy config) = Some f \<longrightarrow>
    clock w - mtime f \<le> real_of_int (ttl c) \<longrightarrow> json_loads lib (content f) = None \<longrightarrow>
      fst (ChunkResultCache_get lib c text strategy config w) = None \<and>
      stdout (snd (ChunkResultCache_get lib c text strategy config w))
        = stdout w @ [''Error loading chunk cache: ''] \<and>
      files (snd (ChunkResultCache_get lib c text strategy config w)) = files w) \<and>
   (files w (parse_file lib c file_hash config parser_method) = Some f \<longrightarrow>
    clock w - mtime f \<le> real_of_int (ttl c) \<longrightarrow> json_loads lib (content f) = None \<longrightarrow>
      fst (ParseResultCache_get lib c file_hash config parser_method w) = None \<and>
      stdout (snd (ParseResultCache_get lib c file_hash config parser_method w))
        = stdout w @ [''Error loading parse cache: ''] \<and>
      files (snd (ParseResultCache_get lib c file_hash config parser_method w)) = files w)"
  by (simp add: EmbeddingCache_get_live ChunkResultCache_get_live ParseResultCache_get_live print_sel)

text \<open>A world whose three entry files hold bytes that the toy library cannot read.\<close>

theorem corrupt_entry_is_miss_witness:
  "fst (EmbeddingCache_get toy_lib (toy_cache 60) ''t'' ''m''
         (toy_world\<lparr>files := [embedding_file toy_lib (toy_cache 60) ''t'' ''m''
             \<mapsto> \<lparr>content = ''garbage'', mtime = 990\<rparr>]\<rparr>)) = None \<and>
   stdout (snd (EmbeddingCache_get toy_lib (toy_cache 60) ''t'' ''m''
         (toy_world\<lparr>files := [embedding_file toy_lib (toy_cache 60) ''t'' ''m''
             \<mapsto> \<lparr>content = ''garbage'', mtime = 990\<rparr>]\<rparr>))) = [''Error loading cache: ''] \<and>
   files (snd (EmbeddingCache_get toy_lib (toy_cache 60) ''t'' ''m''
         (toy_world\<lparr>files := [embedding_file toy_lib (toy_cache 60) ''t'' ''m''
             \<mapsto> \<lparr>content = ''garbage'', mtime = 990\<rparr>]\<rparr>)))
       (embedding_file toy_lib (toy_cache 60) ''t'' ''m'') = Some \<lparr>content = ''garbage'', mtime = 990\<rparr> \<and>
   fst (ChunkResultCache_get toy_lib (toy_cache 60) ''t'' ''semantic'' toy_config
         (toy_world\<lparr>files := [chunk_file toy_lib (toy_cache 60) ''t'' ''semantic'' toy_config
             \<mapsto> \<lparr>content = ''[{'', mtime = 990\<rparr>]\<rparr>)) = None \<and>
   stdout (snd (ChunkResultCache_get toy_lib (toy_cache 60) ''t'' ''semantic'' toy_config
         (toy_world\<lparr>files := [chunk_file toy_lib (toy_cache 60) ''t'' ''semantic'' toy_config
             \<mapsto> \<lparr>content = ''[{'', mtime = 990\<rparr>]\<rparr>))) = [''Error loading chunk cache: ''] \<and>
   fst (ParseResultCache_get toy_lib (toy_cache 60) ''abc'' toy_config ''llamaparse''
         (toy_world\<lparr>files := [parse_file toy_lib (toy_cache 60) ''abc'' toy_config ''llamaparse''
             \<mapsto> \<lparr>content = ''{'', mtime = 990\<rparr>]\<rparr>)) = None \<and>
   stdout (snd (ParseResultCache_get toy_lib (toy_cache 60) ''abc'' toy_config ''llamaparse''
         (toy_world\<lparr>files := [parse_file toy_lib (toy_cache 60) ''abc'' toy_config ''llamaparse''
             \<mapsto> \<lparr>content = ''{'', mtime = 990\<rparr>]\<rparr>))) = [''Error loading parse cache: '']"
proof -
  have "pickle_loads toy_lib ''garbage'' = None"
    by (simp add: toy_lib_def)
  moreover have "json_loads toy_lib ''[{'' = None" "json_loads toy_lib ''{'' = None"
    by (simp_all add: toy_lib_def toy_chunks_def cache_data_def)
  moreover have "clock toy_world - 990 \<le> real_of_int (ttl (toy_cache 60))" "stdout toy_world = []"
    by (simp_all add: toy_world_def toy_cache_def)
  ultimately show ?thesis
    using
      corrupt_entry_is_miss [where lib = toy_lib and c = "toy_cache 60" and ?text = "''t''" and model = "''m''"
        and f = "\<lparr>content = ''garbage'', mtime = 990\<rparr>"
        and w = "toy_world\<lparr>files := [embedding_file toy_lib (toy_cache 60) ''t'' ''m''
             \<mapsto> \<lparr>content = ''garbage'', mtime = 990\<rparr>]\<rparr>"]
      corrupt_entry_is_miss [where lib = toy_lib and c = "toy_cache 60" and ?text = "''t''"
        and strategy = "''semantic''" and config = toy_config
        and f = "\<lparr>content = ''[{'', mtime = 990\<rparr>"
        and w = "toy_world\<lparr>files := [chunk_file toy_lib (toy_cache 60) ''t'' ''semantic'' toy_config
             \<mapsto> \<lparr>content = ''[{'', mtime = 990\<rparr>]\<rparr>"]
      corrupt_entry_is_miss [where lib = toy_lib and c = "toy_cache 60"
        and file_hash = "''abc''" and parser_method = "''llamaparse''" and config = toy_config
        and f = "\<lparr>content = ''{'', mtime = 990\<rparr>"
        and w = "toy_world\<lparr>files := [parse_file toy_lib (toy_cache 60) ''abc'' toy_config ''llamaparse''
             \<mapsto> \<lparr>content = ''{'', mtime = 990\<rparr>]\<rparr>"]
    by simp
qed

text \<open>
  C8.  Time to live zero.  The lookup tests \<open>file_age > ttl\<close>, so with \<open>ttl = 0\<close> an entry
  is dropped by every lookup whose clock reading is later than the file's modification
  time: the lookup returns nothing and the file is gone.  At age zero (the lookup reads
  the very clock value the write stamped on the file) the comparison \<open>0 > 0\<close> fails and
  the stored value is still returned, the world unchanged.  Both halves hold in each of
  the three caches: the embedding cache returns the unpickled payload, the chunk cache
  the decoded JSON value, the parse cache the \<open>markdown\<close> member of the decoded record.
\<close>

theorem zero_ttl_expires_once_clock_moved:
  "ttl c = 0 \<longrightarrow>
   (files w (embedding_file lib c text model) = Some f \<longrightarrow> mtime f < clock w \<longrightarrow>
      fst (EmbeddingCache_get lib c text model w) = None \<and>
      files (snd (EmbeddingCache_get lib c text model w)) (embedding_file lib c text model) = None) \<and>
   (files w (chunk_file lib c text strategy config) = Some f \<longrightarrow> mtime f < clock w \<longrightarrow>
      fst (ChunkResultCache_get lib c text strategy config w) = None \<and>
      files (snd (ChunkResultCache_get lib c text strategy config w))
        (chunk_file lib c text strategy config) = None) \<and>
   (files w (parse_file lib c file_hash config parser_method) = Some f \<longrightarrow> mtime f < clock w \<longrightarrow>
      fst (ParseResultCache_get lib c file_hash config parser_method w) = None \<and>
      files (snd (ParseResultCache_get lib c file_hash config parser_method w))
        (parse_file lib c file_hash config parser_method) = None) \<and>
   (files w (embedding_file lib c text model) = Some f \<longrightarrow> mtime f = clock w \<longrightarrow>
    pickle_loads lib (content f) = Some e \<longrightarrow>
      EmbeddingCache_get lib c text model w = (Some e, w)) \<and>
   (files w (chunk_file lib c text strategy config) = Some f \<longrightarrow> mtime f = clock w \<longrightarrow>
    json_loads lib (content f) = Some v \<longrightarrow> v \<noteq> JNull \<longrightarrow>
      ChunkResultCache_get lib c text strategy config w = (Some v, w)) \<and>
   (files w (parse_file lib c file_hash config parser_method) = Some f \<longrightarrow> mtime f = clock w \<longrightarrow>
    json_loads lib (content f) = Some (JObj data) \<longrightarrow>
    map_of data ''markdown'' = Some v \<longrightarrow> v \<noteq> JNull \<longrightarrow>
      ParseResultCache_get lib c file_hash config parser_method w = (Some v, w))"
  by (simp add: EmbeddingCache_get_expired ChunkResultCache_get_expired ParseResultCache_get_expired
      EmbeddingCache_get_live ChunkResultCache_get_live ParseResultCache_get_live unlink_sel
      split: json.splits)

theorem zero_ttl_expires_once_clock_moved_witness:
  "fst (EmbeddingCache_get toy_lib (toy_cache 0) ''t'' ''m''
         (advance (1 / 1000) (EmbeddingCache_set toy_lib (toy_cache 0) ''t'' ''m'' ''vec'' toy_world))) = None \<and>
   files (snd (EmbeddingCache_get toy_lib (toy_cache 0) ''t'' ''m''
         (advance (1 / 1000) (EmbeddingCache_set toy_lib (toy_cache 0) ''t'' ''m'' ''vec'' toy_world))))
     (embedding_file toy_lib (toy_cache 0) ''t'' ''m'') = None \<and>
   fst (ChunkResultCache_get toy_lib (toy_cache 0) ''t'' ''semantic'' toy_config
         (advance (1 / 1000)
            (ChunkResultCache_set toy_lib (toy_cache 0) ''t'' ''semantic'' toy_config toy_chunks toy_world)))
     = None \<and>
   files (snd (ChunkResultCache_get toy_lib (toy_cache 0) ''t'' ''semantic'' toy_config
         (advance (1 / 1000)
            (ChunkResultCache_set toy_lib (toy_cache 0) ''t'' ''semantic'' toy_config toy_chunks toy_world))))
     (chunk_file toy_lib (toy_cache 0) ''t'' ''semantic'' toy_config) = None \<and>
   fst (ParseResultCache_get toy_lib (toy_cache 0) ''abc'' toy_config ''llamaparse''
         (advance (1 / 1000)
            (ParseResultCache_set toy_lib (toy_cache 0) ''abc'' toy_config ''# Title'' ''llamaparse'' toy_world)))
     = None \<and>
   files (snd (ParseResultCache_get toy_lib (toy_cache 0) ''abc'' toy_config ''llamaparse''
         (advance (1 / 1000)
            (ParseResultCache_set toy_lib (toy_cache 0) ''abc'' toy_config ''# Title'' ''llamaparse'' toy_world))))
     (parse_file toy_lib (toy_cache 0) ''abc'' toy_config ''llamaparse'') = None \<and>
   EmbeddingCache_get toy_lib (toy_cache 0) ''t'' ''m''
       (EmbeddingCache_set toy_lib (toy_cache 0) ''t'' ''m'' ''vec'' toy_world)
     = (Some ''vec'', EmbeddingCache_set toy_lib (toy_cache 0) ''t'' ''m'' ''vec'' toy_world) \<and>
   ChunkResultCache_get toy_lib (toy_cache 0) ''t'' ''semantic'' toy_config
       (ChunkResultCache_set toy_lib (toy_cache 0) ''t'' ''semantic'' toy_config toy_chunks toy_world)
     = (Some (JList toy_chunks),
        ChunkResultCache_set toy_lib (toy_cache 0) ''t'' ''semantic'' toy_config toy_chunks toy_world) \<and>
   ParseResultCache_get toy_lib (toy_cache 0) ''abc'' toy_config ''llamaparse''
       (ParseResultCache_set toy_lib (toy_cache 0) ''abc'' toy_config ''# Title'' ''llamaparse'' toy_world)
     = (Some (JStr ''# Title''),
        ParseResultCache_set toy_lib (toy_cache 0) ''abc'' toy_config ''# Title'' ''llamaparse'' toy_world)"
proof -
  let ?e = "EmbeddingCache_set toy_lib (toy_cache 0) ''t'' ''m'' ''vec'' toy_world"
  let ?c = "ChunkResultCache_set toy_lib (toy_cache 0) ''t'' ''semantic'' toy_config toy_chunks toy_world"
  let ?p = "ParseResultCache_set toy_lib (toy_cache 0) ''abc'' toy_config ''# Title'' ''llamaparse'' toy_world"
  let ?fe = "\<lparr>content = ''Pvec'', mtime = 1000\<rparr>"
  let ?fc = "\<lparr>content = dumps (float_repr toy_lib) False (JList toy_chunks), mtime = 1000\<rparr>"
  let ?fp = "\<lparr>content = dumps (float_repr toy_lib) False
                (cache_data ''abc'' toy_config ''# Title'' ''llamaparse'' 1000), mtime = 1000\<rparr>"
  have z: "ttl (toy_cache 0) = 0"
    by (simp add: toy_cache_def)
  have e: "files (advance (1 / 1000) ?e) (embedding_file toy_lib (toy_cache 0) ''t'' ''m'') = Some ?fe"
    "mtime ?fe < clock (advance (1 / 1000) ?e)"
    by (simp_all add: EmbeddingCache_set_def toy_lib_def toy_world_def write_file_sel advance_sel)
  have e0: "files ?e (embedding_file toy_lib (toy_cache 0) ''t'' ''m'') = Some ?fe"
    "mtime ?fe = clock ?e" "pickle_loads toy_lib (content ?fe) = Some ''vec''"
    by (simp_all add: EmbeddingCache_set_def toy_lib_def toy_world_def write_file_sel)
  have c:
    "files (advance (1 / 1000) ?c) (chunk_file toy_lib (toy_cache 0) ''t'' ''semantic'' toy_config) = Some ?fc"
    "mtime ?fc < clock (advance (1 / 1000) ?c)"
    by (simp_all add: ChunkResultCache_set_def toy_world_def write_file_sel advance_sel)
  have c0:
    "files ?c (chunk_file toy_lib (toy_cache 0) ''t'' ''semantic'' toy_config) = Some ?fc"
    "mtime ?fc = clock ?c"
    by (simp_all add: ChunkResultCache_set_def toy_world_def write_file_sel)
  have c1: "json_loads toy_lib (content ?fc) = Some (JList toy_chunks)" "JList toy_chunks \<noteq> JNull"
    by (simp_all add: toy_lib_def)
  have p:
    "files (advance (1 / 1000) ?p) (parse_file toy_lib (toy_cache 0) ''abc'' toy_config ''llamaparse'') = Some ?fp"
    "mtime ?fp < clock (advance (1 / 1000) ?p)"
    by (simp_all add: ParseResultCache_set_def toy_world_def write_file_sel advance_sel)
  have p0:
    "files ?p (parse_file toy_lib (toy_cache 0) ''abc'' toy_config ''llamaparse'') = Some ?fp"
    "mtime ?fp = clock ?p"
    by (simp_all add: ParseResultCache_set_def toy_world_def write_file_sel)
  have p1: "json_loads toy_lib (content ?fp)
      = Some (JObj [(''file_hash'', JStr ''abc''), (''config'', JObj toy_config),
          (''markdown'', JStr ''# Title''), (''parser_method'', JStr ''llamaparse''),
          (''timestamp'', JFloat 1000)])"
    "map_of [(''file_hash'', JStr ''abc''), (''config'', JObj toy_config),
          (''markdown'', JStr ''# Title''), (''parser_method'', JStr ''llamaparse''),
          (''timestamp'', JFloat 1000)] ''markdown'' = Some (JStr ''# Title'')"
    "JStr ''# Title'' \<noteq> JNull"
    by (simp_all add: toy_lib_def cache_data_def)
  note r = zero_ttl_expires_once_clock_moved [where c = "toy_cache 0" and lib = toy_lib, THEN mp, OF z]
  note r1 = r [THEN conjunct1, rule_format]
    and r2 = r [THEN conjunct2, THEN conjunct1, rule_format]
    and r3 = r [THEN conjunct2, THEN conjunct2, THEN conjunct1, rule_format]
    and r4 = r [THEN conjunct2, THEN conjunct2, THEN conjunct2, THEN conjunct1, rule_format]
    and r5 = r [THEN conjunct2, THEN conjunct2, THEN conjunct2, THEN conjunct2, THEN conjunct1,
        rule_format]
    and r6 = r [THEN conjunct2, THEN conjunct2, THEN conjunct2, THEN conjunct2, THEN conjunct2,
        rule_format]
  have "fst (EmbeddingCache_get toy_lib (toy_cache 0) ''t'' ''m'' (advance (1 / 1000) ?e)) = None \<and>
     files (snd (EmbeddingCache_get toy_lib (toy_cache 0) ''t'' ''m'' (advance (1 / 1000) ?e)))
       (embedding_file toy_lib (toy_cache 0) ''t'' ''m'') = None"
    using r1 [OF e] by simp
  moreover have "fst (ChunkResultCache_get toy_lib (toy_cache 0) ''t'' ''semantic'' toy_config
      (advance (1 / 1000) ?c)) = None \<and>
     files (snd (ChunkResultCache_get toy_lib (toy_cache 0) ''t'' ''semantic'' toy_config
      (advance (1 / 1000) ?c))) (chunk_file toy_lib (toy_cache 0) ''t'' ''semantic'' toy_config) = None"
    using r2 [OF c] by simp
  moreover have "fst (ParseResultCache_get toy_lib (toy_cache 0) ''abc'' toy_config ''llamaparse''
      (advance (1 / 1000) ?p)) = None \<and>
     files (snd (ParseResultCache_get toy_lib (toy_cache 0) ''abc'' toy_config ''llamaparse''
      (advance (1 / 1000) ?p))) (parse_file toy_lib (toy_cache 0) ''abc'' toy_config ''llamaparse'') = None"
    using r3 [OF p] by simp
  moreover have "EmbeddingCache_get toy_lib (toy_cache 0) ''t'' ''m'' ?e = (Some ''vec'', ?e)"
    by (rule r4 [OF e0])
  moreover have "ChunkResultCache_get toy_lib (toy_cache 0) ''t'' ''semantic'' toy_config ?c
      = (Some (JList toy_chunks), ?c)"
    by (rule r5 [OF c0 c1])
  moreover have "ParseResultCache_get toy_lib (toy_cache 0) ''abc'' toy_config ''llamaparse'' ?p
      = (Some (JStr ''# Title''), ?p)"
    by (rule r6 [OF p0 p1])
  ultimately show ?thesis
    by simp
qed

theorem zero_ttl_same_instant_counterexample:
  "ttl (toy_cache 0) = 0 \<and>
   fst (EmbeddingCache_get toy_lib (toy_cache 0) ''t'' ''m''
         (EmbeddingCache_set toy_lib (toy_cache 0) ''t'' ''m'' ''vec'' toy_world)) = Some ''vec'' \<and>
   files (snd (EmbeddingCache_get toy_lib (toy_cache 0) ''t'' ''m''
         (EmbeddingCache_set toy_lib (toy_cache 0) ''t'' ''m'' ''vec'' toy_world)))
     (embedding_file toy_lib (toy_cache 0) ''t'' ''m'') = Some \<lparr>content = ''Pvec'', mtime = 1000\<rparr>"
  by (simp add: EmbeddingCache_get_def EmbeddingCache_set_def EmbeddingCache_get_cache_key_def
      EmbeddingCache_get_cache_path_def toy_lib_def toy_cache_def toy_world_def write_file_def)


subsection \<open>Sorting the items of a dict by key\<close>

lemma distinct_keys_sort_key:
  assumes "distinct (map fst xs)"
  shows "distinct (map fst (sort_key fst xs))"
proof -
  have "card (set (map fst (sort_key fst xs))) = card (set (map fst xs))"
    by simp
  also have "\<dots> = length (map fst xs)"
    using assms by (rule distinct_card)
  also have "\<dots> = length (map fst (sort_key fst xs))"
    by simp
  finally show ?thesis
    by (rule card_distinct)
qed

lemma sorted_keys_unique:
  assumes "distinct (map fst xs)" and "distinct (map fst ys)" and "fst ` set xs = fst ` set ys"
  shows "map fst (sort_key fst xs) = map fst (sort_key fst ys)"
proof (rule sorted_distinct_set_unique)
  show "sorted (map fst (sort_key fst xs))" "sorted (map fst (sort_key fst ys))"
    by (rule sorted_sort_key)+
  show "distinct (map fst (sort_key fst xs))" "distinct (map fst (sort_key fst ys))"
    using assms by (simp_all only: distinct_keys_sort_key)
  show "set (map fst (sort_key fst xs)) = set (map fst (sort_key fst ys))"
    using assms(3) by simp
qed

lemma map_sorted_items_cong:
  assumes "distinct (map fst xs)" and "distinct (map fst ys)" and "fst ` set xs = fst ` set ys"
    and same: "\<And>k v v'. (k, v) \<in> set xs \<Longrightarrow> (k, v') \<in> set ys \<Longrightarrow> g v = g v'"
  shows "map (\<lambda>kv. h (fst kv) @ g (snd kv)) (sort_key fst xs)
       = map (\<lambda>kv. h (fst kv) @ g (snd kv)) (sort_key fst ys)"
proof (rule nth_equalityI)
  have keys: "map fst (sort_key fst xs) = map fst (sort_key fst ys)"
    using assms(1-3) by (rule sorted_keys_unique)
  then have len: "length (sort_key fst xs) = length (sort_key fst ys)"
    by (metis length_map)
  then show "length (map (\<lambda>kv. h (fst kv) @ g (snd kv)) (sort_key fst xs))
      = length (map (\<lambda>kv. h (fst kv) @ g (snd kv)) (sort_key fst ys))"
    by simp
  fix i
  assume "i < length (map (\<lambda>kv. h (fst kv) @ g (snd kv)) (sort_key fst xs))"
  then have i: "i < length (sort_key fst xs)" "i < length (sort_key fst ys)"
    using len by simp_all
  obtain k v where x: "sort_key fst xs ! i = (k, v)"
    by (cases "sort_key fst xs ! i")
  obtain k' v' where y: "sort_key fst ys ! i = (k', v')"
    by (cases "sort_key fst ys ! i")
  have "map fst (sort_key fst xs) ! i = map fst (sort_key fst ys) ! i"
    using keys by simp
  then have "k' = k"
    using i x y by simp
  moreover have "(k, v) \<in> set xs"
    using i(1) x by (metis nth_mem set_sort)
  moreover have "(k', v') \<in> set ys"
    using i(2) y by (metis nth_mem set_sort)
  ultimately have "g v = g v'"
    using same by simp
  then show "map (\<lambda>kv. h (fst kv) @ g (snd kv)) (sort_key fst xs) ! i
      = map (\<lambda>kv. h (fst kv) @ g (snd kv)) (sort_key fst ys) ! i"
    using i x y \<open>k' = k\<close> by simp
qed

lemma dumps_sorted_dict_eq:
  "dict_eq a b \<Longrightarrow> dumps fr True a = dumps fr True b"
proof (induction rule: dict_eq.induct)
  case (dict_eq_list xs ys)
  then have "list_all2 (\<lambda>x y. dumps fr True x = dumps fr True y) xs ys"
    by (simp add: list_all2_conv_all_nth)
  then have "map (dumps fr True) xs = map (dumps fr True) ys"
    by (induction rule: list_all2_induct) simp_all
  then show ?case
    by simp
next
  case (dict_eq_obj xs ys)
  have "map (\<lambda>kv. (\<lambda>k. json_quote k @ '': '') (fst kv) @ dumps fr True (snd kv)) (sort_key fst xs)
      = map (\<lambda>kv. (\<lambda>k. json_quote k @ '': '') (fst kv) @ dumps fr True (snd kv)) (sort_key fst ys)"
    using dict_eq_obj.hyps(1-3) dict_eq_obj.IH by (rule map_sorted_items_cong)
  then show ?case
    by simp
qed simp_all

text \<open>
  C4.  Two configurations that are the same mapping, built with their keys in different
  orders (in nested dicts too), get the same chunk-result key and the same parse-result
  key: both keys hash a text that contains the configuration serialised with
  \<open>sort_keys=True\<close>, and that serialisation is the same for the two.
\<close>

theorem cache_key_canonical:
  assumes "dict_eq (JObj config1) (JObj config2)"
  shows "dumps (float_repr lib) True (JObj config1) = dumps (float_repr lib) True (JObj config2) \<and>
    ChunkResultCache_get_cache_key lib text_hash strategy config1
      = ChunkResultCache_get_cache_key lib text_hash strategy config2 \<and>
    ParseResultCache_get_cache_key lib file_hash config1 parser_method
      = ParseResultCache_get_cache_key lib file_hash config2 parser_method"
  using dumps_sorted_dict_eq [OF assms, of "float_repr lib"]
  by (simp add: ChunkResultCache_get_cache_key_def ParseResultCache_get_cache_key_def
      del: dumps.simps)

theorem cache_key_canonical_witness:
  "dumps (float_repr toy_lib) True (JObj [(''a'', JInt 1), (''b'', JInt 2)])
     = dumps (float_repr toy_lib) True (JObj [(''b'', JInt 2), (''a'', JInt 1)]) \<and>
   ChunkResultCache_get_cache_key toy_lib ''h'' ''semantic'' [(''a'', JInt 1), (''b'', JInt 2)]
     = ChunkResultCache_get_cache_key toy_lib ''h'' ''semantic'' [(''b'', JInt 2), (''a'', JInt 1)] \<and>
   ParseResultCache_get_cache_key toy_lib ''h'' [(''a'', JInt 1), (''b'', JInt 2)] ''llamaparse''
     = ParseResultCache_get_cache_key toy_lib ''h'' [(''b'', JInt 2), (''a'', JInt 1)] ''llamaparse''"
proof -
  have "dict_eq (JObj [(''a'', JInt 1), (''b'', JInt 2)]) (JObj [(''b'', JInt 2), (''a'', JInt 1)])"
    by (rule dict_eq_obj) (auto intro: dict_eq.intros)
  then show ?thesis
    by (rule cache_key_canonical)
qed


section \<open>Properties of the metadata enrichment\<close>

subsection \<open>Dict operations\<close>

lemma map_of_update_other:
  "k \<noteq> k' \<Longrightarrow> map_of (AList.update k' v m) k = map_of m k"
  by (simp add: update_conv')

lemma dict_update_Nil: "dict_update m [] = m"
  by (simp add: dict_update_def)

lemma map_of_dict_update_other:
  "\<forall>kv \<in> set other. fst kv \<noteq> k \<Longrightarrow> map_of (dict_update m other) k = map_of m k"
  unfolding dict_update_def
  by (induction other arbitrary: m) (auto simp add: map_of_update_other)

lemma map_of_write_back_other:
  assumes "\<not> should_include_field schema k"
  shows "map_of (write_back_headings schema ch m) k = map_of m k"
proof -
  have "map_of (fold (\<lambda>level m.
             case map_of ch level of
               None \<Rightarrow> m
             | Some v \<Rightarrow>
                 if should_include_field schema (heading_key level)
                 then AList.update (heading_key level) v m else m) ls m) k = map_of m k" for ls
  proof (induction ls arbitrary: m)
    case Nil
    show ?case by simp
  next
    case (Cons l ls)
    have "k \<noteq> heading_key l" if "should_include_field schema (heading_key l)"
      using that assms by auto
    then show ?case
      by (simp add: Cons.IH map_of_update_other split: option.split)
  qed
  then show ?thesis
    by (simp add: write_back_headings_def)
qed

lemma set_section_path_other:
  "set_section_path m = Inr m' \<Longrightarrow> k \<noteq> ''section_path'' \<Longrightarrow> map_of m' k = map_of m k"
  by (auto simp add: set_section_path_def map_of_update_other split: sum.splits if_splits)

subsection \<open>The heading context never fails on extracted headings\<close>

lemma split_on_not_Nil: "split_on sep s \<noteq> []"
  by (induction s) (simp_all split: list.split)

lemma split_on_heading: "\<exists>b rest. split_on (CHR ''_'') (''heading_'' @ s) = ''heading'' # b # rest"
proof -
  obtain b rest where "split_on (CHR ''_'') s = b # rest"
    using split_on_not_Nil [of "CHR ''_''" s] by (cases "split_on (CHR ''_'') s") auto
  then show ?thesis
    by simp
qed

lemma update_heading_context_heading_level:
  "update_heading_context ch (''heading_level'', v) = Inr ch"
  by (simp add: update_heading_context_def)

lemma update_heading_context_heading_key:
  "\<exists>ch'. update_heading_context ch (heading_key l, v) = Inr ch'"
proof -
  obtain b rest where "split_on (CHR ''_'') (heading_key l) = ''heading'' # b # rest"
    using split_on_heading [of "str_of_int l"] by (auto simp add: heading_key_def)
  then show ?thesis
    by (simp add: update_heading_context_def Let_def split: option.split)
qed

lemma update_heading_contexts_extract:
  "\<exists>ch'. update_heading_contexts ch (extract_heading_metadata text) = Inr ch'"
proof (cases "first_heading (take 5 (split_on (CHR 0x0A) (strip text)))")
  case None
  then show ?thesis
    by (simp add: extract_heading_metadata_def)
next
  case (Some m)
  obtain level g where m: "m = (level, g)"
    by (cases m)
  obtain ch' where "update_heading_context ch (heading_key (int level), JStr (strip g)) = Inr ch'"
    using update_heading_context_heading_key by blast
  then show ?thesis
    using Some m by (simp add: extract_heading_metadata_def update_heading_context_heading_level)
qed


subsection \<open>Fields outside the schema\<close>

lemma get_enriched [simp]:
  "get_text (enriched text metadata) = text"
  "get_metadata (enriched text metadata) = metadata"
  by (simp_all add: enriched_def get_text_def get_metadata_def)

lemma map_of_update_included:
  "should_include_field schema k' \<Longrightarrow> \<not> should_include_field schema k \<Longrightarrow>
     map_of (AList.update k' v m) k = map_of m k"
  by (rule map_of_update_other) auto

lemma extract_heading_metadata_keys:
  "kv \<in> set (extract_heading_metadata text) \<Longrightarrow>
     fst kv = ''heading_level'' \<or> (\<exists>level. fst kv = heading_key level)"
  by (auto simp add: extract_heading_metadata_def split: option.splits)

lemma enrich_chunk_keeps_field:
  assumes k: "\<not> should_include_field schema k"
    and r: "enrich_chunk tiktoken strategy schema n_chunks ch idx c = Inr (c', ch')"
  shows "map_of (get_metadata c') k = map_of (get_metadata c) k"
proof -
  define m1 where "m1 =
    (if \<not> contains_key (get_metadata c) ''token_count'' \<and> should_include_field schema ''token_count''
     then AList.update ''token_count'' (JInt (calculate_token_count tiktoken (get_text c) ''gpt-4''))
            (get_metadata c)
     else get_metadata c)"
  define m2 where "m2 =
    (if should_include_field schema ''position_in_document''
     then AList.update ''position_in_document'' (JInt (int idx)) m1 else m1)"
  define m3 where "m3 =
    (if should_include_field schema ''total_chunks''
     then AList.update ''total_chunks'' (JInt (int n_chunks)) m2 else m2)"
  have m3: "map_of m3 k = map_of (get_metadata c) k"
    using k by (auto simp add: m1_def m2_def m3_def map_of_update_included)
  have filtered: "map_of (dict_update m
      (filter (\<lambda>kv. should_include_field schema (fst kv)) (extract_heading_metadata (get_text c)))) k
      = map_of m k" for m
    using k by (intro map_of_dict_update_other) auto
  have path: "map_of m' k = map_of m k" if "set_section_path m = Inr m'"
    and "should_include_field schema ''section_path''" for m m'
    using that k by (intro set_section_path_other) auto
  consider (by_heading) "strategy = ''by_heading''"
    | (hierarchical) "strategy \<noteq> ''by_heading''" "strategy = ''hierarchical''"
    | (other) "strategy \<noteq> ''by_heading''" "strategy \<noteq> ''hierarchical''"
    by blast
  then show ?thesis
  proof cases
    case by_heading
    with r have "map_of (get_metadata c') k = map_of m3 k"
      unfolding enrich_chunk_def Let_def m1_def [symmetric] m2_def [symmetric] m3_def [symmetric]
      by (auto simp add: path split: if_splits sum.splits)
    then show ?thesis
      using m3 by simp
  next
    case hierarchical
    with r have "map_of (get_metadata c') k = map_of m3 k"
      unfolding enrich_chunk_def Let_def m1_def [symmetric] m2_def [symmetric] m3_def [symmetric]
      by (auto simp add: path filtered dict_update_Nil split: if_splits sum.splits)
    then show ?thesis
      using m3 by simp
  next
    case other
    with r have "map_of (get_metadata c') k = map_of m3 k"
      unfolding enrich_chunk_def Let_def m1_def [symmetric] m2_def [symmetric] m3_def [symmetric]
      by (auto simp add: path filtered dict_update_Nil map_of_write_back_other [OF k]
          split: if_splits sum.splits)
    then show ?thesis
      using m3 by simp
  qed
qed

lemma enrich_loop_keeps_field:
  "\<not> should_include_field schema k \<Longrightarrow>
   enrich_loop tiktoken strategy schema n_chunks ch idx chunks = Inr out \<Longrightarrow>
   list_all2 (\<lambda>c c'. map_of (get_metadata c') k = map_of (get_metadata c) k) chunks out"
proof (induction chunks arbitrary: ch idx out)
  case Nil
  then show ?case by simp
next
  case (Cons c chunks)
  from Cons.prems(2) obtain c' ch' cs where
    c: "enrich_chunk tiktoken strategy schema n_chunks ch idx c = Inr (c', ch')"
    and cs: "enrich_loop tiktoken strategy schema n_chunks ch' (Suc idx) chunks = Inr cs"
    and out: "out = c' # cs"
    by (auto split: sum.splits)
  show ?case
    using enrich_chunk_keeps_field [OF Cons.prems(1) c] Cons.IH [OF Cons.prems(1) cs] out by simp
qed


subsection \<open>A schema with the single field \<open>token_count\<close>\<close>

lemma include_token_count_only:
  "should_include_field (Some [''token_count'']) k = (k = ''token_count'')"
  by (simp add: should_include_field_def)

lemma heading_key_not_token_count:
  "heading_key l \<noteq> ''token_count''" "''token_count'' \<noteq> heading_key l"
  by (simp_all add: heading_key_def)

lemma filter_token_count_only:
  "filter (\<lambda>kv. fst kv = ''token_count'') (extract_heading_metadata text) = []"
  by (auto simp add: filter_empty_conv heading_key_not_token_count
      dest!: extract_heading_metadata_keys)

lemma write_back_token_count_only:
  "write_back_headings (Some [''token_count'']) ch m = m"
proof -
  have "fold (\<lambda>level m.
             case map_of ch level of
               None \<Rightarrow> m
             | Some v \<Rightarrow>
                 if should_include_field (Some [''token_count'']) (heading_key level)
                 then AList.update (heading_key level) v m else m) ls m = m" for ls
    by (induction ls) (simp_all add: include_token_count_only heading_key_not_token_count split: option.split)
  then show ?thesis
    by (simp add: write_back_headings_def)
qed

lemma enrich_chunk_token_count_only:
  "\<exists>ch'. enrich_chunk tiktoken strategy (Some [''token_count'']) n_chunks ch idx c =
     Inr (enriched (get_text c)
            (if contains_key (get_metadata c) ''token_count'' then get_metadata c
             else AList.update ''token_count'' (JInt (calculate_token_count tiktoken (get_text c) ''gpt-4''))
                    (get_metadata c)), ch')"
proof -
  obtain ch1 where "update_heading_contexts ch (extract_heading_metadata (get_text c)) = Inr ch1"
    using update_heading_contexts_extract by blast
  then show ?thesis
    by (simp add: enrich_chunk_def Let_def include_token_count_only filter_token_count_only
        write_back_token_count_only dict_update_Nil)
qed

lemma enrich_loop_token_count_only:
  "enrich_loop tiktoken strategy (Some [''token_count'']) n_chunks ch idx chunks =
     Inr (map (\<lambda>c. enriched (get_text c)
            (if contains_key (get_metadata c) ''token_count'' then get_metadata c
             else AList.update ''token_count'' (JInt (calculate_token_count tiktoken (get_text c) ''gpt-4''))
                    (get_metadata c))) chunks)"
proof (induction chunks arbitrary: ch idx)
  case Nil
  show ?case by simp
next
  case (Cons c chunks)
  obtain ch' where "enrich_chunk tiktoken strategy (Some [''token_count'']) n_chunks ch idx c =
     Inr (enriched (get_text c)
            (if contains_key (get_metadata c) ''token_count'' then get_metadata c
             else AList.update ''token_count'' (JInt (calculate_token_count tiktoken (get_text c) ''gpt-4''))
                    (get_metadata c)), ch')"
    using enrich_chunk_token_count_only by blast
  then show ?case
    by (simp add: Cons.IH)
qed

lemma contains_key_update: "contains_key (AList.update k v m) k"
  by (simp add: contains_key_def update_conv')

text \<open>
  C6.  With the schema \<open>{"token_count"}\<close> enrichment never raises; it returns the chunks
  in order, each with its text and its incoming metadata, to which \<open>token_count\<close> has
  been added when it was absent: so every enriched chunk has \<open>token_count\<close>, and
  \<open>position_in_document\<close>, \<open>total_chunks\<close>, the heading fields and \<open>section_path\<close> are
  as they came in.  In general, for every schema, strategy and chunk sequence, a field
  that the schema does not admit has in every enriched chunk the value (or absence) it
  had in the incoming chunk.
\<close>

theorem schema_filtering:
  "enrich_metadata tiktoken chunks strategy original_text (Some [''token_count'']) =
     Inr (map (\<lambda>c. enriched (get_text c)
            (if contains_key (get_metadata c) ''token_count'' then get_metadata c
             else AList.update ''token_count'' (JInt (calculate_token_count tiktoken (get_text c) ''gpt-4''))
                    (get_metadata c))) chunks) \<and>
   (\<forall>out. enrich_metadata tiktoken chunks strategy original_text (Some [''token_count'']) = Inr out \<longrightarrow>
      (\<forall>c' \<in> set out. contains_key (get_metadata c') ''token_count'')) \<and>
   (\<forall>out k. \<not> should_include_field schema_field_names k \<longrightarrow>
      enrich_metadata tiktoken chunks strategy original_text schema_field_names = Inr out \<longrightarrow>
      list_all2 (\<lambda>c c'. map_of (get_metadata c') k = map_of (get_metadata c) k) chunks out)"
proof (intro conjI allI impI)
  show eq: "enrich_metadata tiktoken chunks strategy original_text (Some [''token_count'']) =
     Inr (map (\<lambda>c. enriched (get_text c)
            (if contains_key (get_metadata c) ''token_count'' then get_metadata c
             else AList.update ''token_count'' (JInt (calculate_token_count tiktoken (get_text c) ''gpt-4''))
                    (get_metadata c))) chunks)"
    by (simp add: enrich_metadata_def enrich_loop_token_count_only)
  fix out
  assume "enrich_metadata tiktoken chunks strategy original_text (Some [''token_count'']) = Inr out"
  with eq show "\<forall>c' \<in> set out. contains_key (get_metadata c') ''token_count''"
    by (auto simp add: contains_key_update)
next
  fix out k
  assume "\<not> should_include_field schema_field_names k"
    and "enrich_metadata tiktoken chunks strategy original_text schema_field_names = Inr out"
  then show "list_all2 (\<lambda>c c'. map_of (get_metadata c') k = map_of (get_metadata c) k) chunks out"
    unfolding enrich_metadata_def by (rule enrich_loop_keeps_field)
qed


theorem schema_filtering_witness:
  "enrich_metadata no_tiktoken heading_example ''semantic'' ''doc'' (Some [''token_count'']) =
     Inr [enriched (''# A'' @ [CHR 0x0A] @ ''...'') [(''token_count'', JInt 1)],
          enriched ''body, no heading'' [(''token_count'', JInt 4)],
          enriched (''## B'' @ [CHR 0x0A] @ ''...'') [(''token_count'', JInt 2)]] \<and>
   list_all2 (\<lambda>c c'. map_of (get_metadata c') ''position_in_document''
                        = map_of (get_metadata c) ''position_in_document'')
     heading_example
     [enriched (''# A'' @ [CHR 0x0A] @ ''...'') [(''heading_1'', JStr ''A''), (''section_path'', JStr ''A'')],
      enriched ''body, no heading'' [(''heading_1'', JStr ''A''), (''section_path'', JStr ''A'')],
      enriched (''## B'' @ [CHR 0x0A] @ ''...'') [(''heading_1'', JStr ''A''), (''section_path'', JStr ''A'')]]"
proof -
  have run: "enrich_metadata no_tiktoken heading_example ''semantic'' ''doc''
      (Some [''heading_1'', ''section_path'']) =
    Inr [enriched (''# A'' @ [CHR 0x0A] @ ''...'') [(''heading_1'', JStr ''A''), (''section_path'', JStr ''A'')],
         enriched ''body, no heading'' [(''heading_1'', JStr ''A''), (''section_path'', JStr ''A'')],
         enriched (''## B'' @ [CHR 0x0A] @ ''...'') [(''heading_1'', JStr ''A''), (''section_path'', JStr ''A'')]]"
    by code_simp
  have out: "\<not> should_include_field (Some [''heading_1'', ''section_path'']) ''position_in_document''"
    by (simp add: should_include_field_def)
  have counts: "calculate_token_count no_tiktoken (''# A'' @ [CHR 0x0A] @ ''...'') ''gpt-4'' = 1"
    "calculate_token_count no_tiktoken ''body, no heading'' ''gpt-4'' = 4"
    "calculate_token_count no_tiktoken (''## B'' @ [CHR 0x0A] @ ''...'') ''gpt-4'' = 2"
    by (simp_all add: calculate_token_count_def no_tiktoken_def)
  note sf = schema_filtering [where tiktoken = no_tiktoken and chunks = heading_example
      and strategy = "''semantic''" and original_text = "''doc''"
      and schema_field_names = "Some [''heading_1'', ''section_path'']"]
  have "enrich_metadata no_tiktoken heading_example ''semantic'' ''doc'' (Some [''token_count'']) =
     Inr [enriched (''# A'' @ [CHR 0x0A] @ ''...'') [(''token_count'', JInt 1)],
          enriched ''body, no heading'' [(''token_count'', JInt 4)],
          enriched (''## B'' @ [CHR 0x0A] @ ''...'') [(''token_count'', JInt 2)]]"
    using sf [THEN conjunct1] counts
    by (simp add: heading_example_def get_text_def get_metadata_def contains_key_def)
  moreover have "list_all2 (\<lambda>c c'. map_of (get_metadata c') ''position_in_document''
                        = map_of (get_metadata c) ''position_in_document'')
     heading_example
     [enriched (''# A'' @ [CHR 0x0A] @ ''...'') [(''heading_1'', JStr ''A''), (''section_path'', JStr ''A'')],
      enriched ''body, no heading'' [(''heading_1'', JStr ''A''), (''section_path'', JStr ''A'')],
      enriched (''## B'' @ [CHR 0x0A] @ ''...'') [(''heading_1'', JStr ''A''), (''section_path'', JStr ''A'')]]"
    using sf [THEN conjunct2, THEN conjunct2, rule_format, OF out run] .
  ultimately show ?thesis
    by (rule conjI)
qed


subsection \<open>Heading keys of the six levels\<close>

lemma heading_key_levels:
  "heading_key 1 = ''heading_1''" "heading_key 2 = ''heading_2''" "heading_key 3 = ''heading_3''"
  "heading_key 4 = ''heading_4''" "heading_key 5 = ''heading_5''" "heading_key 6 = ''heading_6''"
  by code_simp+

lemma level_cases:
  fixes l :: int
  assumes "1 \<le> l" "l \<le> 6"
  obtains "l = 1" | "l = 2" | "l = 3" | "l = 4" | "l = 5" | "l = 6"
  using assms by arith

lemma heading_key_inj:
  assumes "1 \<le> l" "l \<le> 6" "1 \<le> l'" "l' \<le> 6" "heading_key l = heading_key l'"
  shows "l = l'"
  using assms(1,2)
proof (cases l rule: level_cases)
  case 1 with assms(3-5) show ?thesis by (cases l' rule: level_cases) (simp_all add: heading_key_levels)
next
  case 2 with assms(3-5) show ?thesis by (cases l' rule: level_cases) (simp_all add: heading_key_levels)
next
  case 3 with assms(3-5) show ?thesis by (cases l' rule: level_cases) (simp_all add: heading_key_levels)
next
  case 4 with assms(3-5) show ?thesis by (cases l' rule: level_cases) (simp_all add: heading_key_levels)
next
  case 5 with assms(3-5) show ?thesis by (cases l' rule: level_cases) (simp_all add: heading_key_levels)
next
  case 6 with assms(3-5) show ?thesis by (cases l' rule: level_cases) (simp_all add: heading_key_levels)
qed

lemma heading_key_not_other:
  "heading_key l \<noteq> ''heading_level''" "heading_key l \<noteq> ''section_path''"
  "heading_key l \<noteq> ''position_in_document''" "heading_key l \<noteq> ''total_chunks''"
  if "1 \<le> l" "l \<le> 6"
  using that by (cases l rule: level_cases; simp add: heading_key_levels)+

lemma heading_key_parse:
  "startswith (heading_key 1) ''heading_'' \<and> split_on (CHR ''_'') (heading_key 1) = [''heading'', ''1''] \<and> py_int ''1'' = Some 1"
  "startswith (heading_key 2) ''heading_'' \<and> split_on (CHR ''_'') (heading_key 2) = [''heading'', ''2''] \<and> py_int ''2'' = Some 2"
  "startswith (heading_key 3) ''heading_'' \<and> split_on (CHR ''_'') (heading_key 3) = [''heading'', ''3''] \<and> py_int ''3'' = Some 3"
  "startswith (heading_key 4) ''heading_'' \<and> split_on (CHR ''_'') (heading_key 4) = [''heading'', ''4''] \<and> py_int ''4'' = Some 4"
  "startswith (heading_key 5) ''heading_'' \<and> split_on (CHR ''_'') (heading_key 5) = [''heading'', ''5''] \<and> py_int ''5'' = Some 5"
  "startswith (heading_key 6) ''heading_'' \<and> split_on (CHR ''_'') (heading_key 6) = [''heading'', ''6''] \<and> py_int ''6'' = Some 6"
  by code_simp+

lemma update_heading_context_level:
  assumes "1 \<le> l" "l \<le> 6"
  shows "update_heading_context ch (heading_key l, v)
    = Inr (fold AList.delete [l + 1..6] (AList.update l v ch))"
  using assms
  by (cases l rule: level_cases)
    (simp_all add: update_heading_context_def Let_def heading_key_parse heading_key_not_other)

lemma map_of_fold_delete:
  "map_of (fold AList.delete ls al) k = (if k \<in> set ls then None else map_of al k)"
  by (induction ls arbitrary: al) (simp_all add: delete_conv')

lemma map_of_context_update:
  "map_of (fold AList.delete [l + 1..6] (AList.update l v ch)) k
     = (if k = l then Some v else if l < k \<and> k \<le> 6 then None else map_of ch k)"
  by (auto simp add: map_of_fold_delete update_conv')

lemma heading_text_cases:
  "(case v of JStr t \<Rightarrow> t \<noteq> [] | _ \<Rightarrow> False) \<longleftrightarrow> (\<exists>t. v = JStr t \<and> t \<noteq> [])"
  by (cases v) simp_all

lemma heading_context_ok_iff:
  "heading_context_ok ch \<longleftrightarrow>
     (\<forall>l v. (l, v) \<in> set ch \<longrightarrow> 1 \<le> l \<and> l \<le> 6 \<and> (\<exists>t. v = JStr t \<and> t \<noteq> []))"
  unfolding heading_context_ok_def list_all_iff heading_text_cases
  by force

lemma set_delete_subset: "set (AList.delete k al) \<subseteq> set al"
  by (auto simp add: AList.delete_eq)

lemma set_fold_delete_subset: "set (fold AList.delete ls al) \<subseteq> set al"
proof (induction ls arbitrary: al)
  case Nil
  show ?case by simp
next
  case (Cons k ls)
  have "set (fold AList.delete ls (AList.delete k al)) \<subseteq> set (AList.delete k al)"
    by (rule Cons.IH)
  then show ?case
    using set_delete_subset [of k al] by auto
qed

lemma set_update_subset: "set (AList.update k v al) \<subseteq> insert (k, v) (set al)"
  by (induction al) auto

lemma heading_context_ok_update:
  assumes ok: "heading_context_ok ch" and l: "1 \<le> l" "l \<le> 6" and t: "t \<noteq> []"
  shows "heading_context_ok (fold AList.delete [l + 1..6] (AList.update l (JStr t) ch))"
  unfolding heading_context_ok_iff
proof (intro allI impI)
  fix l' v
  assume "(l', v) \<in> set (fold AList.delete [l + 1..6] (AList.update l (JStr t) ch))"
  then have "(l', v) \<in> set (AList.update l (JStr t) ch)"
    using set_fold_delete_subset by fast
  then have "(l', v) = (l, JStr t) \<or> (l', v) \<in> set ch"
    using set_update_subset by fast
  then show "1 \<le> l' \<and> l' \<le> 6 \<and> (\<exists>t. v = JStr t \<and> t \<noteq> [])"
  proof
    assume "(l', v) = (l, JStr t)"
    then show ?thesis
      using l t by simp
  next
    assume "(l', v) \<in> set ch"
    then show ?thesis
      using ok unfolding heading_context_ok_iff by simp
  qed
qed

lemma heading_context_ok_map_of:
  assumes "heading_context_ok ch" "map_of ch l = Some v"
  shows "1 \<le> l \<and> l \<le> 6 \<and> (\<exists>t. v = JStr t \<and> t \<noteq> [])"
proof -
  have "(l, v) \<in> set ch"
    using assms(2) by (rule map_of_SomeD)
  then show ?thesis
    using assms(1) unfolding heading_context_ok_iff by simp
qed


subsection \<open>What heading extraction returns\<close>

lemma strip_nonempty:
  assumes "g \<noteq> []" "\<not> isspace (hd g)"
  shows "strip g \<noteq> []"
proof -
  obtain c cs where g: "g = c # cs"
    using assms(1) by (cases g) auto
  then have "dropWhile isspace g = g"
    using assms(2) by simp
  moreover have "dropWhile isspace (rev g) \<noteq> []"
    using g assms(2) by (simp add: dropWhile_append)
  ultimately show ?thesis
    by (simp add: strip_def)
qed

lemma match_heading_Some:
  assumes "match_heading line = Some (n, g)"
  shows "1 \<le> n \<and> n \<le> 6 \<and> strip g \<noteq> []"
proof -
  let ?rest = "dropWhile (\<lambda>c. c = CHR ''#'') line"
  from assms have n: "1 \<le> n" "n \<le> 6" and g: "g = dropWhile isspace ?rest" "g \<noteq> []"
    by (auto simp add: match_heading_def Let_def split: if_splits)
  have "\<not> isspace (hd g)"
    using g hd_dropWhile [of isspace ?rest] by simp
  then show ?thesis
    using n g(2) strip_nonempty by simp
qed

lemma first_heading_Some:
  "first_heading lines = Some (n, g) \<Longrightarrow> 1 \<le> n \<and> n \<le> 6 \<and> strip g \<noteq> []"
proof (induction lines)
  case Nil
  then show ?case by simp
next
  case (Cons line lines)
  show ?case
  proof (cases "match_heading (strip line)")
    case None
    with Cons show ?thesis by simp
  next
    case (Some m)
    with Cons.prems have "match_heading (strip line) = Some (n, g)"
      by simp
    then show ?thesis
      by (rule match_heading_Some)
  qed
qed

text \<open>
  The extracted heading metadata is empty, or it is one heading of a level between 1
  and 6 with a non-empty text, followed by the level.
\<close>

lemma extract_heading_metadata_cases:
  obtains (none) "extract_heading_metadata text = []"
  | (heading) n t where "1 \<le> n" "n \<le> 6" "t \<noteq> []"
      "extract_heading_metadata text = [(heading_key n, JStr t), (''heading_level'', JInt n)]"
proof (cases "first_heading (take 5 (split_on (CHR 0x0A) (strip text)))")
  case None
  then have "extract_heading_metadata text = []"
    by (simp add: extract_heading_metadata_def)
  then show ?thesis
    by (rule none)
next
  case (Some m)
  obtain n g where m: "m = (n, g)"
    by (cases m)
  have "1 \<le> n \<and> n \<le> 6 \<and> strip g \<noteq> []"
    using Some m first_heading_Some by simp
  moreover have "extract_heading_metadata text
      = [(heading_key (int n), JStr (strip g)), (''heading_level'', JInt (int n))]"
    using Some m by (simp add: extract_heading_metadata_def)
  ultimately show ?thesis
    using heading [of "int n" "strip g"] by simp
qed

lemma update_heading_contexts_heading:
  assumes "1 \<le> n" "n \<le> 6"
  shows "update_heading_contexts ch [(heading_key n, v), (''heading_level'', w)]
    = Inr (fold AList.delete [n + 1..6] (AList.update n v ch))"
  using assms by (simp add: update_heading_context_level update_heading_context_heading_level)


subsection \<open>Writing the context back and building the path\<close>

lemma include_all: "should_include_field None k"
  by (simp add: should_include_field_def)

lemma map_of_write_back_fold:
  assumes "1 \<le> l" "l \<le> 6" and "\<forall>a \<in> set ls. 1 \<le> a \<and> a \<le> 6"
  shows "map_of (fold (\<lambda>level m.
             case map_of ch level of
               None \<Rightarrow> m
             | Some v \<Rightarrow>
                 if should_include_field None (heading_key level)
                 then AList.update (heading_key level) v m else m) ls m) (heading_key l)
    = (if l \<in> set ls \<and> map_of ch l \<noteq> None then map_of ch l else map_of m (heading_key l))"
  using assms(3)
proof (induction ls arbitrary: m)
  case Nil
  show ?case by simp
next
  case (Cons a ls)
  let ?F = "\<lambda>level m.
             case map_of ch level of
               None \<Rightarrow> m
             | Some v \<Rightarrow>
                 if should_include_field None (heading_key level)
                 then AList.update (heading_key level) v m else m"
  have a: "1 \<le> a" "a \<le> 6" and ls: "\<forall>a \<in> set ls. 1 \<le> a \<and> a \<le> 6"
    using Cons.prems by simp_all
  have step: "map_of (?F a m) (heading_key l)
      = (if a = l \<and> map_of ch l \<noteq> None then map_of ch l else map_of m (heading_key l))"
  proof (cases "a = l")
    case True
    then show ?thesis
      by (simp add: include_all update_conv' split: option.split)
  next
    case False
    then have "heading_key l \<noteq> heading_key a"
      using heading_key_inj [OF assms(1,2) a] by blast
    then show ?thesis
      using False by (simp add: include_all map_of_update_other split: option.split)
  qed
  have "map_of (fold ?F (a # ls) m) (heading_key l) = map_of (fold ?F ls (?F a m)) (heading_key l)"
    by simp
  also have "\<dots> = (if l \<in> set ls \<and> map_of ch l \<noteq> None then map_of ch l
      else map_of (?F a m) (heading_key l))"
    using ls by (rule Cons.IH)
  finally show ?case
    using step by auto
qed

lemma map_of_write_back_level:
  assumes "heading_context_ok ch" "1 \<le> l" "l \<le> 6"
  shows "map_of (write_back_headings None ch m) (heading_key l)
    = (case map_of ch l of None \<Rightarrow> map_of m (heading_key l) | Some v \<Rightarrow> Some v)"
proof -
  have levels: "\<forall>a \<in> set (sort (map fst ch)). 1 \<le> a \<and> a \<le> 6"
    using assms(1) unfolding heading_context_ok_iff by auto
  have "l \<in> set (sort (map fst ch))" if "map_of ch l = Some v" for v
    using map_of_SomeD [OF that] by force
  then show ?thesis
    unfolding write_back_headings_def map_of_write_back_fold [OF assms(2,3) levels]
    by (auto split: option.split)
qed

lemma str_parts_strings: "str_parts (map JStr ss) = Inr ss"
  by (induction ss) simp_all

lemma build_section_path_context:
  assumes ok: "heading_context_ok ch"
    and same: "\<And>l. 1 \<le> l \<Longrightarrow> l \<le> 6 \<Longrightarrow> map_of m (heading_key l) = map_of ch l"
  shows "build_section_path m = Inr (context_path ch)"
proof -
  let ?g = "\<lambda>level. case map_of ch level of Some (JStr t) \<Rightarrow> [t] | _ \<Rightarrow> []"
  have part: "(case map_of m (heading_key l) of None \<Rightarrow> [] | Some v \<Rightarrow> if truthy v then [v] else [])
      = map JStr (?g l)" if "1 \<le> l" "l \<le> 6" for l
  proof (cases "map_of ch l")
    case None
    then show ?thesis
      using same [OF that] by simp
  next
    case (Some v)
    then obtain t where "v = JStr t" "t \<noteq> []"
      using heading_context_ok_map_of [OF ok] by blast
    then show ?thesis
      using Some same [OF that] by simp
  qed
  define ss where "ss = concat (map ?g [1, 2, 3, 4, 5, 6])"
  have "concat (map (\<lambda>level. case map_of m (heading_key level) of
                                    None \<Rightarrow> []
                                  | Some v \<Rightarrow> if truthy v then [v] else []) [1, 2, 3, 4, 5, 6])
      = map JStr ss"
    by (simp add: part ss_def)
  then have "build_section_path m = (if map JStr ss \<noteq> [] then py_join '' > '' (map JStr ss) else Inr [])"
    by (simp only: build_section_path_def Let_def)
  also have "\<dots> = Inr (join '' > '' ss)"
  proof (cases "ss = []")
    case True
    then show ?thesis by simp
  next
    case False
    then show ?thesis
      by (simp add: py_join_def str_parts_strings)
  qed
  finally show ?thesis
    by (simp only: context_path_def ss_def)
qed

lemma join_Nil_iff: "join sep ss = [] \<Longrightarrow> s \<in> set ss \<Longrightarrow> s = []"
  by (induction sep ss rule: join.induct) auto

lemma context_path_nonempty:
  assumes "heading_context_ok ch" "ch \<noteq> []"
  shows "context_path ch \<noteq> []"
proof -
  obtain l v rest where ch: "ch = (l, v) # rest"
    using assms(2) by (cases ch) auto
  then have m: "map_of ch l = Some v"
    by simp
  then obtain t where t: "v = JStr t" "t \<noteq> []" and l: "1 \<le> l" "l \<le> 6"
    using heading_context_ok_map_of [OF assms(1)] by blast
  have "l \<in> set [1, 2, 3, 4, 5, 6]"
    using l by (cases l rule: level_cases) simp_all
  then have "t \<in> set (concat (map (\<lambda>level. case map_of ch level of Some (JStr t) \<Rightarrow> [t] | _ \<Rightarrow> [])
          [1, 2, 3, 4, 5, 6]))"
    using m t unfolding set_concat by force
  then show ?thesis
    unfolding context_path_def using join_Nil_iff t(2) by blast
qed


subsection \<open>One chunk under a strategy that tracks headings\<close>

lemma no_heading_fields_iff:
  "no_heading_fields m \<longleftrightarrow> (\<forall>l. 1 \<le> l \<and> l \<le> 6 \<longrightarrow> map_of m (heading_key l) = None)"
proof
  assume "no_heading_fields m"
  then have six: "map_of m (heading_key 1) = None" "map_of m (heading_key 2) = None"
    "map_of m (heading_key 3) = None" "map_of m (heading_key 4) = None"
    "map_of m (heading_key 5) = None" "map_of m (heading_key 6) = None"
    by (simp_all add: no_heading_fields_def)
  show "\<forall>l. 1 \<le> l \<and> l \<le> 6 \<longrightarrow> map_of m (heading_key l) = None"
  proof (intro allI impI)
    fix l :: int
    assume "1 \<le> l \<and> l \<le> 6"
    then have "1 \<le> l" "l \<le> 6" by simp_all
    then show "map_of m (heading_key l) = None"
      by (cases l rule: level_cases) (simp_all add: six)
  qed
next
  assume "\<forall>l. 1 \<le> l \<and> l \<le> 6 \<longrightarrow> map_of m (heading_key l) = None"
  then show "no_heading_fields m"
    by (simp add: no_heading_fields_def)
qed

lemma enrich_chunk_other_strategy:
  assumes s: "strategy \<noteq> ''by_heading''" "strategy \<noteq> ''hierarchical''"
    and ok: "heading_context_ok ch"
    and fresh: "no_heading_fields (get_metadata c)"
  obtains c' ch' where
    "enrich_chunk tiktoken strategy None n_chunks ch idx c = Inr (c', ch')"
    "update_heading_contexts ch (extract_heading_metadata (get_text c)) = Inr ch'"
    "heading_context_ok ch'"
    "get_text c' = get_text c"
    "\<And>l. 1 \<le> l \<Longrightarrow> l \<le> 6 \<Longrightarrow> map_of (get_metadata c') (heading_key l) = map_of ch' l"
    "ch' \<noteq> [] \<Longrightarrow> map_of (get_metadata c') ''section_path'' = Some (JStr (context_path ch'))"
    "ch' = [] \<Longrightarrow> map_of (get_metadata c') ''section_path'' = map_of (get_metadata c) ''section_path''"
proof -
  define m1 where "m1 =
    (if \<not> contains_key (get_metadata c) ''token_count'' \<and> should_include_field None ''token_count''
     then AList.update ''token_count'' (JInt (calculate_token_count tiktoken (get_text c) ''gpt-4''))
            (get_metadata c)
     else get_metadata c)"
  define m2 where "m2 =
    (if should_include_field None ''position_in_document''
     then AList.update ''position_in_document'' (JInt (int idx)) m1 else m1)"
  define m3 where "m3 =
    (if should_include_field None ''total_chunks''
     then AList.update ''total_chunks'' (JInt (int n_chunks)) m2 else m2)"
  have m3_level: "map_of m3 (heading_key l) = None" if "1 \<le> l" "l \<le> 6" for l
    using fresh that heading_key_not_other [OF that] heading_key_not_token_count [of l]
    by (simp add: m1_def m2_def m3_def no_heading_fields_iff map_of_update_other)
  have m3_path: "map_of m3 ''section_path'' = map_of (get_metadata c) ''section_path''"
    by (simp add: m1_def m2_def m3_def map_of_update_other)
  define h where "h = extract_heading_metadata (get_text c)"
  obtain ch' m4 where
    ch': "update_heading_contexts ch h = Inr ch'" and ok': "heading_context_ok ch'"
    and m4: "m4 = (if h \<noteq> [] then dict_update m3 h else m3)"
    and m4_level: "\<And>l. 1 \<le> l \<Longrightarrow> l \<le> 6 \<Longrightarrow> map_of ch' l = None \<Longrightarrow> map_of m4 (heading_key l) = None"
    and m4_path: "map_of m4 ''section_path'' = map_of (get_metadata c) ''section_path''"
  proof (cases "get_text c" rule: extract_heading_metadata_cases)
    case none
    then show ?thesis
      using that [of ch m3] ok m3_level m3_path by (simp add: h_def)
  next
    case (heading n t)
    let ?ch = "fold AList.delete [n + 1..6] (AList.update n (JStr t) ch)"
    have "update_heading_contexts ch h = Inr ?ch"
      unfolding h_def heading(4) using heading(1,2) by (rule update_heading_contexts_heading)
    moreover have "heading_context_ok ?ch"
      using ok heading(1-3) by (rule heading_context_ok_update)
    moreover have "map_of (dict_update m3 h) (heading_key l) = None"
      if "1 \<le> l" "l \<le> 6" "map_of ?ch l = None" for l
    proof -
      have "l \<noteq> n"
        using that(3) by (auto simp add: map_of_context_update)
      then have "heading_key l \<noteq> heading_key n"
        using heading_key_inj [OF that(1,2) heading(1,2)] by blast
      then show ?thesis
        using m3_level [OF that(1,2)] heading_key_not_other [OF that(1,2)]
        by (simp add: h_def heading(4) dict_update_def map_of_update_other)
    qed
    moreover have "map_of (dict_update m3 h) ''section_path'' = map_of (get_metadata c) ''section_path''"
      using m3_path heading_key_not_other [OF heading(1,2)]
      by (simp add: h_def heading(4) dict_update_def map_of_update_other)
    moreover have "h \<noteq> []"
      by (simp add: h_def heading(4))
    ultimately show ?thesis
      using that [of ?ch "dict_update m3 h"] by simp
  qed
  have step: "(if h \<noteq> [] then
                       (case update_heading_contexts ch h of
                          Inl e \<Rightarrow> Inl e
                        | Inr current_headings \<Rightarrow>
                            Inr (current_headings,
                                 dict_update m3 (filter (\<lambda>kv. should_include_field None (fst kv)) h)))
                     else Inr (ch, m3)) = Inr (ch', m4)"
    using ch' m4 by (auto simp add: include_all)
  show ?thesis
  proof (cases "ch' = []")
    case True
    have "enrich_chunk tiktoken strategy None n_chunks ch idx c = Inr (enriched (get_text c) m4, ch')"
      using s True
      unfolding enrich_chunk_def Let_def m1_def [symmetric] m2_def [symmetric] m3_def [symmetric]
        h_def [symmetric] step
      by simp
    then show ?thesis
      using that [of "enriched (get_text c) m4" ch'] ch' ok' True m4_path m4_level
      by (simp add: h_def)
  next
    case False
    define m5 where "m5 = write_back_headings None ch' m4"
    have m5_level: "map_of m5 (heading_key l) = map_of ch' l" if "1 \<le> l" "l \<le> 6" for l
      using map_of_write_back_level [OF ok' that, of m4] m4_level [OF that]
      by (cases "map_of ch' l") (simp_all add: m5_def)
    have path: "build_section_path m5 = Inr (context_path ch')"
      using ok' m5_level by (rule build_section_path_context)
    have ne: "context_path ch' \<noteq> []"
      using ok' False by (rule context_path_nonempty)
    define m6 where "m6 = AList.update ''section_path'' (JStr (context_path ch')) m5"
    have set: "set_section_path m5 = Inr m6"
      using path ne by (simp add: set_section_path_def m6_def)
    have "enrich_chunk tiktoken strategy None n_chunks ch idx c = Inr (enriched (get_text c) m6, ch')"
      using s False
      unfolding enrich_chunk_def Let_def m1_def [symmetric] m2_def [symmetric] m3_def [symmetric]
        h_def [symmetric] step
      by (simp add: include_all m5_def [symmetric] set)
    moreover have "map_of m6 (heading_key l) = map_of ch' l" if "1 \<le> l" "l \<le> 6" for l
      using m5_level [OF that] heading_key_not_other [OF that] by (simp add: m6_def map_of_update_other)
    moreover have "map_of m6 ''section_path'' = Some (JStr (context_path ch'))"
      by (simp add: m6_def update_conv')
    ultimately show ?thesis
      using that [of "enriched (get_text c) m6" ch'] ch' ok' False by (simp add: h_def)
  qed
qed


lemma build_section_path_cong:
  assumes "\<And>l. 1 \<le> l \<Longrightarrow> l \<le> 6 \<Longrightarrow> map_of m (heading_key l) = map_of m' (heading_key l)"
  shows "build_section_path m = build_section_path m'"
proof -
  have "map_of m (heading_key l) = map_of m' (heading_key l)" if "l \<in> set [1, 2, 3, 4, 5, 6]" for l
    using that assms by auto
  then have "map (\<lambda>level. case map_of m (heading_key level) of
                                    None \<Rightarrow> []
                                  | Some v \<Rightarrow> if truthy v then [v] else []) [1, 2, 3, 4, 5, 6]
      = map (\<lambda>level. case map_of m' (heading_key level) of
                                    None \<Rightarrow> []
                                  | Some v \<Rightarrow> if truthy v then [v] else []) [1, 2, 3, 4, 5, 6]"
    by (intro map_cong) (simp_all del: set_simps)
  then show ?thesis
    by (simp only: build_section_path_def)
qed

lemma str_parts_Inr: "str_parts vs = Inr ss \<Longrightarrow> vs = map JStr ss"
  by (induction vs arbitrary: ss rule: str_parts.induct) (auto split: sum.splits)

lemma build_section_path_nonempty:
  assumes "build_section_path m = Inr sp" and l: "1 \<le> l" "l \<le> 6"
    and "map_of m (heading_key l) = Some (JStr t)" "t \<noteq> []"
  shows "sp \<noteq> []"
proof -
  define parts where "parts = concat (map (\<lambda>level. case map_of m (heading_key level) of
                                    None \<Rightarrow> []
                                  | Some v \<Rightarrow> if truthy v then [v] else []) [1, 2, 3, 4, 5, 6])"
  have "l \<in> set [1, 2, 3, 4, 5, 6]"
    using l by (cases l rule: level_cases) simp_all
  then have t: "JStr t \<in> set parts"
    unfolding parts_def set_concat using assms(4,5) by force
  then have "parts \<noteq> []"
    by auto
  moreover have "(if parts \<noteq> [] then py_join '' > '' parts else Inr []) = Inr sp"
    using assms(1) unfolding build_section_path_def Let_def parts_def [symmetric] .
  ultimately have "py_join '' > '' parts = Inr sp"
    by simp
  then obtain ss where ss: "str_parts parts = Inr ss" "sp = join '' > '' ss"
    by (auto simp add: py_join_def split: sum.splits)
  then have "t \<in> set ss"
    using t str_parts_Inr [OF ss(1)] by auto
  then have "join '' > '' ss = [] \<Longrightarrow> t = []"
    by (rule join_Nil_iff [rotated])
  then show ?thesis
    using ss(2) assms(5) by auto
qed

lemma enrich_chunk_other_result:
  assumes s: "strategy \<noteq> ''by_heading''" "strategy \<noteq> ''hierarchical''"
    and ok: "heading_context_ok ch"
    and r: "enrich_chunk tiktoken strategy None n_chunks ch idx c = Inr (c', ch')"
  shows "update_heading_contexts ch (extract_heading_metadata (get_text c)) = Inr ch'"
    and "\<And>l v. map_of ch' l = Some v \<Longrightarrow> map_of (get_metadata c') (heading_key l) = Some v"
    and "ch' \<noteq> [] \<Longrightarrow> \<exists>sp. build_section_path (get_metadata c') = Inr sp \<and> sp \<noteq> [] \<and>
           map_of (get_metadata c') ''section_path'' = Some (JStr sp)"
proof -
  define m1 where "m1 =
    (if \<not> contains_key (get_metadata c) ''token_count'' \<and> should_include_field None ''token_count''
     then AList.update ''token_count'' (JInt (calculate_token_count tiktoken (get_text c) ''gpt-4''))
            (get_metadata c)
     else get_metadata c)"
  define m2 where "m2 =
    (if should_include_field None ''position_in_document''
     then AList.update ''position_in_document'' (JInt (int idx)) m1 else m1)"
  define m3 where "m3 =
    (if should_include_field None ''total_chunks''
     then AList.update ''total_chunks'' (JInt (int n_chunks)) m2 else m2)"
  define h where "h = extract_heading_metadata (get_text c)"
  define m4 where "m4 = (if h \<noteq> [] then dict_update m3 h else m3)"
  obtain ch1 where ch1: "update_heading_contexts ch h = Inr ch1" and ok1: "heading_context_ok ch1"
  proof (cases "get_text c" rule: extract_heading_metadata_cases)
    case none
    then show ?thesis
      using that [of ch] ok by (simp add: h_def)
  next
    case (heading n t)
    show ?thesis
      using that [of "fold AList.delete [n + 1..6] (AList.update n (JStr t) ch)"]
        update_heading_contexts_heading [OF heading(1,2)] heading_context_ok_update [OF ok heading(1-3)]
      by (simp add: h_def heading(4))
  qed
  have step: "(if h \<noteq> [] then
                       (case update_heading_contexts ch h of
                          Inl e \<Rightarrow> Inl e
                        | Inr current_headings \<Rightarrow>
                            Inr (current_headings,
                                 dict_update m3 (filter (\<lambda>kv. should_include_field None (fst kv)) h)))
                     else Inr (ch, m3)) = Inr (ch1, m4)"
    using ch1 by (auto simp add: include_all m4_def)
  have "ch' = ch1 \<and> (\<forall>l v. map_of ch' l = Some v \<longrightarrow> map_of (get_metadata c') (heading_key l) = Some v)
    \<and> (ch' \<noteq> [] \<longrightarrow> (\<exists>sp. build_section_path (get_metadata c') = Inr sp \<and> sp \<noteq> [] \<and>
           map_of (get_metadata c') ''section_path'' = Some (JStr sp)))"
  proof (cases "ch1 = []")
    case True
    have "enrich_chunk tiktoken strategy None n_chunks ch idx c = Inr (enriched (get_text c) m4, ch1)"
      using s True
      unfolding enrich_chunk_def Let_def m1_def [symmetric] m2_def [symmetric] m3_def [symmetric]
        h_def [symmetric] step
      by simp
    then show ?thesis
      using r True by simp
  next
    case False
    define m5 where "m5 = write_back_headings None ch1 m4"
    have "enrich_chunk tiktoken strategy None n_chunks ch idx c =
        (case set_section_path m5 of
           Inl e \<Rightarrow> Inl e
         | Inr metadata \<Rightarrow> Inr (enriched (get_text c) metadata, ch1))"
      using s False
      unfolding enrich_chunk_def Let_def m1_def [symmetric] m2_def [symmetric] m3_def [symmetric]
        h_def [symmetric] step
      by (simp add: include_all m5_def [symmetric])
    then obtain m6 where m6: "set_section_path m5 = Inr m6" and c': "c' = enriched (get_text c) m6"
      and ch': "ch' = ch1"
      using r by (auto split: sum.splits)
    obtain sp where sp: "build_section_path m5 = Inr sp"
      and m6_def: "m6 = (if sp \<noteq> [] then AList.update ''section_path'' (JStr sp) m5 else m5)"
      using m6 by (auto simp add: set_section_path_def split: sum.splits)
    have m5_level: "map_of m5 (heading_key l) = Some v" if "map_of ch1 l = Some v" for l v
    proof -
      have "1 \<le> l" "l \<le> 6"
        using heading_context_ok_map_of [OF ok1 that] by simp_all
      then show ?thesis
        using map_of_write_back_level [OF ok1, of l m4] that by (simp add: m5_def)
    qed
    obtain l0 v0 rest where "ch1 = (l0, v0) # rest"
      using False by (cases ch1) auto
    then have first: "map_of ch1 l0 = Some v0"
      by simp
    obtain t0 where t0: "1 \<le> l0" "l0 \<le> 6" "v0 = JStr t0" "t0 \<noteq> []"
      using heading_context_ok_map_of [OF ok1 first] by blast
    have ne: "sp \<noteq> []"
      using sp t0(1,2) m5_level [OF first, unfolded t0(3)] t0(4) by (rule build_section_path_nonempty)
    have m6: "m6 = AList.update ''section_path'' (JStr sp) m5"
      using m6_def ne by simp
    have m6_level: "map_of m6 (heading_key l) = map_of m5 (heading_key l)" if "1 \<le> l" "l \<le> 6" for l
      using heading_key_not_other [OF that] by (simp add: m6 map_of_update_other)
    have "map_of m6 (heading_key l) = Some v" if "map_of ch1 l = Some v" for l v
      using m5_level [OF that] m6_level heading_context_ok_map_of [OF ok1 that] by simp
    moreover have "build_section_path m6 = Inr sp"
      using build_section_path_cong [of m6 m5] m6_level sp by simp
    moreover have "map_of m6 ''section_path'' = Some (JStr sp)"
      by (simp add: m6 update_conv')
    ultimately show ?thesis
      using c' ch' ne by auto
  qed
  then show "update_heading_contexts ch (extract_heading_metadata (get_text c)) = Inr ch'"
    and "\<And>l v. map_of ch' l = Some v \<Longrightarrow> map_of (get_metadata c') (heading_key l) = Some v"
    and "ch' \<noteq> [] \<Longrightarrow> \<exists>sp. build_section_path (get_metadata c') = Inr sp \<and> sp \<noteq> [] \<and>
           map_of (get_metadata c') ''section_path'' = Some (JStr sp)"
    using ch1 by (simp_all add: h_def)
qed


subsection \<open>The three chunks of the example\<close>

lemma heading_example_extract:
  "extract_heading_metadata (''# A'' @ [CHR 0x0A] @ ''...'') = [(''heading_1'', JStr ''A''), (''heading_level'', JInt 1)]"
  "extract_heading_metadata ''body, no heading'' = []"
  "extract_heading_metadata (''## B'' @ [CHR 0x0A] @ ''...'') = [(''heading_2'', JStr ''B''), (''heading_level'', JInt 2)]"
  by code_simp+

lemma heading_example_contexts:
  "update_heading_contexts [] [(''heading_1'', JStr ''A''), (''heading_level'', JInt 1)] = Inr [(1, JStr ''A'')]"
  "update_heading_contexts [(1, JStr ''A'')] [(''heading_2'', JStr ''B''), (''heading_level'', JInt 2)]
     = Inr [(1, JStr ''A''), (2, JStr ''B'')]"
  "context_path [(1, JStr ''A'')] = ''A''"
  "context_path [(1, JStr ''A''), (2, JStr ''B'')] = ''A > B''"
  by code_simp+

lemma heading_example_enriched:
  assumes s: "strategy \<noteq> ''by_heading''" "strategy \<noteq> ''hierarchical''"
    and texts: "get_text c1 = ''# A'' @ [CHR 0x0A] @ ''...''" "get_text c2 = ''body, no heading''"
      "get_text c3 = ''## B'' @ [CHR 0x0A] @ ''...''"
    and fresh: "no_heading_fields (get_metadata c1)" "no_heading_fields (get_metadata c2)"
      "no_heading_fields (get_metadata c3)"
  shows "\<exists>e1 e2 e3.
      enrich_metadata tiktoken [c1, c2, c3] strategy original_text None = Inr [e1, e2, e3] \<and>
      map_of (get_metadata e2) ''heading_1'' = Some (JStr ''A'') \<and>
      map_of (get_metadata e2) ''section_path'' = Some (JStr ''A'') \<and>
      map_of (get_metadata e3) ''heading_1'' = Some (JStr ''A'') \<and>
      map_of (get_metadata e3) ''heading_2'' = Some (JStr ''B'') \<and>
      map_of (get_metadata e3) ''section_path'' = Some (JStr ''A > B'')"
proof -
  have ok0: "heading_context_ok []"
    by (simp add: heading_context_ok_def)
  obtain e1 ch1 where
    e1: "enrich_chunk tiktoken strategy None 3 [] 0 c1 = Inr (e1, ch1)"
    and ch1: "update_heading_contexts [] (extract_heading_metadata (get_text c1)) = Inr ch1"
    and ok1: "heading_context_ok ch1"
    using enrich_chunk_other_strategy [OF s ok0 fresh(1)] by metis
  have ch1_eq: "ch1 = [(1, JStr ''A'')]"
    using ch1 by (simp only: texts heading_example_extract heading_example_contexts sum.inject)
  obtain e2 ch2 where
    e2: "enrich_chunk tiktoken strategy None 3 ch1 1 c2 = Inr (e2, ch2)"
    and ch2: "update_heading_contexts ch1 (extract_heading_metadata (get_text c2)) = Inr ch2"
    and ok2: "heading_context_ok ch2"
    and l2: "\<And>l. 1 \<le> l \<Longrightarrow> l \<le> 6 \<Longrightarrow> map_of (get_metadata e2) (heading_key l) = map_of ch2 l"
    and p2: "ch2 \<noteq> [] \<Longrightarrow> map_of (get_metadata e2) ''section_path'' = Some (JStr (context_path ch2))"
    using enrich_chunk_other_strategy [OF s ok1 fresh(2)] by metis
  have ch2_eq: "ch2 = [(1, JStr ''A'')]"
    using ch2 ch1_eq by (simp add: texts heading_example_extract)
  obtain e3 ch3 where
    e3: "enrich_chunk tiktoken strategy None 3 ch2 2 c3 = Inr (e3, ch3)"
    and ch3: "update_heading_contexts ch2 (extract_heading_metadata (get_text c3)) = Inr ch3"
    and l3: "\<And>l. 1 \<le> l \<Longrightarrow> l \<le> 6 \<Longrightarrow> map_of (get_metadata e3) (heading_key l) = map_of ch3 l"
    and p3: "ch3 \<noteq> [] \<Longrightarrow> map_of (get_metadata e3) ''section_path'' = Some (JStr (context_path ch3))"
    using enrich_chunk_other_strategy [OF s ok2 fresh(3)] by metis
  have ch3_eq: "ch3 = [(1, JStr ''A''), (2, JStr ''B'')]"
    using ch3 by (simp only: ch2_eq texts heading_example_extract heading_example_contexts sum.inject)
  have "enrich_metadata tiktoken [c1, c2, c3] strategy original_text None = Inr [e1, e2, e3]"
    using e1 e2 e3 by (simp add: enrich_metadata_def eval_nat_numeral)
  moreover have "map_of (get_metadata e2) ''heading_1'' = Some (JStr ''A'')"
    using l2 [of 1] by (simp add: ch2_eq heading_key_levels)
  moreover have "map_of (get_metadata e2) ''section_path'' = Some (JStr ''A'')"
    using p2 by (simp add: ch2_eq heading_example_contexts)
  moreover have "map_of (get_metadata e3) ''heading_1'' = Some (JStr ''A'')"
    using l3 [of 1] by (simp add: ch3_eq heading_key_levels)
  moreover have "map_of (get_metadata e3) ''heading_2'' = Some (JStr ''B'')"
    using l3 [of 2] by (simp add: ch3_eq heading_key_levels)
  moreover have "map_of (get_metadata e3) ''section_path'' = Some (JStr ''A > B'')"
    using p3 by (simp add: ch3_eq heading_example_contexts)
  ultimately show ?thesis
    by blast
qed


lemma map_of_above_six:
  assumes "heading_context_ok ch" "6 < l"
  shows "map_of ch l = None"
proof (cases "map_of ch l")
  case None
  then show ?thesis .
next
  case (Some v)
  then show ?thesis
    using heading_context_ok_map_of [OF assms(1) Some] assms(2) by simp
qed

lemma discovered_heading_context:
  assumes ok: "heading_context_ok ch"
    and h: "extract_heading_metadata chunk_body = [(heading_key n, JStr t), (''heading_level'', JInt n)]"
    and ch': "update_heading_contexts ch (extract_heading_metadata chunk_body) = Inr ch'"
  shows "heading_context_ok ch'" "map_of ch' n = Some (JStr t)"
    "\<And>l. n < l \<Longrightarrow> map_of ch' l = None" "\<And>l. l < n \<Longrightarrow> map_of ch' l = map_of ch l"
proof -
  have n: "1 \<le> n" "n \<le> 6" and t: "t \<noteq> []"
    using h by (cases chunk_body rule: extract_heading_metadata_cases; simp)+
  have eq: "ch' = fold AList.delete [n + 1..6] (AList.update n (JStr t) ch)"
    using ch' update_heading_contexts_heading [OF n, of ch "JStr t" "JInt n"] by (simp add: h)
  show "heading_context_ok ch'"
    unfolding eq using ok n t by (rule heading_context_ok_update)
  show "map_of ch' n = Some (JStr t)"
    by (simp add: eq map_of_context_update)
  show "map_of ch' l = None" if "n < l" for l
    using that map_of_above_six [OF ok, of l] by (simp add: eq map_of_context_update)
  show "map_of ch' l = map_of ch l" if "l < n" for l
    using that by (simp add: eq map_of_context_update)
qed

text \<open>
  C3.  Under a strategy other than \<open>by_heading\<close> and \<open>hierarchical\<close> and without a
  schema:

  \<^item> Three chunks with the texts \<open>"# A\n..."\<close>, \<open>"body, no heading"\<close>, \<open>"## B\n..."\<close>, whose
    incoming metadata has no heading fields, are enriched without an exception; the
    second chunk gets \<open>heading_1 = "A"\<close> and \<open>section_path = "A"\<close>, the third
    \<open>heading_1 = "A"\<close>, \<open>heading_2 = "B"\<close> and \<open>section_path = "A > B"\<close>.

  \<^item> For any chunk and any heading context built so far, whenever the chunk is enriched:
    a heading of level \<open>n\<close> found in its text is stored in the context at level \<open>n\<close>, no
    level above \<open>n\<close> stays in the context and the levels below are kept; a chunk without
    a heading leaves the context as it was; every level of the resulting context is in
    the chunk's metadata under \<open>heading_<level>\<close>; and if the context is not empty,
    \<open>section_path\<close> is the path built from the metadata that holds these fields.

  \<^item> A chunk whose incoming metadata has no heading fields is always enriched, and its
    \<open>section_path\<close> is the breadcrumb of the context.

  The condition on the incoming metadata cannot be dropped, in the example or in general:
  the path is built from the chunk's metadata, not from the context.  When the second
  chunk of the example arrives with \<open>heading_2 = "Old"\<close>, the field stays, and the chunk's
  \<open>section_path\<close> is \<open>"A > Old"\<close> while the context holds level 1 alone.
\<close>

theorem heading_breadcrumb:
  assumes "strategy \<noteq> ''by_heading''" and "strategy \<noteq> ''hierarchical''"
  shows
   "(get_text c1 = ''# A'' @ [CHR 0x0A] @ ''...'' \<longrightarrow> get_text c2 = ''body, no heading'' \<longrightarrow>
     get_text c3 = ''## B'' @ [CHR 0x0A] @ ''...'' \<longrightarrow>
     no_heading_fields (get_metadata c1) \<longrightarrow> no_heading_fields (get_metadata c2) \<longrightarrow>
     no_heading_fields (get_metadata c3) \<longrightarrow>
       (\<exists>e1 e2 e3.
          enrich_metadata tiktoken [c1, c2, c3] strategy original_text None = Inr [e1, e2, e3] \<and>
          map_of (get_metadata e2) ''heading_1'' = Some (JStr ''A'') \<and>
          map_of (get_metadata e2) ''section_path'' = Some (JStr ''A'') \<and>
          map_of (get_metadata e3) ''heading_1'' = Some (JStr ''A'') \<and>
          map_of (get_metadata e3) ''heading_2'' = Some (JStr ''B'') \<and>
          map_of (get_metadata e3) ''section_path'' = Some (JStr ''A > B''))) \<and>
    (heading_context_ok ch \<longrightarrow>
       (\<forall>c' ch'. enrich_chunk tiktoken strategy None n_chunks ch idx c = Inr (c', ch') \<longrightarrow>
          heading_context_ok ch' \<and>
          (\<forall>n t. extract_heading_metadata (get_text c)
                    = [(heading_key n, JStr t), (''heading_level'', JInt n)] \<longrightarrow>
             map_of ch' n = Some (JStr t) \<and>
             (\<forall>l. n < l \<longrightarrow> map_of ch' l = None) \<and>
             (\<forall>l. l < n \<longrightarrow> map_of ch' l = map_of ch l)) \<and>
          (extract_heading_metadata (get_text c) = [] \<longrightarrow> ch' = ch) \<and>
          (\<forall>l v. map_of ch' l = Some v \<longrightarrow> map_of (get_metadata c') (heading_key l) = Some v) \<and>
          (ch' \<noteq> [] \<longrightarrow>
             (\<exists>sp. build_section_path (get_metadata c') = Inr sp \<and>
                   map_of (get_metadata c') ''section_path'' = Some (JStr sp)))) \<and>
       (no_heading_fields (get_metadata c) \<longrightarrow>
          (\<exists>c' ch'. enrich_chunk tiktoken strategy None n_chunks ch idx c = Inr (c', ch') \<and>
             (ch' \<noteq> [] \<longrightarrow>
                map_of (get_metadata c') ''section_path'' = Some (JStr (context_path ch'))))))"
proof (intro conjI impI allI)
  assume "get_text c1 = ''# A'' @ [CHR 0x0A] @ ''...''" "get_text c2 = ''body, no heading''"
    "get_text c3 = ''## B'' @ [CHR 0x0A] @ ''...''"
    "no_heading_fields (get_metadata c1)" "no_heading_fields (get_metadata c2)"
    "no_heading_fields (get_metadata c3)"
  with assms show "\<exists>e1 e2 e3.
          enrich_metadata tiktoken [c1, c2, c3] strategy original_text None = Inr [e1, e2, e3] \<and>
          map_of (get_metadata e2) ''heading_1'' = Some (JStr ''A'') \<and>
          map_of (get_metadata e2) ''section_path'' = Some (JStr ''A'') \<and>
          map_of (get_metadata e3) ''heading_1'' = Some (JStr ''A'') \<and>
          map_of (get_metadata e3) ''heading_2'' = Some (JStr ''B'') \<and>
          map_of (get_metadata e3) ''section_path'' = Some (JStr ''A > B'')"
    by (rule heading_example_enriched)
next
  fix c' ch'
  assume ok: "heading_context_ok ch"
    and r: "enrich_chunk tiktoken strategy None n_chunks ch idx c = Inr (c', ch')"
  note res = enrich_chunk_other_result [OF assms ok r]
  show ok': "heading_context_ok ch'"
  proof (cases "get_text c" rule: extract_heading_metadata_cases)
    case none
    then show ?thesis
      using res(1) ok by simp
  next
    case (heading n t)
    show ?thesis
      using ok heading(4) res(1) by (rule discovered_heading_context)
  qed
  show "ch' = ch" if "extract_heading_metadata (get_text c) = []"
    using res(1) that by simp
  show "map_of (get_metadata c') (heading_key l) = Some v" if "map_of ch' l = Some v" for l v
    using that by (rule res(2))
  show "\<exists>sp. build_section_path (get_metadata c') = Inr sp \<and>
           map_of (get_metadata c') ''section_path'' = Some (JStr sp)" if "ch' \<noteq> []"
    using res(3) [OF that] by blast
  fix n t
  assume h: "extract_heading_metadata (get_text c) = [(heading_key n, JStr t), (''heading_level'', JInt n)]"
  show "map_of ch' n = Some (JStr t)"
    using ok h res(1) by (rule discovered_heading_context)
  show "map_of ch' l = None" if "n < l" for l
    using discovered_heading_context(3) [OF ok h res(1) that] .
  show "map_of ch' l = map_of ch l" if "l < n" for l
    using discovered_heading_context(4) [OF ok h res(1) that] .
next
  assume ok: "heading_context_ok ch" and fresh: "no_heading_fields (get_metadata c)"
  show "\<exists>c' ch'. enrich_chunk tiktoken strategy None n_chunks ch idx c = Inr (c', ch') \<and>
             (ch' \<noteq> [] \<longrightarrow> map_of (get_metadata c') ''section_path'' = Some (JStr (context_path ch')))"
    using enrich_chunk_other_strategy [OF assms ok fresh, of tiktoken n_chunks idx] by metis
qed


theorem heading_breadcrumb_witness:
  "enrich_metadata no_tiktoken heading_example ''semantic'' ''doc'' None =
     Inr [enriched (''# A'' @ [CHR 0x0A] @ ''...'')
            [(''token_count'', JInt 1), (''position_in_document'', JInt 0), (''total_chunks'', JInt 3),
             (''heading_1'', JStr ''A''), (''heading_level'', JInt 1), (''section_path'', JStr ''A'')],
          enriched ''body, no heading''
            [(''token_count'', JInt 4), (''position_in_document'', JInt 1), (''total_chunks'', JInt 3),
             (''heading_1'', JStr ''A''), (''section_path'', JStr ''A'')],
          enriched (''## B'' @ [CHR 0x0A] @ ''...'')
            [(''token_count'', JInt 2), (''position_in_document'', JInt 2), (''total_chunks'', JInt 3),
             (''heading_2'', JStr ''B''), (''heading_level'', JInt 2), (''heading_1'', JStr ''A''),
             (''section_path'', JStr ''A > B'')]] \<and>
   heading_context_ok [(1, JStr ''A''), (2, JStr ''B'')] \<and>
   map_of [(1 :: int, JStr ''A''), (2, JStr ''B'')] 3 = None"
proof -
  let ?c1 = "\<lparr>chunk_text = Some (''# A'' @ [CHR 0x0A] @ ''...''), chunk_metadata = Some []\<rparr>"
  let ?c2 = "\<lparr>chunk_text = Some ''body, no heading'', chunk_metadata = Some []\<rparr>"
  let ?c3 = "\<lparr>chunk_text = Some (''## B'' @ [CHR 0x0A] @ ''...''), chunk_metadata = Some []\<rparr>"
  let ?e3 = "enriched (''## B'' @ [CHR 0x0A] @ ''...'')
            [(''token_count'', JInt 2), (''position_in_document'', JInt 2), (''total_chunks'', JInt 3),
             (''heading_2'', JStr ''B''), (''heading_level'', JInt 2), (''heading_1'', JStr ''A''),
             (''section_path'', JStr ''A > B'')]"
  have s: "''semantic'' \<noteq> ''by_heading''" "''semantic'' \<noteq> ''hierarchical''"
    by simp_all
  note b = heading_breadcrumb [OF s, where tiktoken = no_tiktoken and original_text = "''doc''"
      and ?c1.0 = ?c1 and ?c2.0 = ?c2 and ?c3.0 = ?c3 and ch = "[(1, JStr ''A'')]" and c = ?c3
      and n_chunks = 3 and idx = 2]
  have texts: "get_text ?c1 = ''# A'' @ [CHR 0x0A] @ ''...''" "get_text ?c2 = ''body, no heading''"
    "get_text ?c3 = ''## B'' @ [CHR 0x0A] @ ''...''"
    by (simp_all add: get_text_def)
  have fresh: "no_heading_fields (get_metadata ?c1)" "no_heading_fields (get_metadata ?c2)"
    "no_heading_fields (get_metadata ?c3)"
    by (simp_all add: get_metadata_def no_heading_fields_def)
  obtain e1 e2 e3 where
    run: "enrich_metadata no_tiktoken [?c1, ?c2, ?c3] ''semantic'' ''doc'' None = Inr [e1, e2, e3]"
    and "map_of (get_metadata e3) ''section_path'' = Some (JStr ''A > B'')"
    using b [THEN conjunct1, rule_format, OF texts fresh] by blast
  have eval: "enrich_metadata no_tiktoken [?c1, ?c2, ?c3] ''semantic'' ''doc'' None =
     Inr [enriched (''# A'' @ [CHR 0x0A] @ ''...'')
            [(''token_count'', JInt 1), (''position_in_document'', JInt 0), (''total_chunks'', JInt 3),
             (''heading_1'', JStr ''A''), (''heading_level'', JInt 1), (''section_path'', JStr ''A'')],
          enriched ''body, no heading''
            [(''token_count'', JInt 4), (''position_in_document'', JInt 1), (''total_chunks'', JInt 3),
             (''heading_1'', JStr ''A''), (''section_path'', JStr ''A'')],
          ?e3]"
    by code_simp
  have ok: "heading_context_ok [(1, JStr ''A'')]"
    by (simp add: heading_context_ok_def)
  have step: "enrich_chunk no_tiktoken ''semantic'' None 3 [(1, JStr ''A'')] 2 ?c3
      = Inr (?e3, [(1, JStr ''A''), (2, JStr ''B'')])"
    by code_simp
  have h: "extract_heading_metadata (get_text ?c3) = [(heading_key 2, JStr ''B''), (''heading_level'', JInt 2)]"
    by (simp only: texts heading_example_extract heading_key_levels)
  note g = b [THEN conjunct2, rule_format, OF ok, THEN conjunct1, rule_format, OF step]
  have "heading_context_ok [(1, JStr ''A''), (2, JStr ''B'')]"
    using g by (rule conjunct1)
  moreover have "map_of [(1 :: int, JStr ''A''), (2, JStr ''B'')] 3 = None"
    using g [THEN conjunct2, THEN conjunct1, rule_format, OF h, THEN conjunct2, THEN conjunct1,
        rule_format, of 3]
    by simp
  ultimately show ?thesis
    using run eval by (simp add: heading_example_def)
qed

theorem heading_breadcrumb_stale_field_counterexample:
  "''semantic'' \<noteq> ''by_heading'' \<and> ''semantic'' \<noteq> ''hierarchical'' \<and>
   enrich_metadata no_tiktoken
     [\<lparr>chunk_text = Some (''# A'' @ [CHR 0x0A] @ ''...''), chunk_metadata = Some []\<rparr>,
      \<lparr>chunk_text = Some ''body, no heading'',
       chunk_metadata = Some [(''heading_2'', JStr ''Old'')]\<rparr>,
      \<lparr>chunk_text = Some (''## B'' @ [CHR 0x0A] @ ''...''), chunk_metadata = Some []\<rparr>]
     ''semantic'' ''doc'' None =
     Inr [enriched (''# A'' @ [CHR 0x0A] @ ''...'')
            [(''token_count'', JInt 1), (''position_in_document'', JInt 0), (''total_chunks'', JInt 3),
             (''heading_1'', JStr ''A''), (''heading_level'', JInt 1), (''section_path'', JStr ''A'')],
          enriched ''body, no heading''
            [(''heading_2'', JStr ''Old''), (''token_count'', JInt 4),
             (''position_in_document'', JInt 1), (''total_chunks'', JInt 3),
             (''heading_1'', JStr ''A''), (''section_path'', JStr ''A > Old'')],
          enriched (''## B'' @ [CHR 0x0A] @ ''...'')
            [(''token_count'', JInt 2), (''position_in_document'', JInt 2), (''total_chunks'', JInt 3),
             (''heading_2'', JStr ''B''), (''heading_level'', JInt 2), (''heading_1'', JStr ''A''),
             (''section_path'', JStr ''A > B'')]] \<and>
   enrich_chunk no_tiktoken ''semantic'' None 3 [(1, JStr ''A'')] 1
      \<lparr>chunk_text = Some ''body, no heading'',
       chunk_metadata = Some [(''heading_2'', JStr ''Old'')]\<rparr> =
     Inr (enriched ''body, no heading''
            [(''heading_2'', JStr ''Old''), (''token_count'', JInt 4),
             (''position_in_document'', JInt 1), (''total_chunks'', JInt 3),
             (''heading_1'', JStr ''A''), (''section_path'', JStr ''A > Old'')],
          [(1, JStr ''A'')]) \<and>
   context_path [(1, JStr ''A'')] = ''A''"
  by code_simp


section \<open>Properties of the LlamaParse adapter\<close>

subsection \<open>Validation\<close>

lemma those_None: "None \<in> set xs \<Longrightarrow> those xs = None"
  by (induction xs) (auto split: option.splits)

lemma ParseConfig_unknown_key:
  assumes "(k, v) \<in> set config" "k \<notin> set (map fst DEFAULT_PARSE_CONFIG)"
  shows "ParseConfig vf config = None"
proof -
  have "list_ex (\<lambda>kv. fst kv \<notin> set (map fst DEFAULT_PARSE_CONFIG)) config"
    unfolding list_ex_iff using assms by force
  then show ?thesis
    by (simp add: ParseConfig_def)
qed

lemma ParseConfig_invalid_field:
  assumes "map_of config k = Some v" "k \<in> set (map fst DEFAULT_PARSE_CONFIG)" "vf k v = None"
  shows "ParseConfig vf config = None"
proof -
  obtain d where "(k, d) \<in> set DEFAULT_PARSE_CONFIG"
    using assms(2) by auto
  then have "None \<in> set (map (\<lambda>field.
                         case map_of config (fst field) of
                           None \<Rightarrow> Some field
                         | Some v \<Rightarrow> map_option (Pair (fst field)) (vf (fst field) v))
                    DEFAULT_PARSE_CONFIG)"
    unfolding set_map using assms(1,3) by (intro image_eqI [where x = "(k, d)"]) simp_all
  then have "those (map (\<lambda>field.
                         case map_of config (fst field) of
                           None \<Rightarrow> Some field
                         | Some v \<Rightarrow> map_option (Pair (fst field)) (vf (fst field) v))
                    DEFAULT_PARSE_CONFIG) = None"
    by (rule those_None)
  then show ?thesis
    by (simp add: ParseConfig_def)
qed

subsection \<open>What has been printed does not matter\<close>

lemma same_disk_print: "same_disk (print msg w) w"
  by (simp add: same_disk_def print_def)

lemma same_disk_print_both: "same_disk w w' \<Longrightarrow> same_disk (print msg w) (print msg' w')"
  by (simp add: same_disk_def print_def)

lemma ParseResultCache_get_same_disk:
  assumes "same_disk w w'"
  shows "fst (ParseResultCache_get lib c file_hash config parser_method w)
       = fst (ParseResultCache_get lib c file_hash config parser_method w')"
    and "same_disk (snd (ParseResultCache_get lib c file_hash config parser_method w))
       (snd (ParseResultCache_get lib c file_hash config parser_method w'))"
  using assms
  by (auto simp add: ParseResultCache_get_def same_disk_def print_def unlink_def Let_def
      split: option.splits json.splits)

lemma ParseResultCache_set_same_disk:
  assumes "same_disk w w'"
  shows "same_disk (ParseResultCache_set lib c file_hash config md parser_method w)
       (ParseResultCache_set lib c file_hash config md parser_method w')"
  using assms
  by (auto simp add: ParseResultCache_set_def same_disk_def print_def write_file_def Let_def)


lemma hash_file_same_disk: "same_disk w w' \<Longrightarrow> hash_file lib file_path w = hash_file lib file_path w'"
  by (simp add: hash_file_def same_disk_def)

lemma parse_pdf_with_same_disk:
  assumes sd: "same_disk w w'"
  shows "fst (parse_pdf_with lib tools parse_cache key file_path n_pages config w)
       = fst (parse_pdf_with lib tools parse_cache key file_path n_pages config w') \<and>
     same_disk (snd (parse_pdf_with lib tools parse_cache key file_path n_pages config w))
       (snd (parse_pdf_with lib tools parse_cache key file_path n_pages config w'))"
proof (cases "ParseConfig (validate_field tools) config")
  case None
  then show ?thesis
    using sd by (simp add: parse_pdf_with_def)
next
  case (Some parse_config)
  note pc = this
  show ?thesis
  proof (cases "hash_file lib file_path w")
    case (Inl e)
    then show ?thesis
      using sd pc hash_file_same_disk [OF sd, of lib file_path] by (simp add: parse_pdf_with_def)
  next
    case (Inr file_hash)
    then have h': "hash_file lib file_path w' = Inr file_hash"
      using hash_file_same_disk [OF sd, of lib file_path] by simp
    obtain r w1 where g: "ParseResultCache_get lib parse_cache file_hash config ''llamaparse'' w = (r, w1)"
      by (cases "ParseResultCache_get lib parse_cache file_hash config ''llamaparse'' w")
    obtain r' w1' where g': "ParseResultCache_get lib parse_cache file_hash config ''llamaparse'' w' = (r', w1')"
      by (cases "ParseResultCache_get lib parse_cache file_hash config ''llamaparse'' w'")
    have r: "r' = r" and sd1: "same_disk w1 w1'"
      using ParseResultCache_get_same_disk [OF sd, of lib parse_cache file_hash config "''llamaparse''"] g g'
      by simp_all
    show ?thesis
    proof (cases r)
      case (Some cached_result)
      then show ?thesis
        using pc Inr h' g g' r sd1 by (simp add: parse_pdf_with_def same_disk_print_both)
    next
      case None
      note miss = this
      show ?thesis
      proof (cases "files w1 file_path")
        case None
        then have "files w1' file_path = None"
          using sd1 by (simp add: same_disk_def)
        then show ?thesis
          using pc Inr h' g g' r sd1 miss None by (simp add: parse_pdf_with_def)
      next
        case (Some f)
        then have f': "files w1' file_path = Some f"
          using sd1 by (simp add: same_disk_def)
        show ?thesis
        proof (cases "load_data tools key parse_config (content f)")
          case (Inl e)
          then show ?thesis
            using pc Inr h' g g' r sd1 miss Some f' by (simp add: parse_pdf_with_def)
        next
          case (Inr documents)
          then show ?thesis
            using pc \<open>hash_file lib file_path w = Inr file_hash\<close> h' g g' r miss Some f'
              same_disk_print_both [OF ParseResultCache_set_same_disk [OF sd1, of lib parse_cache file_hash
                  config "join [CHR 0x0A, CHR 0x0A] documents" "''llamaparse''"],
                of "''Successfully parsed with LlamaParse''" "''Successfully parsed with LlamaParse''"]
            by (simp add: parse_pdf_with_def Let_def)
        qed
      qed
    qed
  qed
qed


text \<open>The page count reads the file and may print a warning; it writes no file.\<close>

lemma get_pdf_page_count_files:
  "get_pdf_page_count tools file_path w = (n_pages, w0) \<Longrightarrow> files w0 = files w"
  by (auto simp add: get_pdf_page_count_def print_sel split: option.splits)

text \<open>
  C7.  When the configuration given to \<open>parse_pdf\<close> fails validation, the call returns
  exactly what the call without a configuration returns (the same result or the same
  exception) and leaves the same files behind; the only difference is the diagnostic it
  prints.  With an API key it is the run of the rest of \<open>parse_pdf\<close> on
  \<open>DEFAULT_PARSE_CONFIG\<close>, and nothing of the given configuration is used.  Step by step,
  where validation accepts the defaults (pydantic accepts what its own model dumped) and
  returns them as \<open>defaults\<close>, after the page count and the diagnostic:

  \<^item> if the file cannot be read, the call raises \<open>OSError\<close>;

  \<^item> otherwise the parse cache is asked for the hash of the file's contents, the default
    configuration and the method \<open>llamaparse\<close>; if it has a value, the call prints the
    cache hit and returns that value with the page count;

  \<^item> on a miss the engine is run with the API key and \<open>defaults\<close> on the file's contents;
    if it raises, so does the call; if it returns documents, their texts joined by a
    blank line are stored in the parse cache under the same hash and the default
    configuration, the success line is printed, and the joined text is returned with
    the page count.

  So the request fails only where the same request without a configuration fails.  A
  configuration with a key that is not a field of \<open>ParseConfig\<close>, or with a field whose
  value pydantic rejects, fails validation as a whole.
\<close>

theorem invalid_config_falls_back_to_defaults:
  "(ParseConfig (validate_field tools) given = None \<longrightarrow>
      fst (parse_pdf lib tools parse_cache api_key file_path (Some given) w)
        = fst (parse_pdf lib tools parse_cache api_key file_path None w) \<and>
      same_disk (snd (parse_pdf lib tools parse_cache api_key file_path (Some given) w))
        (snd (parse_pdf lib tools parse_cache api_key file_path None w)) \<and>
      (api_key = Some key \<longrightarrow> key \<noteq> [] \<longrightarrow>
         parse_pdf lib tools parse_cache api_key file_path (Some given) w =
           parse_pdf_with lib tools parse_cache key file_path
             (fst (get_pdf_page_count tools file_path w)) DEFAULT_PARSE_CONFIG
             (print ''Invalid config, using defaults: '' (snd (get_pdf_page_count tools file_path w))) \<and>
         (ParseConfig (validate_field tools) DEFAULT_PARSE_CONFIG = Some defaults \<longrightarrow>
          get_pdf_page_count tools file_path w = (n_pages, w0) \<longrightarrow>
            (files w file_path = None \<longrightarrow>
               parse_pdf lib tools parse_cache api_key file_path (Some given) w =
                 (Inl OSError, print ''Invalid config, using defaults: '' w0)) \<and>
            (files w file_path = Some f \<longrightarrow>
             ParseResultCache_get lib parse_cache (sha256_hexdigest lib (content f))
                 DEFAULT_PARSE_CONFIG ''llamaparse'' (print ''Invalid config, using defaults: '' w0)
               = (cached, w1) \<longrightarrow>
               (cached = Some md \<longrightarrow>
                  parse_pdf lib tools parse_cache api_key file_path (Some given) w =
                    (Inr \<lparr>markdown = md, page_count = n_pages\<rparr>,
                     print (''Cache hit for '' @ file_path @ '' (LlamaParse)'') w1)) \<and>
               (cached = None \<longrightarrow> files w1 file_path = None \<longrightarrow>
                  parse_pdf lib tools parse_cache api_key file_path (Some given) w = (Inl OSError, w1)) \<and>
               (cached = None \<longrightarrow> files w1 file_path = Some f1 \<longrightarrow>
                load_data tools key defaults (content f1) = Inl e \<longrightarrow>
                  parse_pdf lib tools parse_cache api_key file_path (Some given) w = (Inl e, w1)) \<and>
               (cached = None \<longrightarrow> files w1 file_path = Some f1 \<longrightarrow>
                load_data tools key defaults (content f1) = Inr documents \<longrightarrow>
                  parse_pdf lib tools parse_cache api_key file_path (Some given) w =
                    (Inr \<lparr>markdown = JStr (join [CHR 0x0A, CHR 0x0A] documents), page_count = n_pages\<rparr>,
                     print ''Successfully parsed with LlamaParse''
                       (ParseResultCache_set lib parse_cache (sha256_hexdigest lib (content f))
                          DEFAULT_PARSE_CONFIG (join [CHR 0x0A, CHR 0x0A] documents) ''llamaparse''
                          w1))))))) \<and>
   ((k, v) \<in> set given \<longrightarrow> k \<notin> set (map fst DEFAULT_PARSE_CONFIG) \<longrightarrow>
      ParseConfig (validate_field tools) given = None) \<and>
   (map_of given k = Some v \<longrightarrow> k \<in> set (map fst DEFAULT_PARSE_CONFIG) \<longrightarrow>
    validate_field tools k v = None \<longrightarrow>
      ParseConfig (validate_field tools) given = None)"
proof (intro conjI impI)
  assume invalid: "ParseConfig (validate_field tools) given = None"
  obtain n_pages' w0' where pages: "get_pdf_page_count tools file_path w = (n_pages', w0')"
    by (cases "get_pdf_page_count tools file_path w")
  have rest: "fst (parse_pdf_with lib tools parse_cache key' file_path n_pages' DEFAULT_PARSE_CONFIG
                  (print ''Invalid config, using defaults: '' w0'))
       = fst (parse_pdf_with lib tools parse_cache key' file_path n_pages' DEFAULT_PARSE_CONFIG w0') \<and>
     same_disk
       (snd (parse_pdf_with lib tools parse_cache key' file_path n_pages' DEFAULT_PARSE_CONFIG
               (print ''Invalid config, using defaults: '' w0')))
       (snd (parse_pdf_with lib tools parse_cache key' file_path n_pages' DEFAULT_PARSE_CONFIG w0'))"
    for key'
    using same_disk_print by (rule parse_pdf_with_same_disk)
  show "fst (parse_pdf lib tools parse_cache api_key file_path (Some given) w)
        = fst (parse_pdf lib tools parse_cache api_key file_path None w)"
    using invalid pages rest by (simp add: parse_pdf_def split: option.split)
  show "same_disk (snd (parse_pdf lib tools parse_cache api_key file_path (Some given) w))
        (snd (parse_pdf lib tools parse_cache api_key file_path None w))"
    using invalid pages rest by (simp add: parse_pdf_def same_disk_def split: option.split)
  assume key: "api_key = Some key" "key \<noteq> []"
  show "parse_pdf lib tools parse_cache api_key file_path (Some given) w =
           parse_pdf_with lib tools parse_cache key file_path
             (fst (get_pdf_page_count tools file_path w)) DEFAULT_PARSE_CONFIG
             (print ''Invalid config, using defaults: '' (snd (get_pdf_page_count tools file_path w)))"
    using invalid pages key by (simp add: parse_pdf_def)
  assume defaults: "ParseConfig (validate_field tools) DEFAULT_PARSE_CONFIG = Some defaults"
    and count: "get_pdf_page_count tools file_path w = (n_pages, w0)"
  have run: "parse_pdf lib tools parse_cache api_key file_path (Some given) w =
      parse_pdf_with lib tools parse_cache key file_path n_pages DEFAULT_PARSE_CONFIG
        (print ''Invalid config, using defaults: '' w0)"
    using invalid count key by (simp add: parse_pdf_def)
  have same: "files (print ''Invalid config, using defaults: '' w0) = files w"
    using get_pdf_page_count_files [OF count] by (simp add: print_sel)
  show "parse_pdf lib tools parse_cache api_key file_path (Some given) w =
                 (Inl OSError, print ''Invalid config, using defaults: '' w0)"
    if "files w file_path = None"
    using that defaults same by (simp add: run parse_pdf_with_def hash_file_def)
  assume f: "files w file_path = Some f"
    and lookup: "ParseResultCache_get lib parse_cache (sha256_hexdigest lib (content f))
                 DEFAULT_PARSE_CONFIG ''llamaparse'' (print ''Invalid config, using defaults: '' w0)
               = (cached, w1)"
  have hash: "hash_file lib file_path (print ''Invalid config, using defaults: '' w0)
      = Inr (sha256_hexdigest lib (content f))"
    using f same by (simp add: hash_file_def)
  show "parse_pdf lib tools parse_cache api_key file_path (Some given) w =
                    (Inr \<lparr>markdown = md, page_count = n_pages\<rparr>,
                     print (''Cache hit for '' @ file_path @ '' (LlamaParse)'') w1)"
    if "cached = Some md"
    using that defaults hash lookup by (simp add: run parse_pdf_with_def)
  show "parse_pdf lib tools parse_cache api_key file_path (Some given) w = (Inl OSError, w1)"
    if "cached = None" "files w1 file_path = None"
    using that defaults hash lookup by (simp add: run parse_pdf_with_def)
  show "parse_pdf lib tools parse_cache api_key file_path (Some given) w = (Inl e, w1)"
    if "cached = None" "files w1 file_path = Some f1" "load_data tools key defaults (content f1) = Inl e"
    using that defaults hash lookup by (simp add: run parse_pdf_with_def)
  show "parse_pdf lib tools parse_cache api_key file_path (Some given) w =
                    (Inr \<lparr>markdown = JStr (join [CHR 0x0A, CHR 0x0A] documents), page_count = n_pages\<rparr>,
                     print ''Successfully parsed with LlamaParse''
                       (ParseResultCache_set lib parse_cache (sha256_hexdigest lib (content f))
                          DEFAULT_PARSE_CONFIG (join [CHR 0x0A, CHR 0x0A] documents) ''llamaparse''
                          w1))"
    if "cached = None" "files w1 file_path = Some f1"
      "load_data tools key defaults (content f1) = Inr documents"
    using that defaults hash lookup by (simp add: run parse_pdf_with_def Let_def)
next
  assume "(k, v) \<in> set given" "k \<notin> set (map fst DEFAULT_PARSE_CONFIG)"
  then show "ParseConfig (validate_field tools) given = None"
    by (rule ParseConfig_unknown_key)
next
  assume "map_of given k = Some v" "k \<in> set (map fst DEFAULT_PARSE_CONFIG)"
    "validate_field tools k v = None"
  then show "ParseConfig (validate_field tools) given = None"
    by (rule ParseConfig_invalid_field)
qed

theorem invalid_config_falls_back_to_defaults_witness:
  "ParseConfig (validate_field toy_tools) [(''language'', JStr ''fr''), (''colour'', JBool True)] = None \<and>
   ParseConfig (validate_field toy_tools) [(''language'', JStr ''fr''), (''hide_headers'', JInt 3)] = None \<and>
   fst (parse_pdf toy_pdf_lib toy_tools (toy_cache 60) (Some ''secret'') ''/tmp/upload.pdf''
          (Some [(''language'', JStr ''fr''), (''colour'', JBool True)]) toy_pdf_world)
     = fst (parse_pdf toy_pdf_lib toy_tools (toy_cache 60) (Some ''secret'') ''/tmp/upload.pdf'' None
          toy_pdf_world) \<and>
   same_disk
     (snd (parse_pdf toy_pdf_lib toy_tools (toy_cache 60) (Some ''secret'') ''/tmp/upload.pdf''
          (Some [(''language'', JStr ''fr''), (''colour'', JBool True)]) toy_pdf_world))
     (snd (parse_pdf toy_pdf_lib toy_tools (toy_cache 60) (Some ''secret'') ''/tmp/upload.pdf'' None
          toy_pdf_world)) \<and>
   parse_pdf toy_pdf_lib toy_tools (toy_cache 60) (Some ''secret'') ''/tmp/upload.pdf''
       (Some [(''language'', JStr ''fr''), (''colour'', JBool True)]) toy_pdf_world
     = (Inr \<lparr>markdown = JStr ''%PDF page one'', page_count = 1\<rparr>, toy_parsed_world) \<and>
   parse_pdf toy_pdf_lib toy_tools (toy_cache 60) (Some ''secret'') ''/tmp/upload.pdf''
       (Some [(''language'', JStr ''fr''), (''hide_headers'', JInt 3)]) toy_parsed_world
     = (Inr \<lparr>markdown = JStr ''%PDF page one'', page_count = 1\<rparr>,
        toy_parsed_world\<lparr>stdout :=
          [''Invalid config, using defaults: '', ''Successfully parsed with LlamaParse'',
           ''Invalid config, using defaults: '', ''Cache hit for /tmp/upload.pdf (LlamaParse)'']\<rparr>)"
proof -
  let ?bad1 = "[(''language'', JStr ''fr''), (''colour'', JBool True)]"
  let ?bad2 = "[(''language'', JStr ''fr''), (''hide_headers'', JInt 3)]"
  let ?f = "\<lparr>content = ''%PDF page one'', mtime = 999\<rparr>"
  let ?entry = "\<lparr>content = dumps (\<lambda>x. ''1000.0'') False
       (cache_data ''%PDF page one'' DEFAULT_PARSE_CONFIG ''%PDF page one'' ''llamaparse'' 1000),
     mtime = 1000\<rparr>"
  let ?w0 = "print ''Invalid config, using defaults: '' toy_pdf_world"
  let ?w2 = "print ''Invalid config, using defaults: '' toy_parsed_world"
  note t = invalid_config_falls_back_to_defaults [where tools = toy_tools and lib = toy_pdf_lib
      and parse_cache = "toy_cache 60" and api_key = "Some ''secret''" and key = "''secret''"
      and file_path = "''/tmp/upload.pdf''" and defaults = DEFAULT_PARSE_CONFIG and n_pages = 1
      and f = ?f and ?f1.0 = ?f]
  have unknown: "(''colour'', JBool True) \<in> set ?bad1"
    "''colour'' \<notin> set (map fst DEFAULT_PARSE_CONFIG)"
    by (simp_all add: DEFAULT_PARSE_CONFIG_def)
  have wrong: "map_of ?bad2 ''hide_headers'' = Some (JInt 3)"
    "''hide_headers'' \<in> set (map fst DEFAULT_PARSE_CONFIG)"
    "validate_field toy_tools ''hide_headers'' (JInt 3) = None"
    by (simp_all add: DEFAULT_PARSE_CONFIG_def toy_tools_def)
  have a: "ParseConfig (validate_field toy_tools) ?bad1 = None"
    using t [where given = ?bad1, THEN conjunct2, THEN conjunct1, rule_format, OF unknown] .
  have b: "ParseConfig (validate_field toy_tools) ?bad2 = None"
    using t [where given = ?bad2, THEN conjunct2, THEN conjunct2, rule_format, OF wrong] .
  have key: "Some ''secret'' = Some ''secret''" "''secret'' \<noteq> []"
    by simp_all
  have defaults: "ParseConfig (validate_field toy_tools) DEFAULT_PARSE_CONFIG = Some DEFAULT_PARSE_CONFIG"
    by (simp add: ParseConfig_def DEFAULT_PARSE_CONFIG_def toy_tools_def)
  have path: "parse_file toy_pdf_lib (toy_cache 60) ''%PDF page one'' DEFAULT_PARSE_CONFIG ''llamaparse''
      \<noteq> ''/tmp/upload.pdf''"
    by (simp add: ParseResultCache_get_cache_path_def toy_cache_def)
  have lib: "sha256_hexdigest toy_pdf_lib s = s" for s
    by (simp add: toy_pdf_lib_def toy_lib_def)
  have lib': "sha256_hexdigest toy_pdf_lib (content ?f) = ''%PDF page one''"
    and lib'': "float_repr toy_pdf_lib = (\<lambda>x. ''1000.0'')"
    "json_loads toy_pdf_lib (content ?entry)
       = Some (cache_data ''%PDF page one'' DEFAULT_PARSE_CONFIG ''%PDF page one'' ''llamaparse'' 1000)"
    by (simp_all add: toy_pdf_lib_def toy_lib_def)
  have path': "parse_file toy_pdf_lib (toy_cache 60) (sha256_hexdigest toy_pdf_lib (content ?f))
      DEFAULT_PARSE_CONFIG ''llamaparse''
      = parse_file toy_pdf_lib (toy_cache 60) ''%PDF page one'' DEFAULT_PARSE_CONFIG ''llamaparse''"
    by (simp only: lib')
  note c = t [where given = ?bad1 and w = toy_pdf_world, THEN conjunct1, rule_format, OF a]
  have count1: "get_pdf_page_count toy_tools ''/tmp/upload.pdf'' toy_pdf_world = (1, toy_pdf_world)"
    by (simp add: get_pdf_page_count_def toy_pdf_world_def toy_tools_def)
  have f1: "files toy_pdf_world ''/tmp/upload.pdf'' = Some ?f"
    by (simp add: toy_pdf_world_def)
  have miss: "ParseResultCache_get toy_pdf_lib (toy_cache 60) (sha256_hexdigest toy_pdf_lib (content ?f))
      DEFAULT_PARSE_CONFIG ''llamaparse'' ?w0 = (None, ?w0)"
  proof -
    have "files ?w0 (parse_file toy_pdf_lib (toy_cache 60) (sha256_hexdigest toy_pdf_lib (content ?f))
        DEFAULT_PARSE_CONFIG ''llamaparse'') = None"
      unfolding path' using path by (simp add: print_sel toy_pdf_world_def)
    then show ?thesis
      by (simp add: ParseResultCache_get_def)
  qed
  have f1': "files ?w0 ''/tmp/upload.pdf'' = Some ?f"
    by (simp add: toy_pdf_world_def print_sel)
  have engine: "load_data toy_tools ''secret'' DEFAULT_PARSE_CONFIG (content ?f) = Inr [''%PDF page one'']"
    by (simp add: toy_tools_def)
  have written: "print ''Successfully parsed with LlamaParse''
      (ParseResultCache_set toy_pdf_lib (toy_cache 60) (sha256_hexdigest toy_pdf_lib (content ?f))
         DEFAULT_PARSE_CONFIG ''%PDF page one'' ''llamaparse'' ?w0)
      = toy_parsed_world"
    unfolding ParseResultCache_set_def path' Let_def
    by (simp add: lib lib'' toy_parsed_world_def toy_pdf_world_def toy_world_def print_def
        write_file_def)
  have first: "parse_pdf toy_pdf_lib toy_tools (toy_cache 60) (Some ''secret'') ''/tmp/upload.pdf''
       (Some ?bad1) toy_pdf_world
     = (Inr \<lparr>markdown = JStr ''%PDF page one'', page_count = 1\<rparr>, toy_parsed_world)"
    using c [THEN conjunct2, THEN conjunct2, rule_format, OF key, THEN conjunct2, rule_format,
        OF defaults count1, THEN conjunct2, rule_format, OF f1 miss,
        THEN conjunct2, THEN conjunct2, THEN conjunct2, rule_format, OF refl f1' engine]
    unfolding join.simps written .
  note d = t [where given = ?bad2 and w = toy_parsed_world, THEN conjunct1, rule_format, OF b]
  have count2: "get_pdf_page_count toy_tools ''/tmp/upload.pdf'' toy_parsed_world = (1, toy_parsed_world)"
    using path by (simp add: get_pdf_page_count_def toy_parsed_world_def toy_pdf_world_def toy_tools_def)
  have f2: "files toy_parsed_world ''/tmp/upload.pdf'' = Some ?f"
    using path by (simp add: toy_parsed_world_def toy_pdf_world_def)
  have hit: "ParseResultCache_get toy_pdf_lib (toy_cache 60) (sha256_hexdigest toy_pdf_lib (content ?f))
      DEFAULT_PARSE_CONFIG ''llamaparse'' ?w2 = (Some (JStr ''%PDF page one''), ?w2)"
  proof -
    have "files ?w2 (parse_file toy_pdf_lib (toy_cache 60) (sha256_hexdigest toy_pdf_lib (content ?f))
        DEFAULT_PARSE_CONFIG ''llamaparse'') = Some ?entry"
      unfolding path' by (simp add: print_sel toy_parsed_world_def)
    moreover have "clock ?w2 - mtime ?entry \<le> real_of_int (ttl (toy_cache 60))"
      by (simp add: print_sel toy_parsed_world_def toy_pdf_world_def toy_world_def toy_cache_def)
    ultimately show ?thesis
      using lib''(2) by (simp add: ParseResultCache_get_live cache_data_def)
  qed
  have second: "parse_pdf toy_pdf_lib toy_tools (toy_cache 60) (Some ''secret'') ''/tmp/upload.pdf''
       (Some ?bad2) toy_parsed_world
     = (Inr \<lparr>markdown = JStr ''%PDF page one'', page_count = 1\<rparr>,
        toy_parsed_world\<lparr>stdout :=
          [''Invalid config, using defaults: '', ''Successfully parsed with LlamaParse'',
           ''Invalid config, using defaults: '', ''Cache hit for /tmp/upload.pdf (LlamaParse)'']\<rparr>)"
    using d [THEN conjunct2, THEN conjunct2, rule_format, OF key, THEN conjunct2, rule_format,
        OF defaults count2, THEN conjunct2, rule_format, OF f2 hit, THEN conjunct1, rule_format, OF refl]
    by (simp add: print_def toy_parsed_world_def)
  show ?thesis
    using a b c [THEN conjunct1] c [THEN conjunct2, THEN conjunct1] first second by (intro conjI)
qed


section \<open>Properties of the complexity score\<close>

subsection \<open>Rounding\<close>

lemma round_half_even_error: "\<bar>of_int (round_half_even y) - y\<bar> \<le> 1 / 2"
proof -
  have "of_int \<lfloor>y\<rfloor> \<le> y" "y < of_int \<lfloor>y\<rfloor> + 1"
    by linarith+
  then show ?thesis
    by (auto simp add: round_half_even_def Let_def)
qed

lemma round_half_even_nonneg: "0 \<le> y \<Longrightarrow> 0 \<le> round_half_even y"
  by (auto simp add: round_half_even_def Let_def)

lemma round_half_even_le:
  assumes "y \<le> of_int n"
  shows "round_half_even y \<le> n"
proof -
  have "\<bar>of_int (round_half_even y) - y\<bar> \<le> 1 / 2"
    by (rule round_half_even_error)
  then have "real_of_int (round_half_even y) < of_int n + 1"
    using assms by linarith
  then have "real_of_int (round_half_even y) < of_int (n + 1)"
    by simp
  then have "round_half_even y < n + 1"
    by (simp only: of_int_less_iff)
  then show ?thesis
    by simp
qed

lemma ulp_exponent_bounds:
  "0 < x \<Longrightarrow> 2 ^ 52 \<le> x / power_int 2 (ulp_exponent x) \<and> x / power_int 2 (ulp_exponent x) < 2 ^ 53"
proof (induction x rule: ulp_exponent.induct)
  case (1 x)
  show ?case
  proof (cases "x < 2 ^ 52")
    case True
    have e: "ulp_exponent x = ulp_exponent (2 * x) - 1"
      using 1(3) True by (subst ulp_exponent.simps) simp
    have "x / power_int 2 (ulp_exponent (2 * x) - 1) = 2 * x / power_int 2 (ulp_exponent (2 * x))"
      by (simp add: power_int_diff)
    then show ?thesis
      using 1(1) [OF _ True] 1(3) by (simp add: e)
  next
    case False
    note low = this
    show ?thesis
    proof (cases "2 ^ 53 \<le> x")
      case True
      have e: "ulp_exponent x = ulp_exponent (x / 2) + 1"
        using 1(3) low True by (subst ulp_exponent.simps) simp
      have "x / power_int 2 (ulp_exponent (x / 2) + 1) = x / 2 / power_int 2 (ulp_exponent (x / 2))"
        by (simp add: power_int_add)
      then show ?thesis
        using 1(2) [OF _ low True] 1(3) by (simp add: e)
    next
      case False
      have e: "ulp_exponent x = 0"
        using 1(3) low False by (subst ulp_exponent.simps) simp
      show ?thesis
        using low False by (simp add: e)
    qed
  qed
qed

lemma fl64_nonneg:
  assumes "0 \<le> x"
  shows "0 \<le> fl64 x"
proof -
  have "0 \<le> x / power_int 2 (ulp_exponent \<bar>x\<bar>)"
    using assms by simp
  then have "0 \<le> round_half_even (x / power_int 2 (ulp_exponent \<bar>x\<bar>))"
    by (rule round_half_even_nonneg)
  then show ?thesis
    by (simp add: fl64_def Let_def)
qed

lemma fl64_error:
  assumes "0 \<le> x"
  shows "\<bar>fl64 x - x\<bar> \<le> x / 2 ^ 53"
proof (cases "x = 0")
  case True
  have "ulp_exponent 0 = 0"
    by (subst ulp_exponent.simps) simp
  then show ?thesis
    using True by (simp add: fl64_def round_half_even_def)
next
  case False
  then have pos: "0 < x"
    using assms by simp
  define u :: real where "u = power_int 2 (ulp_exponent x)"
  have u: "0 < u"
    by (simp add: u_def)
  have b: "2 ^ 52 \<le> x / u"
    using ulp_exponent_bounds [OF pos] by (simp add: u_def)
  have f: "fl64 x = of_int (round_half_even (x / u)) * u"
    using pos by (simp add: fl64_def u_def Let_def)
  define r :: real where "r = of_int (round_half_even (x / u))"
  have "(r - x / u) * u = fl64 x - x"
    using u by (simp add: f r_def left_diff_distrib)
  then have "\<bar>fl64 x - x\<bar> = \<bar>(r - x / u) * u\<bar>"
    by (simp only:)
  also have "\<dots> = \<bar>r - x / u\<bar> * u"
    using u by (simp only: abs_mult abs_of_pos)
  finally have eq: "\<bar>fl64 x - x\<bar> = \<bar>r - x / u\<bar> * u" .
  have "\<bar>r - x / u\<bar> \<le> 1 / 2"
    unfolding r_def by (rule round_half_even_error)
  then have "\<bar>r - x / u\<bar> * u \<le> 1 / 2 * u"
    using u by (simp only: mult_le_cancel_right_pos)
  moreover have "1 / 2 * u \<le> x / 2 ^ 53"
  proof -
    have "2 ^ 52 * u \<le> x"
      using b u by (simp add: pos_le_divide_eq)
    then show ?thesis
      by simp
  qed
  ultimately show ?thesis
    unfolding eq by linarith
qed

lemma fl64_upper:
  assumes "0 \<le> x" "x \<le> b"
  shows "fl64 x \<le> b * (101 / 100)"
proof -
  have "\<bar>fl64 x - x\<bar> \<le> x / 2 ^ 53"
    using assms(1) by (rule fl64_error)
  moreover have "x / 2 ^ 53 \<le> x / 100"
    using assms(1) by (simp add: field_simps)
  ultimately show ?thesis
    using assms by linarith
qed

text \<open>
  Evaluating \<open>fl64\<close> at a number whose exponent is known: the exponent is unique.
\<close>

lemma fl64_zero: "fl64 0 = 0"
proof -
  have "ulp_exponent 0 = 0"
    by (subst ulp_exponent.simps) simp
  then show ?thesis
    by (simp add: fl64_def round_half_even_def)
qed

lemma ulp_exponent_unique:
  assumes "0 < x" "2 ^ 52 \<le> x / power_int 2 e" "x / power_int 2 e < 2 ^ 53"
  shows "ulp_exponent x = e"
proof -
  define e' where "e' = ulp_exponent x"
  have u: "(0 :: real) < power_int 2 e" "(0 :: real) < power_int 2 e'"
    by simp_all
  have b': "2 ^ 52 \<le> x / power_int 2 e'" "x / power_int 2 e' < 2 ^ 53"
    using ulp_exponent_bounds [OF assms(1)] by (simp_all add: e'_def)
  have lo: "2 ^ 52 * power_int 2 e \<le> x" and hi: "x < 2 ^ 53 * power_int 2 e"
    using assms(2,3) u(1) by (simp_all add: pos_le_divide_eq pos_divide_less_eq)
  have lo': "2 ^ 52 * power_int 2 e' \<le> x" and hi': "x < 2 ^ 53 * power_int 2 e'"
    using b' u(2) by (simp_all add: pos_le_divide_eq pos_divide_less_eq)
  have step: "2 ^ 53 * power_int 2 a \<le> 2 ^ 52 * (power_int 2 b :: real)" if "a < b" for a b :: int
  proof -
    have "a + 1 \<le> b"
      using that by simp
    then have "power_int (2 :: real) (a + 1) \<le> power_int 2 b"
      by (intro power_int_increasing) simp_all
    moreover have "power_int (2 :: real) (a + 1) = 2 * power_int 2 a"
      by (simp add: power_int_add)
    ultimately show ?thesis
      by simp
  qed
  have "\<not> e < e'"
    using step [of e e'] hi lo' by linarith
  moreover have "\<not> e' < e"
    using step [of e' e] hi' lo by linarith
  ultimately show ?thesis
    by (simp add: e'_def)
qed

lemma fl64_eval:
  assumes "2 ^ 52 \<le> x * 2 ^ n" "x * 2 ^ n < 2 ^ 53" "round_half_even (x * 2 ^ n) = m"
  shows "fl64 x = of_int m / 2 ^ n"
proof -
  have p: "power_int (2 :: real) (- int n) = 1 / 2 ^ n"
    by (simp add: power_int_minus field_simps)
  have pos: "0 < x"
  proof (rule ccontr)
    assume "\<not> 0 < x"
    then have "x * 2 ^ n \<le> 0"
      by (simp add: mult_le_0_iff)
    then show False
      using assms(1) by simp
  qed
  have "ulp_exponent x = - int n"
    using pos assms(1,2) by (intro ulp_exponent_unique) (simp_all add: p)
  then show ?thesis
    using pos assms(3) by (simp add: fl64_def Let_def p)
qed

subsection \<open>Bounds on the parts of the score\<close>

lemma fl64_bounds:
  assumes "0 \<le> x" "x \<le> b"
  shows "0 \<le> fl64 x \<and> fl64 x \<le> b * (101 / 100)"
  using fl64_nonneg [OF assms(1)] fl64_upper [OF assms] by simp

lemma float_mul_bounds:
  assumes "0 \<le> x" "x \<le> a" "0 \<le> y" "y \<le> b"
  shows "0 \<le> float_mul x y \<and> float_mul x y \<le> a * b * (101 / 100)"
proof -
  have "0 \<le> x * y"
    using assms(1,3) by simp
  moreover have "x * y \<le> a * b"
    using assms by (intro mult_mono) simp_all
  ultimately show ?thesis
    unfolding float_mul_def by (rule fl64_bounds)
qed

lemma float_add_bounds:
  assumes "0 \<le> x" "x \<le> a" "0 \<le> y" "y \<le> b"
  shows "0 \<le> float_add x y \<and> float_add x y \<le> (a + b) * (101 / 100)"
proof -
  have "0 \<le> x + y" "x + y \<le> a + b"
    using assms by simp_all
  then show ?thesis
    unfolding float_add_def by (rule fl64_bounds)
qed

lemma py_round2_bounds:
  assumes "0 \<le> x" "x \<le> 89 / 100"
  shows "0 \<le> py_round2 x \<and> py_round2 x \<le> 1 \<and>
    (\<exists>k. 0 \<le> k \<and> k \<le> 100 \<and> py_round2 x = fl64 (of_int k / 100))"
proof -
  define k where "k = round_half_even (x * 100)"
  have k0: "0 \<le> k"
    unfolding k_def using assms(1) by (intro round_half_even_nonneg) simp
  have "x * 100 \<le> of_int 89"
    using assms(2) by simp
  then have k89: "k \<le> 89"
    unfolding k_def by (rule round_half_even_le)
  have "0 \<le> real_of_int k / 100" "real_of_int k / 100 \<le> 89 / 100"
    using k0 k89 by simp_all
  then have "0 \<le> fl64 (of_int k / 100) \<and> fl64 (of_int k / 100) \<le> 89 / 100 * (101 / 100)"
    by (rule fl64_bounds)
  moreover have "py_round2 x = fl64 (of_int k / 100)"
    by (simp add: py_round2_def k_def)
  ultimately show ?thesis
    using k0 k89 by (intro conjI exI [of _ k]) simp_all
qed

lemma float_literal_bounds:
  "0 \<le> fl64 (1 / 10) \<and> fl64 (1 / 10) \<le> 101 / 1000"
  "0 \<le> fl64 (2 / 10) \<and> fl64 (2 / 10) \<le> 202 / 1000"
  "0 \<le> fl64 (3 / 10) \<and> fl64 (3 / 10) \<le> 303 / 1000"
  "0 \<le> fl64 (4 / 10) \<and> fl64 (4 / 10) \<le> 404 / 1000"
  "0 \<le> fl64 (5 / 10) \<and> fl64 (5 / 10) \<le> 505 / 1000"
  using fl64_bounds [of "1 / 10" "1 / 10"] fl64_bounds [of "2 / 10" "2 / 10"]
    fl64_bounds [of "3 / 10" "3 / 10"] fl64_bounds [of "4 / 10" "4 / 10"]
    fl64_bounds [of "5 / 10" "5 / 10"]
  by simp_all

lemma float_of_int_nonneg: "0 \<le> n \<Longrightarrow> 0 \<le> float_of_int n"
  unfolding float_of_int_def by (rule fl64_nonneg) simp

lemma length_score_bounds:
  "0 \<le> length_score text \<and> length_score text \<le> 1"
proof -
  have "0 \<le> int_truediv (length (py_split text)) (sentence_count text)"
    unfolding int_truediv_def by (rule fl64_nonneg) simp
  moreover have "0 \<le> float_of_int 30"
    by (rule float_of_int_nonneg) simp
  ultimately have "0 \<le> float_truediv (int_truediv (length (py_split text)) (sentence_count text))
      (float_of_int 30)"
    unfolding float_truediv_def by (intro fl64_nonneg) simp
  then show ?thesis
    by (simp add: length_score_def Let_def)
qed

lemma diversity_score_bounds:
  "0 \<le> diversity_score text \<and> diversity_score text \<le> 101 / 100"
proof -
  have "length (remdups (map lower (py_split text))) \<le> length (py_split text)"
    using length_remdups_leq [of "map lower (py_split text)"] by simp
  then have "real (length (remdups (map lower (py_split text)))) / real (length (py_split text)) \<le> 1"
    by (simp add: divide_le_eq_1)
  moreover have "0 \<le> real (length (remdups (map lower (py_split text)))) / real (length (py_split text))"
    by simp
  ultimately show ?thesis
    using fl64_bounds [of "real (length (remdups (map lower (py_split text)))) / real (length (py_split text))" 1]
    by (simp add: diversity_score_def Let_def int_truediv_def)
qed

lemma technical_score_bounds:
  "0 \<le> technical_score text \<and> technical_score text \<le> 505 / 1000"
proof -
  define raw where "raw = float_add
                (float_add (float_mul (float_of_int (int (length (extract_code_blocks text)))) (fl64 (2 / 10)))
                   (float_mul (float_of_int (if has_math text then 1 else 0)) (fl64 (3 / 10))))
                (float_mul (float_of_int (if has_links text then 1 else 0)) (fl64 (1 / 10)))"
  have "0 \<le> raw"
    unfolding raw_def float_add_def float_mul_def
    by (intro fl64_nonneg add_nonneg_nonneg mult_nonneg_nonneg float_of_int_nonneg) simp_all
  moreover have "min raw (fl64 (5 / 10)) \<le> fl64 (5 / 10)"
    by (rule min.cobounded2)
  ultimately have "0 \<le> min raw (fl64 (5 / 10)) \<and> min raw (fl64 (5 / 10)) \<le> 505 / 1000"
    using float_literal_bounds(5) by (auto simp only: min_def split: if_split)
  then show ?thesis
    by (simp only: technical_score_def Let_def raw_def)
qed

lemma blend_bounds:
  "0 \<le> float_add
          (float_add (float_mul (length_score text) (fl64 (3 / 10)))
             (float_mul (diversity_score text) (fl64 (4 / 10))))
          (float_mul (technical_score text) (fl64 (3 / 10))) \<and>
   float_add
     (float_add (float_mul (length_score text) (fl64 (3 / 10)))
        (float_mul (diversity_score text) (fl64 (4 / 10))))
     (float_mul (technical_score text) (fl64 (3 / 10))) \<le> 89 / 100"
proof -
  note l = length_score_bounds [of "text"] and d = diversity_score_bounds [of "text"]
    and t = technical_score_bounds [of "text"]
  note c3 = float_literal_bounds(3) and c4 = float_literal_bounds(4)
  have p1: "0 \<le> float_mul (length_score text) (fl64 (3 / 10)) \<and>
      float_mul (length_score text) (fl64 (3 / 10)) \<le> 1 * (303 / 1000) * (101 / 100)"
    using l c3 by (intro float_mul_bounds) simp_all
  have p2: "0 \<le> float_mul (diversity_score text) (fl64 (4 / 10)) \<and>
      float_mul (diversity_score text) (fl64 (4 / 10)) \<le> 101 / 100 * (404 / 1000) * (101 / 100)"
    using d c4 by (intro float_mul_bounds) simp_all
  have p3: "0 \<le> float_mul (technical_score text) (fl64 (3 / 10)) \<and>
      float_mul (technical_score text) (fl64 (3 / 10)) \<le> 505 / 1000 * (303 / 1000) * (101 / 100)"
    using t c3 by (intro float_mul_bounds) simp_all
  have s1: "0 \<le> float_add (float_mul (length_score text) (fl64 (3 / 10)))
             (float_mul (diversity_score text) (fl64 (4 / 10))) \<and>
      float_add (float_mul (length_score text) (fl64 (3 / 10)))
             (float_mul (diversity_score text) (fl64 (4 / 10)))
        \<le> (1 * (303 / 1000) * (101 / 100) + 101 / 100 * (404 / 1000) * (101 / 100)) * (101 / 100)"
    using p1 p2 by (intro float_add_bounds) simp_all
  have s2: "0 \<le> float_add
          (float_add (float_mul (length_score text) (fl64 (3 / 10)))
             (float_mul (diversity_score text) (fl64 (4 / 10))))
          (float_mul (technical_score text) (fl64 (3 / 10))) \<and>
      float_add
          (float_add (float_mul (length_score text) (fl64 (3 / 10)))
             (float_mul (diversity_score text) (fl64 (4 / 10))))
          (float_mul (technical_score text) (fl64 (3 / 10)))
        \<le> ((1 * (303 / 1000) * (101 / 100) + 101 / 100 * (404 / 1000) * (101 / 100)) * (101 / 100)
            + 505 / 1000 * (303 / 1000) * (101 / 100)) * (101 / 100)"
    using s1 p3 by (intro float_add_bounds) simp_all
  have "((1 * (303 / 1000) * (101 / 100) + 101 / 100 * (404 / 1000) * (101 / 100)) * (101 / 100)
            + 505 / 1000 * (303 / 1000) * (101 / 100)) * (101 / 100) \<le> (89 / 100 :: real)"
    by simp
  then show ?thesis
    using s2 by linarith
qed

text \<open>
  C9.  The score of the empty text, of a text without a sentence and of a text without
  a word is 0.  The score of every text lies between 0 and 1.  On any other text it is
  \<open>round(c, 2)\<close> of the blend \<open>c = length score * 0.3 + diversity * 0.4 + technical
  score * 0.3\<close>, computed on floats from left to right, where the length score is the
  average sentence length over 30 capped at 1, the diversity the share of distinct
  lower-cased words, and the technical score \<open>code blocks * 0.2 + math * 0.3 +
  links * 0.1\<close> capped at 0.5; and it is the float nearest to \<open>k / 100\<close> for an integer
  \<open>k\<close> from 0 to 100.
\<close>

theorem complexity_score_bounds:
  "calculate_complexity_score [] = 0 \<and>
   (sentence_count text = 0 \<longrightarrow> calculate_complexity_score text = 0) \<and>
   (py_split text = [] \<longrightarrow> calculate_complexity_score text = 0) \<and>
   0 \<le> calculate_complexity_score text \<and> calculate_complexity_score text \<le> 1 \<and>
   (text \<noteq> [] \<longrightarrow> sentence_count text \<noteq> 0 \<longrightarrow> py_split text \<noteq> [] \<longrightarrow>
      calculate_complexity_score text =
        fl64 (of_int (round_half_even
                 (fl64 (fl64 (fl64 (length_score text * fl64 (3 / 10))
                              + fl64 (diversity_score text * fl64 (4 / 10)))
                        + fl64 (technical_score text * fl64 (3 / 10))) * 100)) / 100) \<and>
      length_score text =
        min (fl64 (fl64 (real (length (py_split text)) / real (sentence_count text)) / fl64 30)) 1 \<and>
      diversity_score text =
        fl64 (real (length (remdups (map lower (py_split text)))) / real (length (py_split text))) \<and>
      technical_score text =
        min (fl64 (fl64 (fl64 (fl64 (real (length (extract_code_blocks text))) * fl64 (2 / 10))
                         + fl64 (fl64 (if has_math text then 1 else 0) * fl64 (3 / 10)))
                   + fl64 (fl64 (if has_links text then 1 else 0) * fl64 (1 / 10))))
            (fl64 (5 / 10)) \<and>
      (\<exists>k. 0 \<le> k \<and> k \<le> 100 \<and> calculate_complexity_score text = fl64 (of_int k / 100)))"
proof -
  define blend where "blend = float_add
          (float_add (float_mul (length_score text) (fl64 (3 / 10)))
             (float_mul (diversity_score text) (fl64 (4 / 10))))
          (float_mul (technical_score text) (fl64 (3 / 10)))"
  have "0 \<le> blend" "blend \<le> 89 / 100"
    using blend_bounds [of "text"] by (simp_all add: blend_def)
  then have round: "0 \<le> py_round2 blend \<and> py_round2 blend \<le> 1 \<and>
      (\<exists>k. 0 \<le> k \<and> k \<le> 100 \<and> py_round2 blend = fl64 (of_int k / 100))"
    by (rule py_round2_bounds)
  have score: "calculate_complexity_score text =
      (if text = [] \<or> sentence_count text = 0 \<or> py_split text = [] then 0 else py_round2 blend)"
    by (simp add: calculate_complexity_score_def blend_def)
  have bounds: "0 \<le> calculate_complexity_score text \<and> calculate_complexity_score text \<le> 1"
    using round unfolding score by simp
  have empty: "calculate_complexity_score [] = 0"
    by (simp add: calculate_complexity_score_def)
  have blend: "blend = fl64 (fl64 (fl64 (length_score text * fl64 (3 / 10))
                       + fl64 (diversity_score text * fl64 (4 / 10)))
                 + fl64 (technical_score text * fl64 (3 / 10)))"
    by (simp add: blend_def float_add_def float_mul_def)
  have parts: "length_score text =
        min (fl64 (fl64 (real (length (py_split text)) / real (sentence_count text)) / fl64 30)) 1"
    "diversity_score text =
        fl64 (real (length (remdups (map lower (py_split text)))) / real (length (py_split text)))"
    "technical_score text =
        min (fl64 (fl64 (fl64 (fl64 (real (length (extract_code_blocks text))) * fl64 (2 / 10))
                         + fl64 (fl64 (if has_math text then 1 else 0) * fl64 (3 / 10)))
                   + fl64 (fl64 (if has_links text then 1 else 0) * fl64 (1 / 10))))
            (fl64 (5 / 10))"
    by (simp_all add: length_score_def diversity_score_def technical_score_def Let_def
        float_add_def float_mul_def float_truediv_def int_truediv_def float_of_int_def)
  show ?thesis
    using score round bounds empty parts unfolding blend [symmetric] py_round2_def [symmetric]
    by simp
qed

theorem complexity_score_bounds_witness:
  "calculate_complexity_score ''a.b'' = fl64 (41 / 100) \<and>
   calculate_complexity_score ''$.$'' = fl64 (49 / 100) \<and>
   fl64 (41 / 100) = 7385903388887613 / 18014398509481984 \<and>
   fl64 (49 / 100) = 2206763817411543 / 4503599627370496 \<and>
   calculate_complexity_score ''...'' = 0 \<and>
   calculate_complexity_score '' '' = 0"
proof -
  have f1: "fl64 (1 / 10) = 3602879701896397 / 36028797018963968"
    using fl64_eval [where x = "1 / 10" and n = 56 and m = 7205759403792794]
    by (simp add: round_half_even_def Let_def)
  have f2: "fl64 (1 / 5) = 3602879701896397 / 18014398509481984"
    using fl64_eval [where x = "1 / 5" and n = 55 and m = 7205759403792794]
    by (simp add: round_half_even_def Let_def)
  have f3: "fl64 (3 / 10) = 5404319552844595 / 18014398509481984"
    using fl64_eval [where x = "3 / 10" and n = 54 and m = 5404319552844595]
    by (simp add: round_half_even_def Let_def)
  have f4: "fl64 (2 / 5) = 3602879701896397 / 9007199254740992"
    using fl64_eval [where x = "2 / 5" and n = 54 and m = 7205759403792794]
    by (simp add: round_half_even_def Let_def)
  have f5: "fl64 (1 / 2) = 1 / 2"
    using fl64_eval [where x = "1 / 2" and n = 53 and m = 4503599627370496]
    by (simp add: round_half_even_def Let_def)
  have f6: "fl64 (30) = 30"
    using fl64_eval [where x = "30" and n = 48 and m = 8444249301319680]
    by (simp add: round_half_even_def Let_def)
  have f7: "fl64 (1 / 60) = 4803839602528529 / 288230376151711744"
    using fl64_eval [where x = "1 / 60" and n = 58 and m = 4803839602528529]
    by (simp add: round_half_even_def Let_def)
  have f8: "fl64 (1) = 1"
    using fl64_eval [where x = "1" and n = 52 and m = 4503599627370496]
    by (simp add: round_half_even_def Let_def)
  have f9: "fl64 (25961484292674136821596590950755 / 5192296858534827628530496329220096) = 5764607523034235 / 1152921504606846976"
    using fl64_eval [where x = "25961484292674136821596590950755 / 5192296858534827628530496329220096" and n = 60 and m = 5764607523034235]
    by (simp add: round_half_even_def Let_def)
  have f10: "fl64 (3602879701896397 / 9007199254740992) = 3602879701896397 / 9007199254740992"
    using fl64_eval [where x = "3602879701896397 / 9007199254740992" and n = 54 and m = 7205759403792794]
    by (simp add: round_half_even_def Let_def)
  have f11: "fl64 (466933209365773051 / 1152921504606846976) = 1823957849085051 / 4503599627370496"
    using fl64_eval [where x = "466933209365773051 / 1152921504606846976" and n = 54 and m = 7295831396340204]
    by (simp add: round_half_even_def Let_def)
  have f12: "fl64 (1823957849085051 / 4503599627370496) = 1823957849085051 / 4503599627370496"
    using fl64_eval [where x = "1823957849085051 / 4503599627370496" and n = 54 and m = 7295831396340204]
    by (simp add: round_half_even_def Let_def)
  have f13: "fl64 (41 / 100) = 7385903388887613 / 18014398509481984"
    using fl64_eval [where x = "41 / 100" and n = 54 and m = 7385903388887613]
    by (simp add: round_half_even_def Let_def)
  have f14: "fl64 (5404319552844595 / 18014398509481984) = 5404319552844595 / 18014398509481984"
    using fl64_eval [where x = "5404319552844595 / 18014398509481984" and n = 54 and m = 5404319552844595]
    by (simp add: round_half_even_def Let_def)
  have f15: "fl64 (29206669829258403248756220714025 / 324518553658426726783156020576256) = 3242591731706757 / 36028797018963968"
    using fl64_eval [where x = "29206669829258403248756220714025 / 324518553658426726783156020576256" and n = 56 and m = 6485183463413514]
    by (simp add: round_half_even_def Let_def)
  have f16: "fl64 (17834254524387165 / 36028797018963968) = 4458563631096791 / 9007199254740992"
    using fl64_eval [where x = "17834254524387165 / 36028797018963968" and n = 54 and m = 8917127262193582]
    by (simp add: round_half_even_def Let_def)
  have f17: "fl64 (49 / 100) = 2206763817411543 / 4503599627370496"
    using fl64_eval [where x = "49 / 100" and n = 54 and m = 8827055269646172]
    by (simp add: round_half_even_def Let_def)
  note floats = fl64_zero f1 f2 f3 f4 f5 f6 f7 f8 f9 f10 f11 f12 f13 f14 f15 f16 f17
  have a_facts: "sentence_count ''a.b'' = 2" "length (py_split ''a.b'') = 1"
    "length (remdups (map lower (py_split ''a.b''))) = 1"
    "length (extract_code_blocks ''a.b'') = 0" "has_math ''a.b'' = False" "has_links ''a.b'' = False"
    by code_simp+
  have a_given: "''a.b'' \<noteq> []" "sentence_count ''a.b'' \<noteq> 0" "py_split ''a.b'' \<noteq> []"
    using a_facts(1,2) by auto
  note a = complexity_score_bounds [of "''a.b''", THEN conjunct2, THEN conjunct2, THEN conjunct2,
      THEN conjunct2, THEN conjunct2, rule_format, OF a_given]
  have a_ls: "length_score ''a.b'' = 4803839602528529 / 288230376151711744"
    using a [THEN conjunct2, THEN conjunct1] by (simp add: a_facts floats)
  have a_ds: "diversity_score ''a.b'' = 1"
    using a [THEN conjunct2, THEN conjunct2, THEN conjunct1] by (simp add: a_facts floats)
  have a_ts: "technical_score ''a.b'' = 0"
    using a [THEN conjunct2, THEN conjunct2, THEN conjunct2, THEN conjunct1]
    by (simp add: a_facts floats)
  have a_round: "py_round2 (1823957849085051 / 4503599627370496) = fl64 (41 / 100)"
    by (simp add: py_round2_def round_half_even_def Let_def)
  have a_score: "calculate_complexity_score ''a.b'' = fl64 (41 / 100)"
    using a [THEN conjunct1, folded py_round2_def] by (simp add: a_ls a_ds a_ts floats a_round del: f13)
  have b_facts: "sentence_count ''$.$'' = 2" "length (py_split ''$.$'') = 1"
    "length (remdups (map lower (py_split ''$.$''))) = 1"
    "length (extract_code_blocks ''$.$'') = 0" "has_math ''$.$'' = True" "has_links ''$.$'' = False"
    by code_simp+
  have b_given: "''$.$'' \<noteq> []" "sentence_count ''$.$'' \<noteq> 0" "py_split ''$.$'' \<noteq> []"
    using b_facts(1,2) by auto
  note b = complexity_score_bounds [of "''$.$''", THEN conjunct2, THEN conjunct2, THEN conjunct2,
      THEN conjunct2, THEN conjunct2, rule_format, OF b_given]
  have b_ls: "length_score ''$.$'' = 4803839602528529 / 288230376151711744"
    using b [THEN conjunct2, THEN conjunct1] by (simp add: b_facts floats)
  have b_ds: "diversity_score ''$.$'' = 1"
    using b [THEN conjunct2, THEN conjunct2, THEN conjunct1] by (simp add: b_facts floats)
  have b_ts: "technical_score ''$.$'' = 5404319552844595 / 18014398509481984"
    using b [THEN conjunct2, THEN conjunct2, THEN conjunct2, THEN conjunct1]
    by (simp add: b_facts floats)
  have b_round: "py_round2 (4458563631096791 / 9007199254740992) = fl64 (49 / 100)"
    by (simp add: py_round2_def round_half_even_def Let_def)
  have b_score: "calculate_complexity_score ''$.$'' = fl64 (49 / 100)"
    using b [THEN conjunct1, folded py_round2_def] by (simp add: b_ls b_ds b_ts floats b_round del: f17)
  have zero: "sentence_count ''...'' = 0" "py_split '' '' = []"
    by code_simp+
  have "calculate_complexity_score ''...'' = 0"
    using complexity_score_bounds [of "''...''", THEN conjunct2, THEN conjunct1] zero(1) by simp
  moreover have "calculate_complexity_score '' '' = 0"
    using complexity_score_bounds [of "'' ''", THEN conjunct2, THEN conjunct2, THEN conjunct1] zero(2)
    by simp
  ultimately show ?thesis
    using a_score b_score f13 f17 by (intro conjI)
qed

end
